(* ===== verification/Irosh_Prelude.thy ===== *)
theory Irosh_Prelude
  imports Main "HOL-Library.Word"
begin

text \<open>
  The prelude of the development: names for the machine types the Rust sources use, the
  question-mark operator on results, big-endian integers as they go over the wire, the
  reader primitives of the asynchronous byte streams, and the generic lemmas on lists and
  strings that the component theories share.

  Conventions.  A Rust \<^verbatim>\<open>Result<T, E>\<close> is a value of type \<open>'e + 't\<close>: \<open>Inl\<close> is the error,
  \<open>Inr\<close> the value.  A Rust \<^verbatim>\<open>String\<close> or \<^verbatim>\<open>OsStr\<close> is its UTF-8 byte string, a \<open>char list\<close>
  (a HOL \<open>char\<close> is one byte).  A byte stream is the list of the bytes not yet read.
\<close>

unbundle bit_operations_syntax

named_theorems wire_defs \<open>the constants of the wire formats\<close>
named_theorems result_splits \<open>case splits on results\<close>

type_synonym u8 = "8 word"
type_synonym u16 = "16 word"
type_synonym u32 = "32 word"
type_synonym u64 = "64 word"
type_synonym bytes = "u8 list"

section \<open>Results\<close>

text \<open>The \<^verbatim>\<open>?\<close> operator: an error is returned to the caller at once.\<close>

definition and_then :: "'e + 'a \<Rightarrow> ('a \<Rightarrow> 'e + 'b) \<Rightarrow> 'e + 'b" where
  "and_then r f = (case r of Inl e \<Rightarrow> Inl e | Inr v \<Rightarrow> f v)"

text \<open>\<^verbatim>\<open>map_err\<close> (and the implicit \<^verbatim>\<open>From\<close> conversion of the question mark).\<close>

definition map_err :: "('e \<Rightarrow> 'f) \<Rightarrow> 'e + 'a \<Rightarrow> 'f + 'a" where
  "map_err f r = (case r of Inl e \<Rightarrow> Inl (f e) | Inr v \<Rightarrow> Inr v)"

lemma and_then_simps [simp]:
  "and_then (Inl e) f = Inl e"
  "and_then (Inr v) f = f v"
  by (simp_all add: and_then_def)

lemma and_then_eq_Inr_iff: "and_then r f = Inr y \<longleftrightarrow> (\<exists>v. r = Inr v \<and> f v = Inr y)"
  by (cases r) simp_all

lemma and_then_eq_Inl_iff: "and_then r f = Inl e \<longleftrightarrow> r = Inl e \<or> (\<exists>v. r = Inr v \<and> f v = Inl e)"
  by (cases r) simp_all

lemma and_then_split [result_splits]:
  "P (and_then r f) \<longleftrightarrow> (\<forall>e. r = Inl e \<longrightarrow> P (Inl e)) \<and> (\<forall>v. r = Inr v \<longrightarrow> P (f v))"
  by (cases r) simp_all

lemma and_then_assoc: "and_then (and_then r f) g = and_then r (\<lambda>v. and_then (f v) g)"
  by (cases r) simp_all

lemma map_err_simps [simp]:
  "map_err f (Inl e) = Inl (f e)"
  "map_err f (Inr v) = Inr v"
  by (simp_all add: map_err_def)

lemma map_err_eq_Inr_iff [simp]: "map_err f r = Inr v \<longleftrightarrow> r = Inr v"
  by (cases r) simp_all

section \<open>Big-endian integers\<close>

text \<open>
  \<^verbatim>\<open>AsyncWriteExt::write_u32\<close> and \<^verbatim>\<open>AsyncReadExt::read_u32\<close>: four bytes, the most
  significant first.
\<close>

definition u32_to_be :: "u32 \<Rightarrow> bytes" where
  "u32_to_be w =
     [ucast (drop_bit 24 w), ucast (drop_bit 16 w), ucast (drop_bit 8 w), ucast w]"

definition u32_from_be :: "u8 \<Rightarrow> u8 \<Rightarrow> u8 \<Rightarrow> u8 \<Rightarrow> u32" where
  "u32_from_be a b c d =
     push_bit 24 (ucast a) OR push_bit 16 (ucast b) OR push_bit 8 (ucast c) OR ucast d"

lemma length_u32_to_be [simp]: "length (u32_to_be w) = 4"
  by (simp add: u32_to_be_def)

lemma bit_u8_high [simp]: "8 \<le> n \<Longrightarrow> \<not> bit (b :: u8) n"
  using bit_imp_le_length [of b n] by auto

lemma u32_be_roundtrip:
  fixes w :: u32
  shows "u32_from_be (ucast (drop_bit 24 w)) (ucast (drop_bit 16 w)) (ucast (drop_bit 8 w)) (ucast w)
    = w" (is "?v = w")
proof (rule bit_word_eqI)
  fix n assume "n < LENGTH(32)"
  then consider "n < 8" | "8 \<le> n" "n < 16" | "16 \<le> n" "n < 24" | "24 \<le> n" "n < 32"
    by (cases "n < 8"; cases "n < 16"; cases "n < 24") auto
  then show "bit ?v n = bit w n"
    by cases (auto simp: u32_from_be_def bit_simps)
qed

lemma u32_to_be_from_be: "u32_to_be (u32_from_be a b c d) = [a, b, c, d]"
  unfolding u32_to_be_def u32_from_be_def
  by (auto simp: bit_simps intro!: bit_word_eqI)

section \<open>Readers\<close>

datatype io_error =
    UnexpectedEof | EntryNotFound | PermissionDenied | NotADirectory | IsADirectory | InvalidData | InvalidInput | IoOther

text \<open>
  \<^verbatim>\<open>read_exact\<close> on a buffer of \<open>n\<close> bytes, \<^verbatim>\<open>read_u8\<close> and \<^verbatim>\<open>read_u32\<close>: an end of stream
  inside the value is the error \<^verbatim>\<open>UnexpectedEof\<close>.  The second component of a result is what is
  left of the stream.
\<close>

definition read_exact :: "nat \<Rightarrow> bytes \<Rightarrow> io_error + (bytes \<times> bytes)" where
  "read_exact n s = (if length s < n then Inl UnexpectedEof else Inr (take n s, drop n s))"

fun read_u8 :: "bytes \<Rightarrow> io_error + (u8 \<times> bytes)" where
  "read_u8 [] = Inl UnexpectedEof"
| "read_u8 (b # s) = Inr (b, s)"

fun read_u32 :: "bytes \<Rightarrow> io_error + (u32 \<times> bytes)" where
  "read_u32 (a # b # c # d # s) = Inr (u32_from_be a b c d, s)"
| "read_u32 s = Inl UnexpectedEof"

lemma read_exact_append [simp]: "n = length p \<Longrightarrow> read_exact n (p @ s) = Inr (p, s)"
  by (simp add: read_exact_def)

lemma read_exact_eq_Inr_iff:
  "read_exact n s = Inr (p, s') \<longleftrightarrow> length p = n \<and> s = p @ s'"
  by (auto simp: read_exact_def)

lemma read_exact_eq_Inl_iff:
  "read_exact n s = Inl e \<longleftrightarrow> length s < n \<and> e = UnexpectedEof"
  by (auto simp: read_exact_def)

lemma read_u8_eq_Inr_iff: "read_u8 s = Inr (b, s') \<longleftrightarrow> s = b # s'"
  by (cases s) auto

lemma read_u8_eq_Inl_iff: "read_u8 s = Inl e \<longleftrightarrow> s = [] \<and> e = UnexpectedEof"
  by (cases s) auto

lemma read_u32_append [simp]: "read_u32 (u32_to_be w @ s) = Inr (w, s)"
  by (simp add: u32_to_be_def u32_be_roundtrip)

lemma read_u32_eq_Inr_iff: "read_u32 s = Inr (w, s') \<longleftrightarrow> s = u32_to_be w @ s'"
proof
  assume "read_u32 s = Inr (w, s')"
  then show "s = u32_to_be w @ s'"
    by (cases s rule: read_u32.cases) (auto simp: u32_to_be_from_be)
qed simp

lemma read_u32_eq_Inl_iff: "read_u32 s = Inl e \<longleftrightarrow> length s < 4 \<and> e = UnexpectedEof"
  by (cases s rule: read_u32.cases) auto

lemmas reader_Inr_iffs = read_exact_eq_Inr_iff read_u8_eq_Inr_iff read_u32_eq_Inr_iff
lemmas reader_Inl_iffs = read_exact_eq_Inl_iff read_u8_eq_Inl_iff read_u32_eq_Inl_iff

section \<open>Reading several items in a row\<close>

primrec read_n :: "('s \<Rightarrow> 'e + ('a \<times> 's)) \<Rightarrow> nat \<Rightarrow> 's \<Rightarrow> 'e + ('a list \<times> 's)" where
  "read_n rd 0 s = Inr ([], s)"
| "read_n rd (Suc n) s =
     and_then (rd s) (\<lambda>(x, s'). and_then (read_n rd n s') (\<lambda>(xs, s''). Inr (x # xs, s'')))"

lemma read_n_concat:
  assumes "\<And>x s. x \<in> set xs \<Longrightarrow> rd (enc x @ s) = Inr (x, s)"
  shows "read_n rd (length xs) (concat (map enc xs) @ s) = Inr (xs, s)"
  using assms by (induction xs) simp_all

section \<open>Byte strings\<close>

abbreviation as_bytes :: "string \<Rightarrow> bytes" where
  "as_bytes s \<equiv> map of_char s"

text \<open>\<^verbatim>\<open>str::split\<close> on a single ASCII character: always at least one field.\<close>

fun split_on :: "('a \<Rightarrow> bool) \<Rightarrow> 'a list \<Rightarrow> 'a list list" where
  "split_on p [] = [[]]"
| "split_on p (c # cs) =
     (if p c then [] # split_on p cs
      else case split_on p cs of [] \<Rightarrow> [[c]] | f # fs \<Rightarrow> (c # f) # fs)"

lemma split_on_not_Nil [simp]: "split_on p cs \<noteq> []"
  by (induction cs) (auto split: list.splits)

lemma split_on_no_sep: "f \<in> set (split_on p cs) \<Longrightarrow> c \<in> set f \<Longrightarrow> \<not> p c"
proof (induction cs arbitrary: f c)
  case (Cons d cs)
  then show ?case by (cases "split_on p cs") (fastforce split: if_splits)+
qed simp

text \<open>Joining fields with a separator.\<close>

fun join_with :: "'a list \<Rightarrow> 'a list list \<Rightarrow> 'a list" where
  "join_with sep [] = []"
| "join_with sep [x] = x"
| "join_with sep (x # y # ys) = x @ sep @ join_with sep (y # ys)"

lemma set_join_with: "c \<in> set (join_with sep fs) \<Longrightarrow> c \<in> set sep \<or> (\<exists>f \<in> set fs. c \<in> set f)"
  by (induction sep fs rule: join_with.induct) auto

lemma split_on_append:
  "(\<And>c. c \<in> set f \<Longrightarrow> \<not> p c) \<Longrightarrow> p s \<Longrightarrow> split_on p (f @ s # cs) = f # split_on p cs"
  by (induction f) simp_all

lemma split_on_single: "(\<And>c. c \<in> set f \<Longrightarrow> \<not> p c) \<Longrightarrow> split_on p f = [f]"
  by (induction f) simp_all

lemma split_join:
  assumes "fs \<noteq> []" and "\<And>f c. f \<in> set fs \<Longrightarrow> c \<in> set f \<Longrightarrow> \<not> p c" and "p s"
  shows "split_on p (join_with [s] fs) = fs"
  using assms
proof (induction "[s]" fs rule: join_with.induct)
  case (3 x y ys)
  then have "split_on p (join_with [s] (y # ys)) = y # ys" by auto
  moreover have "split_on p (x @ s # join_with [s] (y # ys))
      = x # split_on p (join_with [s] (y # ys))"
    using 3 by (intro split_on_append) auto
  ultimately show ?case by simp
qed (simp_all add: split_on_single)

section \<open>White space\<close>

text \<open>
  The UTF-8 encodings of the characters with the Unicode property \<^verbatim>\<open>White_Space\<close>, as
  \<^verbatim>\<open>str::trim\<close> strips them.
\<close>

definition white_space :: "string list" where
  "white_space =
     [[CHR 0x09], [CHR 0x0A], [CHR 0x0B], [CHR 0x0C], [CHR 0x0D], [CHR 0x20],
      [CHR 0xC2, CHR 0x85], [CHR 0xC2, CHR 0xA0], [CHR 0xE1, CHR 0x9A, CHR 0x80],
      [CHR 0xE2, CHR 0x80, CHR 0x80], [CHR 0xE2, CHR 0x80, CHR 0x81], [CHR 0xE2, CHR 0x80, CHR 0x82],
      [CHR 0xE2, CHR 0x80, CHR 0x83], [CHR 0xE2, CHR 0x80, CHR 0x84], [CHR 0xE2, CHR 0x80, CHR 0x85],
      [CHR 0xE2, CHR 0x80, CHR 0x86], [CHR 0xE2, CHR 0x80, CHR 0x87], [CHR 0xE2, CHR 0x80, CHR 0x88],
      [CHR 0xE2, CHR 0x80, CHR 0x89], [CHR 0xE2, CHR 0x80, CHR 0x8A], [CHR 0xE2, CHR 0x80, CHR 0xA8],
      [CHR 0xE2, CHR 0x80, CHR 0xA9], [CHR 0xE2, CHR 0x80, CHR 0xAF], [CHR 0xE2, CHR 0x81, CHR 0x9F],
      [CHR 0xE3, CHR 0x80, CHR 0x80]]"

text \<open>Dropping, again and again, a front that is one of the given non-empty strings.\<close>

function strip_front :: "string list \<Rightarrow> string \<Rightarrow> string" where
  "strip_front ws s =
     (case find (\<lambda>w. w \<noteq> [] \<and> take (length w) s = w) ws of
        None \<Rightarrow> s
      | Some w \<Rightarrow> strip_front ws (drop (length w) s))"
  by pat_completeness auto
termination
proof (relation "measure (\<lambda>(ws, s). length s)")
  fix ws s w
  assume "find (\<lambda>w. w \<noteq> [] \<and> take (length w) s = w) ws = Some w"
  then have "w \<noteq> []" and "take (length w) s = w" by (auto simp: find_Some_iff)
  then show "((ws, drop (length w) s), ws, s) \<in> measure (\<lambda>(ws, s). length s)" by (cases s) auto
qed simp

declare strip_front.simps [simp del]

definition trim_start :: "string \<Rightarrow> string" where
  "trim_start s = strip_front white_space s"

definition trim_end :: "string \<Rightarrow> string" where
  "trim_end s = rev (strip_front (map rev white_space) (rev s))"

definition trim :: "string \<Rightarrow> string" where
  "trim s = trim_end (trim_start s)"

lemma strip_front_fixed:
  "(\<And>w. w \<in> set ws \<Longrightarrow> w \<noteq> [] \<Longrightarrow> take (length w) s \<noteq> w) \<Longrightarrow> strip_front ws s = s"
  by (subst strip_front.simps) (auto split: option.splits simp: find_Some_iff)

section \<open>UTF-8\<close>

text \<open>A continuation byte of a multi-byte UTF-8 sequence.\<close>

definition continuation :: "char \<Rightarrow> bool" where
  "continuation c \<longleftrightarrow> 0x80 \<le> (of_char c :: nat) \<and> (of_char c :: nat) < 0xC0"

text \<open>Well-formed UTF-8, as every Rust \<^verbatim>\<open>String\<close> is.\<close>

fun utf8_valid :: "string \<Rightarrow> bool" where
  "utf8_valid [] = True"
| "utf8_valid (a # s) =
    (let n = (of_char a :: nat) in
     if n < 0x80 then utf8_valid s
     else if 0xC2 \<le> n \<and> n \<le> 0xDF then
       (case s of b # s' \<Rightarrow> continuation b \<and> utf8_valid s' | _ \<Rightarrow> False)
     else if 0xE0 \<le> n \<and> n \<le> 0xEF then
       (case s of b # c # s' \<Rightarrow> continuation b \<and> continuation c
          \<and> (n \<noteq> 0xE0 \<or> (of_char b :: nat) \<ge> 0xA0) \<and> (n \<noteq> 0xED \<or> (of_char b :: nat) < 0xA0)
          \<and> utf8_valid s' | _ \<Rightarrow> False)
     else if 0xF0 \<le> n \<and> n \<le> 0xF4 then
       (case s of b # c # d # s' \<Rightarrow> continuation b \<and> continuation c \<and> continuation d
          \<and> (n \<noteq> 0xF0 \<or> (of_char b :: nat) \<ge> 0x90) \<and> (n \<noteq> 0xF4 \<or> (of_char b :: nat) < 0x90)
          \<and> utf8_valid s' | _ \<Rightarrow> False)
     else False)"

lemma utf8_valid_ascii: "(\<And>c. c \<in> set s \<Longrightarrow> (of_char c :: nat) < 0x80) \<Longrightarrow> utf8_valid (s @ t) = utf8_valid t"
  by (induction s) simp_all

section \<open>Stateful operations\<close>

text \<open>
  An operation on a state that may fail: the result and the state after it.  \<open>bindS\<close> is the
  sequence with the question mark: after an error the rest does not run, and the state is the one
  the failed operation left.
\<close>

type_synonym ('s, 'e, 'a) op = "'s \<Rightarrow> ('e + 'a) \<times> 's"

definition retS :: "'a \<Rightarrow> ('s, 'e, 'a) op" where
  "retS v s = (Inr v, s)"

definition failS :: "'e \<Rightarrow> ('s, 'e, 'a) op" where
  "failS e s = (Inl e, s)"

definition bindS :: "('s, 'e, 'a) op \<Rightarrow> ('a \<Rightarrow> ('s, 'e, 'b) op) \<Rightarrow> ('s, 'e, 'b) op" where
  "bindS m f s = (case m s of (Inl e, s') \<Rightarrow> (Inl e, s') | (Inr v, s') \<Rightarrow> f v s')"

definition errS :: "('e \<Rightarrow> 'f) \<Rightarrow> ('s, 'e, 'a) op \<Rightarrow> ('s, 'f, 'a) op" where
  "errS g m s = (case m s of (r, s') \<Rightarrow> (map_err g r, s'))"

lemma op_simps [simp]:
  "retS v s = (Inr v, s)"
  "failS e s = (Inl e, s)"
  by (simp_all add: retS_def failS_def)

lemma bindS_eq_iff:
  "bindS m f s = (r, s') \<longleftrightarrow>
     (\<exists>e. m s = (Inl e, s') \<and> r = Inl e) \<or> (\<exists>v s1. m s = (Inr v, s1) \<and> f v s1 = (r, s'))"
  by (auto simp: bindS_def split: prod.splits sum.splits)

lemma bindS_Inr: "m s = (Inr v, s1) \<Longrightarrow> bindS m f s = f v s1"
  by (simp add: bindS_def)

lemma bindS_Inl: "m s = (Inl e, s1) \<Longrightarrow> bindS m f s = (Inl e, s1)"
  by (simp add: bindS_def)

lemma errS_eq_iff:
  "errS g m s = (r, s') \<longleftrightarrow> (\<exists>r0. m s = (r0, s') \<and> r = map_err g r0)"
  by (auto simp: errS_def split: prod.splits)

lemma errS_result_iffs:
  "errS g m s = (Inr v, s') \<longleftrightarrow> m s = (Inr v, s')"
  "errS g m s = (Inl e', s') \<longleftrightarrow> (\<exists>e. m s = (Inl e, s') \<and> e' = g e)"
  by (auto simp: errS_def map_err_def split: prod.splits sum.splits)

text \<open>What every step keeps, the sequence keeps.\<close>

lemma bindS_keeps:
  assumes "bindS m f s = (r, s')" and "P s"
    and "\<And>r1 s1. m s = (r1, s1) \<Longrightarrow> P s1"
    and "\<And>v s1. P s1 \<Longrightarrow> f v s1 = (r, s') \<Longrightarrow> P s'"
  shows "P s'"
  using assms by (auto simp: bindS_eq_iff)

section \<open>The JSON parameter\<close>

text \<open>
  \<^verbatim>\<open>serde_json\<close> is a library outside the repository.  A definition that uses it takes a value
  of type \<open>'a serde\<close>: the serializer and the deserializer of one message type.  What the code
  relies on is that a value that serializes is read back (\<open>roundtrips\<close>).
\<close>

datatype json_error = JsonError string

record 'a serde =
  ser :: "'a \<Rightarrow> json_error + bytes"
  de :: "bytes \<Rightarrow> json_error + 'a"

definition roundtrips :: "'a serde \<Rightarrow> 'a \<Rightarrow> bool" where
  "roundtrips c v = (case ser c v of Inl _ \<Rightarrow> True | Inr b \<Rightarrow> de c b = Inr v)"

text \<open>A codec that knows one value only, for closed examples.\<close>

definition sample_serde :: "'a \<Rightarrow> bytes \<Rightarrow> 'a serde" where
  "sample_serde v b = \<lparr>ser = (\<lambda>_. Inr b), de = (\<lambda>_. Inr v)\<rparr>"

lemma roundtrips_de: "roundtrips c v \<Longrightarrow> ser c v = Inr b \<Longrightarrow> de c b = Inr v"
  by (simp add: roundtrips_def)

lemma roundtrips_sample [simp]: "roundtrips (sample_serde v b) v"
  by (simp add: roundtrips_def sample_serde_def)

end
