(* ===== verification/Frame_Interface.thy ===== *)
theory Frame_Interface
  imports Irosh_Prelude
begin

text \<open>
  The contract of a framed byte channel: what the transfer codec and the metadata codec
  promise of their private \<^verbatim>\<open>write_frame\<close> and \<^verbatim>\<open>read_frame\<close>, and what follows from it for
  every stream of frames.  Both codecs interpret the locale on their own definitions.
\<close>

locale frame_codec =
  fixes wr :: "u8 \<Rightarrow> bytes \<Rightarrow> 'e + bytes"
    and rd :: "bytes \<Rightarrow> 'e + ((u8 \<times> bytes) \<times> bytes)"
    and known :: "u8 \<Rightarrow> bool"
  assumes rd_wr: "wr k p = Inr bs \<Longrightarrow> known k \<Longrightarrow> rd (bs @ s) = Inr ((k, p), s)"
    and rd_sound: "rd s = Inr ((k, p), s') \<Longrightarrow> known k \<and> (\<exists>bs. wr k p = Inr bs \<and> s = bs @ s')"
    and wr_nonempty: "wr k p = Inr bs \<Longrightarrow> bs \<noteq> []"
begin

text \<open>Reading accepts exactly the byte strings that start with a written frame.\<close>

lemma rd_iff:
  "rd s = Inr ((k, p), s') \<longleftrightarrow> known k \<and> (\<exists>bs. wr k p = Inr bs \<and> s = bs @ s')"
  using rd_wr rd_sound by blast

lemma rd_progress: "rd s = Inr (f, s') \<Longrightarrow> length s' < length s"
  using rd_sound [of s "fst f" "snd f" s'] wr_nonempty by fastforce

text \<open>No frame is a prefix of another one, so a stream splits into frames in one way only.\<close>

lemma wr_prefix_free:
  assumes "wr k p = Inr bs" "known k" "wr k' p' = Inr bs'" "known k'" "bs @ s = bs' @ s'"
  shows "k = k' \<and> p = p' \<and> bs = bs' \<and> s = s'"
proof -
  have "rd (bs @ s) = Inr ((k, p), s)" using assms(1,2) by (rule rd_wr)
  moreover have "rd (bs' @ s') = Inr ((k', p'), s')" using assms(3,4) by (rule rd_wr)
  ultimately have "k = k' \<and> p = p' \<and> s = s'" using assms(5) by simp
  with assms(1,3) show ?thesis by simp
qed

lemma rd_stream:
  assumes "\<And>k p. (k, p) \<in> set fs \<Longrightarrow> known k \<and> wr k p = Inr (enc (k, p))"
  shows "read_n rd (length fs) (concat (map enc fs) @ s) = Inr (fs, s)"
  by (rule read_n_concat) (auto simp: rd_iff dest!: assms)

end

end
