(* ===== verification/Transfer_Codec.thy ===== *)
theory Transfer_Codec
  imports Frame_Interface
begin

text \<open>
  The framed transfer protocol of \<^verbatim>\<open>src/transport/transfer\<close>: the message types of
  \<^verbatim>\<open>types.rs\<close>, the frame layout and payload limits of \<^verbatim>\<open>codec/mod.rs\<close>, every decoder of
  \<^verbatim>\<open>codec/reader.rs\<close> and every encoder of \<^verbatim>\<open>codec/writer.rs\<close>.

  A writer is the list of bytes it appends to its stream; a reader maps the unread bytes to a
  value and the bytes that are left.  The JSON codec (\<^verbatim>\<open>serde_json\<close>) is not part of the
  repository: the definitions take it as a parameter, one serializer and one deserializer for
  each message type.
\<close>

section \<open>Messages\<close>

record put_request =
  pr_path :: string
  pr_size :: u64
  pr_mode :: "u32 option"
  pr_recursive :: bool

record get_request =
  gr_path :: string
  gr_recursive :: bool

record blob_put_request =
  bpr_path :: string
  bpr_hash :: string
  bpr_format :: string
  bpr_size :: u64

record blob_get_request =
  bgr_path :: string

record blob_get_ready =
  bgy_hash :: string
  bgy_format :: string
  bgy_size :: u64

record transfer_ready =
  tr_size :: u64
  tr_mode :: "u32 option"

record entry_header =
  eh_path :: string
  eh_size :: u64
  eh_mode :: "u32 option"
  eh_is_dir :: bool

datatype entry_complete = EntryCompleteMsg

record transfer_complete =
  tc_size :: u64

datatype transfer_failure_code =
    RemoteShellUnavailable
  | TargetAlreadyExists
  | PathInvalid
  | CreateDirectoryFailed
  | SizeMismatch
  | UnexpectedFrame
  | HelperFailed
  | AtomicRenameFailed
  | Rejected
  | NotFound
  | IsDirectory
  | Internal

record transfer_failure =
  tf_code :: transfer_failure_code
  tf_detail :: string

datatype cwd_request = CwdRequestMsg

record cwd_response =
  cr_path :: string

record exists_request =
  er_path :: string

record exists_response =
  es_exists :: bool
  es_is_dir :: bool

record completion_request =
  cq_path :: string

record completion_response =
  cp_matches :: "string list"

datatype transfer_frame =
    PutRequest put_request
  | PutReady transfer_ready
  | PutChunk bytes
  | PutComplete transfer_complete
  | GetRequest get_request
  | GetReady transfer_ready
  | GetChunk bytes
  | GetComplete transfer_complete
  | CwdRequest cwd_request
  | CwdResponse cwd_response
  | ExistsRequest exists_request
  | ExistsResponse exists_response
  | CompletionRequest completion_request
  | CompletionResponse completion_response
  | BlobPutRequest blob_put_request
  | BlobGetRequest blob_get_request
  | BlobGetReady blob_get_ready
  | NewEntry entry_header
  | EntryComplete entry_complete
  | FrameError transfer_failure

text \<open>\<^verbatim>\<open>TransferFrameBorrowed\<close>: chunk payloads stay in the caller's buffer.\<close>

datatype transfer_frame_borrowed =
    BPutChunk bytes
  | BGetChunk bytes
  | Owned transfer_frame

datatype transfer_error =
    Io io_error
  | InvalidMagic
  | UnsupportedVersion u8
  | UnsupportedKind u8
  | UnexpectedKind u8 u8 \<comment> \<open>expected, actual\<close>
  | PayloadTooLarge nat
  | Json json_error
  | InvalidPath string

definition failure_new :: "transfer_failure_code \<Rightarrow> string \<Rightarrow> transfer_failure" where
  "failure_new c d = \<lparr>tf_code = c, tf_detail = d\<rparr>"

fun failure_label :: "transfer_failure_code \<Rightarrow> string" where
  "failure_label RemoteShellUnavailable = ''remote shell unavailable''"
| "failure_label TargetAlreadyExists = ''target already exists''"
| "failure_label PathInvalid = ''transfer path invalid''"
| "failure_label CreateDirectoryFailed = ''creating remote directory failed''"
| "failure_label SizeMismatch = ''transfer size mismatch''"
| "failure_label UnexpectedFrame = ''unexpected transfer frame''"
| "failure_label HelperFailed = ''transfer helper failed''"
| "failure_label AtomicRenameFailed = ''atomic rename failed''"
| "failure_label Rejected = ''transfer rejected''"
| "failure_label NotFound = ''path not found''"
| "failure_label IsDirectory = ''path is a directory''"
| "failure_label Internal = ''transfer internal error''"

text \<open>\<^verbatim>\<open>impl Display for TransferFailure\<close>.\<close>

definition failure_display :: "transfer_failure \<Rightarrow> string" where
  "failure_display f =
     (if tf_detail f = [] then failure_label (tf_code f)
      else failure_label (tf_code f) @ '': '' @ tf_detail f)"

section \<open>Constants of the wire format\<close>

definition MAX_CONTROL_BYTES :: nat where [wire_defs]: "MAX_CONTROL_BYTES = 8 * 1024"
definition MAX_CHUNK_BYTES :: nat where [wire_defs]: "MAX_CHUNK_BYTES = 64 * 1024"

definition MAGIC :: bytes where [wire_defs]: "MAGIC = [0x49, 0x52, 0x46, 0x54]"
definition VERSION :: u8 where [wire_defs]: "VERSION = 2"

definition KIND_PUT_REQUEST :: u8 where [wire_defs]: "KIND_PUT_REQUEST = 1"
definition KIND_PUT_READY :: u8 where [wire_defs]: "KIND_PUT_READY = 2"
definition KIND_PUT_CHUNK :: u8 where [wire_defs]: "KIND_PUT_CHUNK = 3"
definition KIND_PUT_COMPLETE :: u8 where [wire_defs]: "KIND_PUT_COMPLETE = 4"
definition KIND_GET_REQUEST :: u8 where [wire_defs]: "KIND_GET_REQUEST = 5"
definition KIND_GET_READY :: u8 where [wire_defs]: "KIND_GET_READY = 6"
definition KIND_GET_CHUNK :: u8 where [wire_defs]: "KIND_GET_CHUNK = 7"
definition KIND_GET_COMPLETE :: u8 where [wire_defs]: "KIND_GET_COMPLETE = 8"
definition KIND_ERROR :: u8 where [wire_defs]: "KIND_ERROR = 9"
definition KIND_CWD_REQUEST :: u8 where [wire_defs]: "KIND_CWD_REQUEST = 10"
definition KIND_CWD_RESPONSE :: u8 where [wire_defs]: "KIND_CWD_RESPONSE = 11"
definition KIND_EXISTS_REQUEST :: u8 where [wire_defs]: "KIND_EXISTS_REQUEST = 12"
definition KIND_EXISTS_RESPONSE :: u8 where [wire_defs]: "KIND_EXISTS_RESPONSE = 13"
definition KIND_NEW_ENTRY :: u8 where [wire_defs]: "KIND_NEW_ENTRY = 14"
definition KIND_ENTRY_COMPLETE :: u8 where [wire_defs]: "KIND_ENTRY_COMPLETE = 15"
definition KIND_COMPLETION_REQUEST :: u8 where [wire_defs]: "KIND_COMPLETION_REQUEST = 16"
definition KIND_COMPLETION_RESPONSE :: u8 where [wire_defs]: "KIND_COMPLETION_RESPONSE = 17"
definition KIND_BLOB_PUT_REQUEST :: u8 where [wire_defs]: "KIND_BLOB_PUT_REQUEST = 18"
definition KIND_BLOB_GET_REQUEST :: u8 where [wire_defs]: "KIND_BLOB_GET_REQUEST = 19"
definition KIND_BLOB_GET_READY :: u8 where [wire_defs]: "KIND_BLOB_GET_READY = 20"

text \<open>The \<^verbatim>\<open>matches!\<close> guard of both frame readers.\<close>

definition known_kind :: "u8 \<Rightarrow> bool" where
  "known_kind k \<longleftrightarrow> k \<in> {KIND_PUT_REQUEST, KIND_PUT_READY, KIND_PUT_CHUNK, KIND_PUT_COMPLETE,
     KIND_GET_REQUEST, KIND_GET_READY, KIND_GET_CHUNK, KIND_GET_COMPLETE, KIND_ERROR,
     KIND_CWD_REQUEST, KIND_CWD_RESPONSE, KIND_EXISTS_REQUEST, KIND_EXISTS_RESPONSE,
     KIND_NEW_ENTRY, KIND_ENTRY_COMPLETE, KIND_COMPLETION_REQUEST, KIND_COMPLETION_RESPONSE,
     KIND_BLOB_PUT_REQUEST, KIND_BLOB_GET_REQUEST, KIND_BLOB_GET_READY}"

section \<open>Raw frames\<close>

definition max_payload :: "u8 \<Rightarrow> nat" where
  "max_payload kind =
     (if kind = KIND_PUT_CHUNK \<or> kind = KIND_GET_CHUNK then MAX_CHUNK_BYTES else MAX_CONTROL_BYTES)"

definition validate_payload_limit :: "u8 \<Rightarrow> nat \<Rightarrow> transfer_error + unit" where
  "validate_payload_limit kind payload_len =
     (if payload_len > max_payload kind then Inl (PayloadTooLarge payload_len) else Inr ())"

definition write_frame :: "u8 \<Rightarrow> bytes \<Rightarrow> transfer_error + bytes" where
  "write_frame kind payload =
     and_then (validate_payload_limit kind (length payload)) (\<lambda>_.
       Inr (MAGIC @ [VERSION] @ [kind] @ u32_to_be (of_nat (length payload)) @ payload))"

definition read_frame :: "bytes \<Rightarrow> transfer_error + ((u8 \<times> bytes) \<times> bytes)" where
  "read_frame s0 =
     and_then (map_err Io (read_exact 4 s0)) (\<lambda>(magic, s1).
     if magic \<noteq> MAGIC then Inl InvalidMagic else
     and_then (map_err Io (read_u8 s1)) (\<lambda>(version, s2).
     if version \<noteq> VERSION then Inl (UnsupportedVersion version) else
     and_then (map_err Io (read_u8 s2)) (\<lambda>(kind, s3).
     if \<not> known_kind kind then Inl (UnsupportedKind kind) else
     and_then (map_err Io (read_u32 s3)) (\<lambda>(len, s4).
     and_then (validate_payload_limit kind (unat len)) (\<lambda>_.
     and_then (map_err Io (read_exact (unat len) s4)) (\<lambda>(payload, s5).
     Inr ((kind, payload), s5)))))))"

text \<open>\<^verbatim>\<open>Vec::resize\<close>: keep the front, fill up with zeros.\<close>

definition vec_resize :: "bytes \<Rightarrow> nat \<Rightarrow> bytes" where
  "vec_resize buf n = take n buf @ replicate (n - length buf) 0"

text \<open>
  \<^verbatim>\<open>read_frame_into\<close>: the same frame, read into the caller's buffer, which is resized and then
  filled over its whole length.  The result carries the new contents of the buffer.
\<close>

definition read_frame_into :: "bytes \<Rightarrow> bytes \<Rightarrow> transfer_error + ((u8 \<times> bytes) \<times> bytes)" where
  "read_frame_into buf s0 =
     and_then (map_err Io (read_exact 4 s0)) (\<lambda>(magic, s1).
     if magic \<noteq> MAGIC then Inl InvalidMagic else
     and_then (map_err Io (read_u8 s1)) (\<lambda>(version, s2).
     if version \<noteq> VERSION then Inl (UnsupportedVersion version) else
     and_then (map_err Io (read_u8 s2)) (\<lambda>(kind, s3).
     if \<not> known_kind kind then Inl (UnsupportedKind kind) else
     and_then (map_err Io (read_u32 s3)) (\<lambda>(len, s4).
     and_then (validate_payload_limit kind (unat len)) (\<lambda>_.
     let buf' = vec_resize buf (unat len) in
     and_then (map_err Io (read_exact (length buf') s4)) (\<lambda>(payload, s5).
     Inr ((kind, payload), s5)))))))"

section \<open>The JSON parameter\<close>

record serde_json =
  js_put_request :: "put_request serde"
  js_get_request :: "get_request serde"
  js_blob_put_request :: "blob_put_request serde"
  js_blob_get_request :: "blob_get_request serde"
  js_blob_get_ready :: "blob_get_ready serde"
  js_transfer_ready :: "transfer_ready serde"
  js_entry_header :: "entry_header serde"
  js_entry_complete :: "entry_complete serde"
  js_transfer_complete :: "transfer_complete serde"
  js_transfer_failure :: "transfer_failure serde"
  js_cwd_request :: "cwd_request serde"
  js_cwd_response :: "cwd_response serde"
  js_exists_request :: "exists_request serde"
  js_exists_response :: "exists_response serde"
  js_completion_request :: "completion_request serde"
  js_completion_response :: "completion_response serde"

section \<open>Decoders\<close>

definition read_json_frame :: "'a serde \<Rightarrow> u8 \<Rightarrow> bytes \<Rightarrow> transfer_error + ('a \<times> bytes)" where
  "read_json_frame c expected s =
     and_then (read_frame s) (\<lambda>((kind, payload), s').
     if kind \<noteq> expected then Inl (UnexpectedKind expected kind) else
     and_then (map_err Json (de c payload)) (\<lambda>v. Inr (v, s')))"

definition decode_as :: "('a \<Rightarrow> transfer_frame) \<Rightarrow> 'a serde \<Rightarrow> bytes \<Rightarrow> transfer_error + transfer_frame" where
  "decode_as mk c payload = and_then (map_err Json (de c payload)) (\<lambda>v. Inr (mk v))"

definition decode_frame :: "serde_json \<Rightarrow> u8 \<Rightarrow> bytes \<Rightarrow> transfer_error + transfer_frame" where
  "decode_frame J kind payload =
    (if kind = KIND_PUT_REQUEST then decode_as PutRequest (js_put_request J) payload
     else if kind = KIND_PUT_READY then decode_as PutReady (js_transfer_ready J) payload
     else if kind = KIND_PUT_COMPLETE then decode_as PutComplete (js_transfer_complete J) payload
     else if kind = KIND_GET_REQUEST then decode_as GetRequest (js_get_request J) payload
     else if kind = KIND_GET_READY then decode_as GetReady (js_transfer_ready J) payload
     else if kind = KIND_GET_COMPLETE then decode_as GetComplete (js_transfer_complete J) payload
     else if kind = KIND_CWD_REQUEST then decode_as CwdRequest (js_cwd_request J) payload
     else if kind = KIND_CWD_RESPONSE then decode_as CwdResponse (js_cwd_response J) payload
     else if kind = KIND_EXISTS_REQUEST then decode_as ExistsRequest (js_exists_request J) payload
     else if kind = KIND_EXISTS_RESPONSE then decode_as ExistsResponse (js_exists_response J) payload
     else if kind = KIND_COMPLETION_REQUEST
       then decode_as CompletionRequest (js_completion_request J) payload
     else if kind = KIND_COMPLETION_RESPONSE
       then decode_as CompletionResponse (js_completion_response J) payload
     else if kind = KIND_BLOB_PUT_REQUEST then decode_as BlobPutRequest (js_blob_put_request J) payload
     else if kind = KIND_BLOB_GET_REQUEST then decode_as BlobGetRequest (js_blob_get_request J) payload
     else if kind = KIND_BLOB_GET_READY then decode_as BlobGetReady (js_blob_get_ready J) payload
     else if kind = KIND_NEW_ENTRY then decode_as NewEntry (js_entry_header J) payload
     else if kind = KIND_ENTRY_COMPLETE then decode_as EntryComplete (js_entry_complete J) payload
     else if kind = KIND_ERROR then decode_as FrameError (js_transfer_failure J) payload
     else Inl (UnsupportedKind kind))"

definition read_next_frame_into ::
    "serde_json \<Rightarrow> bytes \<Rightarrow> bytes \<Rightarrow> transfer_error + (transfer_frame_borrowed \<times> bytes)" where
  "read_next_frame_into J buf s =
     and_then (read_frame_into buf s) (\<lambda>((kind, payload), s').
     if kind = KIND_PUT_CHUNK then Inr (BPutChunk payload, s')
     else if kind = KIND_GET_CHUNK then Inr (BGetChunk payload, s')
     else and_then (decode_frame J kind payload) (\<lambda>f. Inr (Owned f, s')))"

fun own_frame :: "transfer_frame_borrowed \<Rightarrow> transfer_frame" where
  "own_frame (BPutChunk payload) = PutChunk payload"
| "own_frame (BGetChunk payload) = GetChunk payload"
| "own_frame (Owned frame) = frame"

definition read_next_frame :: "serde_json \<Rightarrow> bytes \<Rightarrow> transfer_error + (transfer_frame \<times> bytes)" where
  "read_next_frame J s =
     and_then (read_next_frame_into J [] s) (\<lambda>(b, s'). Inr (own_frame b, s'))"

definition read_put_request :: "serde_json \<Rightarrow> bytes \<Rightarrow> transfer_error + (put_request \<times> bytes)" where
  "read_put_request J = read_json_frame (js_put_request J) KIND_PUT_REQUEST"

definition read_put_ready :: "serde_json \<Rightarrow> bytes \<Rightarrow> transfer_error + (transfer_ready \<times> bytes)" where
  "read_put_ready J = read_json_frame (js_transfer_ready J) KIND_PUT_READY"

definition read_put_chunk :: "bytes \<Rightarrow> transfer_error + (bytes \<times> bytes)" where
  "read_put_chunk s =
     and_then (read_frame s) (\<lambda>((kind, payload), s').
     if kind \<noteq> KIND_PUT_CHUNK then Inl (UnexpectedKind KIND_PUT_CHUNK kind) else Inr (payload, s'))"

definition read_put_complete :: "serde_json \<Rightarrow> bytes \<Rightarrow> transfer_error + (transfer_complete \<times> bytes)" where
  "read_put_complete J = read_json_frame (js_transfer_complete J) KIND_PUT_COMPLETE"

definition read_get_request :: "serde_json \<Rightarrow> bytes \<Rightarrow> transfer_error + (get_request \<times> bytes)" where
  "read_get_request J = read_json_frame (js_get_request J) KIND_GET_REQUEST"

definition read_get_ready :: "serde_json \<Rightarrow> bytes \<Rightarrow> transfer_error + (transfer_ready \<times> bytes)" where
  "read_get_ready J = read_json_frame (js_transfer_ready J) KIND_GET_READY"

definition read_get_chunk :: "bytes \<Rightarrow> transfer_error + (bytes \<times> bytes)" where
  "read_get_chunk s =
     and_then (read_frame s) (\<lambda>((kind, payload), s').
     if kind \<noteq> KIND_GET_CHUNK then Inl (UnexpectedKind KIND_GET_CHUNK kind) else Inr (payload, s'))"

definition read_get_complete :: "serde_json \<Rightarrow> bytes \<Rightarrow> transfer_error + (transfer_complete \<times> bytes)" where
  "read_get_complete J = read_json_frame (js_transfer_complete J) KIND_GET_COMPLETE"

definition read_transfer_error :: "serde_json \<Rightarrow> bytes \<Rightarrow> transfer_error + (transfer_failure \<times> bytes)" where
  "read_transfer_error J = read_json_frame (js_transfer_failure J) KIND_ERROR"

definition read_exists_request :: "serde_json \<Rightarrow> bytes \<Rightarrow> transfer_error + (exists_request \<times> bytes)" where
  "read_exists_request J = read_json_frame (js_exists_request J) KIND_EXISTS_REQUEST"

definition read_exists_response :: "serde_json \<Rightarrow> bytes \<Rightarrow> transfer_error + (exists_response \<times> bytes)" where
  "read_exists_response J = read_json_frame (js_exists_response J) KIND_EXISTS_RESPONSE"

section \<open>Encoders\<close>

definition write_json_frame :: "'a serde \<Rightarrow> u8 \<Rightarrow> 'a \<Rightarrow> transfer_error + bytes" where
  "write_json_frame c kind v = and_then (map_err Json (ser c v)) (\<lambda>payload. write_frame kind payload)"

definition write_put_request :: "serde_json \<Rightarrow> put_request \<Rightarrow> transfer_error + bytes" where
  "write_put_request J = write_json_frame (js_put_request J) KIND_PUT_REQUEST"

definition write_put_ready :: "serde_json \<Rightarrow> transfer_ready \<Rightarrow> transfer_error + bytes" where
  "write_put_ready J = write_json_frame (js_transfer_ready J) KIND_PUT_READY"

definition write_put_chunk :: "bytes \<Rightarrow> transfer_error + bytes" where
  "write_put_chunk chunk = write_frame KIND_PUT_CHUNK chunk"

definition write_put_complete :: "serde_json \<Rightarrow> transfer_complete \<Rightarrow> transfer_error + bytes" where
  "write_put_complete J = write_json_frame (js_transfer_complete J) KIND_PUT_COMPLETE"

definition write_get_request :: "serde_json \<Rightarrow> get_request \<Rightarrow> transfer_error + bytes" where
  "write_get_request J = write_json_frame (js_get_request J) KIND_GET_REQUEST"

definition write_get_ready :: "serde_json \<Rightarrow> transfer_ready \<Rightarrow> transfer_error + bytes" where
  "write_get_ready J = write_json_frame (js_transfer_ready J) KIND_GET_READY"

definition write_get_chunk :: "bytes \<Rightarrow> transfer_error + bytes" where
  "write_get_chunk chunk = write_frame KIND_GET_CHUNK chunk"

definition write_get_complete :: "serde_json \<Rightarrow> transfer_complete \<Rightarrow> transfer_error + bytes" where
  "write_get_complete J = write_json_frame (js_transfer_complete J) KIND_GET_COMPLETE"

definition write_transfer_error :: "serde_json \<Rightarrow> transfer_failure \<Rightarrow> transfer_error + bytes" where
  "write_transfer_error J = write_json_frame (js_transfer_failure J) KIND_ERROR"

definition write_cwd_request :: "serde_json \<Rightarrow> cwd_request \<Rightarrow> transfer_error + bytes" where
  "write_cwd_request J = write_json_frame (js_cwd_request J) KIND_CWD_REQUEST"

definition write_cwd_response :: "serde_json \<Rightarrow> cwd_response \<Rightarrow> transfer_error + bytes" where
  "write_cwd_response J = write_json_frame (js_cwd_response J) KIND_CWD_RESPONSE"

definition write_exists_request :: "serde_json \<Rightarrow> exists_request \<Rightarrow> transfer_error + bytes" where
  "write_exists_request J = write_json_frame (js_exists_request J) KIND_EXISTS_REQUEST"

definition write_exists_response :: "serde_json \<Rightarrow> exists_response \<Rightarrow> transfer_error + bytes" where
  "write_exists_response J = write_json_frame (js_exists_response J) KIND_EXISTS_RESPONSE"

definition write_new_entry :: "serde_json \<Rightarrow> entry_header \<Rightarrow> transfer_error + bytes" where
  "write_new_entry J = write_json_frame (js_entry_header J) KIND_NEW_ENTRY"

definition write_entry_complete :: "serde_json \<Rightarrow> entry_complete \<Rightarrow> transfer_error + bytes" where
  "write_entry_complete J = write_json_frame (js_entry_complete J) KIND_ENTRY_COMPLETE"

definition write_completion_request :: "serde_json \<Rightarrow> completion_request \<Rightarrow> transfer_error + bytes" where
  "write_completion_request J = write_json_frame (js_completion_request J) KIND_COMPLETION_REQUEST"

definition write_completion_response :: "serde_json \<Rightarrow> completion_response \<Rightarrow> transfer_error + bytes" where
  "write_completion_response J = write_json_frame (js_completion_response J) KIND_COMPLETION_RESPONSE"

definition write_blob_put_request :: "serde_json \<Rightarrow> blob_put_request \<Rightarrow> transfer_error + bytes" where
  "write_blob_put_request J = write_json_frame (js_blob_put_request J) KIND_BLOB_PUT_REQUEST"

definition write_blob_get_request :: "serde_json \<Rightarrow> blob_get_request \<Rightarrow> transfer_error + bytes" where
  "write_blob_get_request J = write_json_frame (js_blob_get_request J) KIND_BLOB_GET_REQUEST"

definition write_blob_get_ready :: "serde_json \<Rightarrow> blob_get_ready \<Rightarrow> transfer_error + bytes" where
  "write_blob_get_ready J = write_json_frame (js_blob_get_ready J) KIND_BLOB_GET_READY"

text \<open>The encoder that belongs to each constructor of \<^typ>\<open>transfer_frame\<close>.\<close>

fun encode_frame :: "serde_json \<Rightarrow> transfer_frame \<Rightarrow> transfer_error + bytes" where
  "encode_frame J (PutRequest m) = write_put_request J m"
| "encode_frame J (PutReady m) = write_put_ready J m"
| "encode_frame J (PutChunk b) = write_put_chunk b"
| "encode_frame J (PutComplete m) = write_put_complete J m"
| "encode_frame J (GetRequest m) = write_get_request J m"
| "encode_frame J (GetReady m) = write_get_ready J m"
| "encode_frame J (GetChunk b) = write_get_chunk b"
| "encode_frame J (GetComplete m) = write_get_complete J m"
| "encode_frame J (CwdRequest m) = write_cwd_request J m"
| "encode_frame J (CwdResponse m) = write_cwd_response J m"
| "encode_frame J (ExistsRequest m) = write_exists_request J m"
| "encode_frame J (ExistsResponse m) = write_exists_response J m"
| "encode_frame J (CompletionRequest m) = write_completion_request J m"
| "encode_frame J (CompletionResponse m) = write_completion_response J m"
| "encode_frame J (BlobPutRequest m) = write_blob_put_request J m"
| "encode_frame J (BlobGetRequest m) = write_blob_get_request J m"
| "encode_frame J (BlobGetReady m) = write_blob_get_ready J m"
| "encode_frame J (NewEntry m) = write_new_entry J m"
| "encode_frame J (EntryComplete m) = write_entry_complete J m"
| "encode_frame J (FrameError m) = write_transfer_error J m"

text \<open>The JSON codec reads back the message of this frame.\<close>

fun json_ok :: "serde_json \<Rightarrow> transfer_frame \<Rightarrow> bool" where
  "json_ok J (PutRequest m) = roundtrips (js_put_request J) m"
| "json_ok J (PutReady m) = roundtrips (js_transfer_ready J) m"
| "json_ok J (PutChunk b) = True"
| "json_ok J (PutComplete m) = roundtrips (js_transfer_complete J) m"
| "json_ok J (GetRequest m) = roundtrips (js_get_request J) m"
| "json_ok J (GetReady m) = roundtrips (js_transfer_ready J) m"
| "json_ok J (GetChunk b) = True"
| "json_ok J (GetComplete m) = roundtrips (js_transfer_complete J) m"
| "json_ok J (CwdRequest m) = roundtrips (js_cwd_request J) m"
| "json_ok J (CwdResponse m) = roundtrips (js_cwd_response J) m"
| "json_ok J (ExistsRequest m) = roundtrips (js_exists_request J) m"
| "json_ok J (ExistsResponse m) = roundtrips (js_exists_response J) m"
| "json_ok J (CompletionRequest m) = roundtrips (js_completion_request J) m"
| "json_ok J (CompletionResponse m) = roundtrips (js_completion_response J) m"
| "json_ok J (BlobPutRequest m) = roundtrips (js_blob_put_request J) m"
| "json_ok J (BlobGetRequest m) = roundtrips (js_blob_get_request J) m"
| "json_ok J (BlobGetReady m) = roundtrips (js_blob_get_ready J) m"
| "json_ok J (NewEntry m) = roundtrips (js_entry_header J) m"
| "json_ok J (EntryComplete m) = roundtrips (js_entry_complete J) m"
| "json_ok J (FrameError m) = roundtrips (js_transfer_failure J) m"

section \<open>The frame layout\<close>

lemma max_payload_less: "max_payload k < 2 ^ 32"
  by (simp add: max_payload_def wire_defs)

lemma validate_ok [simp]: "n \<le> max_payload k \<Longrightarrow> validate_payload_limit k n = Inr ()"
  by (simp add: validate_payload_limit_def)

lemma validate_too_large [simp]:
  "max_payload k < n \<Longrightarrow> validate_payload_limit k n = Inl (PayloadTooLarge n)"
  by (simp add: validate_payload_limit_def)

lemma validate_eq_Inr_iff: "validate_payload_limit k n = Inr u \<longleftrightarrow> n \<le> max_payload k"
  by (auto simp: validate_payload_limit_def)

text \<open>
  A frame that passes the limit has a length that fits in 32 bits: the cast
  \<^verbatim>\<open>payload.len() as u32\<close> never truncates.
\<close>

lemma unat_payload_len: "length p \<le> max_payload k \<Longrightarrow> unat (of_nat (length p) :: u32) = length p"
  using max_payload_less [of k] by (simp add: unat_of_nat take_bit_nat_eq_self)

lemma write_frame_eq_Inr_iff:
  "write_frame k p = Inr bs \<longleftrightarrow>
     length p \<le> max_payload k \<and> bs = MAGIC @ [VERSION, k] @ u32_to_be (of_nat (length p)) @ p"
  by (auto simp: write_frame_def and_then_eq_Inr_iff validate_eq_Inr_iff)

lemma length_MAGIC [simp]: "length MAGIC = 4"
  by (simp add: wire_defs)

lemma read_frame_write_frame:
  assumes "write_frame k p = Inr bs" and "known_kind k"
  shows "read_frame (bs @ s) = Inr ((k, p), s)"
proof -
  from assms(1) have len: "length p \<le> max_payload k"
    and bs: "bs = MAGIC @ [VERSION, k] @ u32_to_be (of_nat (length p)) @ p"
    by (simp_all add: write_frame_eq_Inr_iff)
  note n = unat_payload_len [OF len]
  from assms(2) len show ?thesis by (simp add: bs read_frame_def n)
qed

lemma read_frame_sound:
  assumes "read_frame s = Inr ((k, p), s')"
  shows "known_kind k \<and> (\<exists>bs. write_frame k p = Inr bs \<and> s = bs @ s')"
proof -
  from assms obtain s1 s2 s3 s4 w where
      "read_exact 4 s = Inr (MAGIC, s1)" "read_u8 s1 = Inr (VERSION, s2)"
      "read_u8 s2 = Inr (k, s3)" "known_kind k" "read_u32 s3 = Inr (w, s4)"
      "validate_payload_limit k (unat w) = Inr ()" "read_exact (unat w) s4 = Inr (p, s')"
    unfolding read_frame_def by (auto simp: and_then_eq_Inr_iff split: if_splits)
  then have "known_kind k" and len: "unat w \<le> max_payload k" "length p = unat w"
    and s: "s = MAGIC @ VERSION # k # u32_to_be w @ p @ s'"
    by (simp_all add: reader_Inr_iffs validate_eq_Inr_iff)
  have w: "w = of_nat (length p)" using len(2) by simp
  have "length p \<le> max_payload k" using len by simp
  then have "write_frame k p = Inr (MAGIC @ [VERSION, k] @ u32_to_be (of_nat (length p)) @ p)"
    by (simp add: write_frame_eq_Inr_iff)
  with \<open>known_kind k\<close> s show ?thesis unfolding w by simp
qed

interpretation transfer: frame_codec write_frame read_frame known_kind
  by unfold_locales
    (rule read_frame_write_frame read_frame_sound; assumption | simp add: write_frame_eq_Inr_iff)+

text \<open>The buffered reader is the plain reader, whatever the buffer held before.\<close>

lemma length_vec_resize [simp]: "length (vec_resize buf n) = n"
  by (simp add: vec_resize_def)

lemma read_frame_into_eq: "read_frame_into buf s = read_frame s"
  unfolding read_frame_into_def read_frame_def Let_def length_vec_resize ..

section \<open>Messages\<close>

lemma known_kinds [simp]:
  "known_kind KIND_PUT_REQUEST" "known_kind KIND_PUT_READY" "known_kind KIND_PUT_CHUNK"
  "known_kind KIND_PUT_COMPLETE" "known_kind KIND_GET_REQUEST" "known_kind KIND_GET_READY"
  "known_kind KIND_GET_CHUNK" "known_kind KIND_GET_COMPLETE" "known_kind KIND_ERROR"
  "known_kind KIND_CWD_REQUEST" "known_kind KIND_CWD_RESPONSE" "known_kind KIND_EXISTS_REQUEST"
  "known_kind KIND_EXISTS_RESPONSE" "known_kind KIND_NEW_ENTRY" "known_kind KIND_ENTRY_COMPLETE"
  "known_kind KIND_COMPLETION_REQUEST" "known_kind KIND_COMPLETION_RESPONSE"
  "known_kind KIND_BLOB_PUT_REQUEST" "known_kind KIND_BLOB_GET_REQUEST" "known_kind KIND_BLOB_GET_READY"
  by (simp_all add: known_kind_def)

text \<open>The kind byte of each frame, and the frame as a raw pair of a kind and a payload.\<close>

fun frame_kind :: "transfer_frame \<Rightarrow> u8" where
  "frame_kind (PutRequest m) = KIND_PUT_REQUEST"
| "frame_kind (PutReady m) = KIND_PUT_READY"
| "frame_kind (PutChunk b) = KIND_PUT_CHUNK"
| "frame_kind (PutComplete m) = KIND_PUT_COMPLETE"
| "frame_kind (GetRequest m) = KIND_GET_REQUEST"
| "frame_kind (GetReady m) = KIND_GET_READY"
| "frame_kind (GetChunk b) = KIND_GET_CHUNK"
| "frame_kind (GetComplete m) = KIND_GET_COMPLETE"
| "frame_kind (CwdRequest m) = KIND_CWD_REQUEST"
| "frame_kind (CwdResponse m) = KIND_CWD_RESPONSE"
| "frame_kind (ExistsRequest m) = KIND_EXISTS_REQUEST"
| "frame_kind (ExistsResponse m) = KIND_EXISTS_RESPONSE"
| "frame_kind (CompletionRequest m) = KIND_COMPLETION_REQUEST"
| "frame_kind (CompletionResponse m) = KIND_COMPLETION_RESPONSE"
| "frame_kind (BlobPutRequest m) = KIND_BLOB_PUT_REQUEST"
| "frame_kind (BlobGetRequest m) = KIND_BLOB_GET_REQUEST"
| "frame_kind (BlobGetReady m) = KIND_BLOB_GET_READY"
| "frame_kind (NewEntry m) = KIND_NEW_ENTRY"
| "frame_kind (EntryComplete m) = KIND_ENTRY_COMPLETE"
| "frame_kind (FrameError m) = KIND_ERROR"

lemma known_frame_kind [simp]: "known_kind (frame_kind f)"
  by (cases f) simp_all

lemmas writer_defs = write_put_request_def write_put_ready_def write_put_chunk_def
  write_put_complete_def write_get_request_def write_get_ready_def write_get_chunk_def
  write_get_complete_def write_transfer_error_def write_cwd_request_def write_cwd_response_def
  write_exists_request_def write_exists_response_def write_new_entry_def write_entry_complete_def
  write_completion_request_def write_completion_response_def write_blob_put_request_def
  write_blob_get_request_def write_blob_get_ready_def

lemmas reader_defs = read_put_request_def read_put_ready_def read_put_chunk_def
  read_put_complete_def read_get_request_def read_get_ready_def read_get_chunk_def
  read_get_complete_def read_transfer_error_def read_exists_request_def read_exists_response_def

lemma write_json_frame_eq_Inr_iff:
  "write_json_frame c k v = Inr bs \<longleftrightarrow> (\<exists>p. ser c v = Inr p \<and> write_frame k p = Inr bs)"
  by (auto simp: write_json_frame_def and_then_eq_Inr_iff)

lemma decode_as_roundtrip:
  "ser c v = Inr p \<Longrightarrow> roundtrips c v \<Longrightarrow> decode_as mk c p = Inr (mk v)"
  by (simp add: roundtrips_def decode_as_def)

text \<open>What a payload of the given kind decodes to, chunks included.\<close>

definition decode_payload :: "serde_json \<Rightarrow> u8 \<Rightarrow> bytes \<Rightarrow> transfer_error + transfer_frame" where
  "decode_payload J k p =
     (if k = KIND_PUT_CHUNK then Inr (PutChunk p)
      else if k = KIND_GET_CHUNK then Inr (GetChunk p)
      else decode_frame J k p)"

lemma read_next_frame_into_own:
  "and_then (read_next_frame_into J buf s) (\<lambda>(b, s'). Inr (own_frame b, s')) =
   and_then (read_frame s) (\<lambda>((k, p), s'). and_then (decode_payload J k p) (\<lambda>f. Inr (f, s')))"
  unfolding read_next_frame_into_def read_frame_into_eq
  by (auto simp: decode_payload_def and_then_def split: sum.splits)

lemma read_next_frame_eq:
  "read_next_frame J s =
   and_then (read_frame s) (\<lambda>((k, p), s'). and_then (decode_payload J k p) (\<lambda>f. Inr (f, s')))"
  unfolding read_next_frame_def by (rule read_next_frame_into_own)

lemma encode_frame_raw:
  assumes "encode_frame J f = Inr bs" and "json_ok J f"
  shows "\<exists>p. write_frame (frame_kind f) p = Inr bs \<and> decode_payload J (frame_kind f) p = Inr f"
  using assms
  by (cases f)
    (auto simp: writer_defs write_json_frame_eq_Inr_iff decode_payload_def decode_frame_def
      decode_as_roundtrip wire_defs)

lemma read_next_frame_encode:
  assumes "encode_frame J f = Inr bs" and "json_ok J f"
  shows "read_next_frame J (bs @ s) = Inr (f, s)"
proof -
  obtain p where "write_frame (frame_kind f) p = Inr bs"
    and "decode_payload J (frame_kind f) p = Inr f"
    using encode_frame_raw [OF assms] by blast
  then show ?thesis by (simp add: read_next_frame_eq transfer.rd_wr)
qed

section \<open>A reference reader by position\<close>

text \<open>
  The frame reader as a table over byte positions: byte 0 to 3 the magic, 4 the version, 5 the
  kind, 6 to 9 the length, then the payload; the first test that fails decides the error.
\<close>

definition declared_len :: "bytes \<Rightarrow> nat" where
  "declared_len s = unat (u32_from_be (s ! 6) (s ! 7) (s ! 8) (s ! 9))"

definition read_frame_ref :: "bytes \<Rightarrow> transfer_error + ((u8 \<times> bytes) \<times> bytes)" where
  "read_frame_ref s =
    (if length s < 4 then Inl (Io UnexpectedEof)
     else if take 4 s \<noteq> MAGIC then Inl InvalidMagic
     else if length s < 5 then Inl (Io UnexpectedEof)
     else if s ! 4 \<noteq> VERSION then Inl (UnsupportedVersion (s ! 4))
     else if length s < 6 then Inl (Io UnexpectedEof)
     else if \<not> known_kind (s ! 5) then Inl (UnsupportedKind (s ! 5))
     else if length s < 10 then Inl (Io UnexpectedEof)
     else if declared_len s > max_payload (s ! 5) then Inl (PayloadTooLarge (declared_len s))
     else if length s < 10 + declared_len s then Inl (Io UnexpectedEof)
     else Inr ((s ! 5, take (declared_len s) (drop 10 s)), drop (10 + declared_len s) s))"

lemma read_u8_drop:
  "map_err Io (read_u8 (drop n s)) =
     (if length s \<le> n then Inl (Io UnexpectedEof) else Inr (s ! n, drop (Suc n) s))"
  by (auto simp: Cons_nth_drop_Suc [symmetric])

lemma read_u32_drop:
  "map_err Io (read_u32 (drop n s)) =
     (if length s < n + 4 then Inl (Io UnexpectedEof)
      else Inr (u32_from_be (s ! n) (s ! Suc n) (s ! Suc (Suc n)) (s ! Suc (Suc (Suc n))), drop (n + 4) s))"
proof (cases "length s < n + 4")
  case True
  then have "read_u32 (drop n s) = Inl UnexpectedEof" by (simp add: read_u32_eq_Inl_iff)
  with True show ?thesis by simp
next
  case False
  then have "drop n s = s ! n # s ! Suc n # s ! Suc (Suc n) # s ! Suc (Suc (Suc n)) # drop (n + 4) s"
    by (simp add: Cons_nth_drop_Suc eval_nat_numeral)
  with False show ?thesis by simp
qed

lemma read_exact_drop:
  "n \<le> length s \<Longrightarrow> map_err Io (read_exact m (drop n s)) =
     (if length s < n + m then Inl (Io UnexpectedEof)
      else Inr (take m (drop n s), drop (n + m) s))"
  by (auto simp: read_exact_def add.commute)

section \<open>Properties\<close>

text \<open>
   C12. A stream of transfer frames written one after the other by the encoders is read back by
  \<^verbatim>\<open>read_next_frame\<close> as the same sequence of frames, in the same order, and what follows the
  frames on the stream is left unread.
\<close>

theorem transfer_stream_roundtrip:
  assumes "\<And>f. f \<in> set fs \<Longrightarrow> encode_frame J f = Inr (enc f) \<and> json_ok J f"
  shows "read_n (read_next_frame J) (length fs) (concat (map enc fs) @ s) = Inr (fs, s)"
  by (rule read_n_concat) (use assms in \<open>auto intro: read_next_frame_encode\<close>)

definition sample_json :: serde_json where
  "sample_json = \<lparr>
     js_put_request = sample_serde \<lparr>pr_path = ''a'', pr_size = 2, pr_mode = None, pr_recursive = False\<rparr> [1],
     js_get_request = sample_serde \<lparr>gr_path = ''a'', gr_recursive = False\<rparr> [1],
     js_blob_put_request = sample_serde \<lparr>bpr_path = ''a'', bpr_hash = ''h'', bpr_format = ''raw'', bpr_size = 2\<rparr> [1],
     js_blob_get_request = sample_serde \<lparr>bgr_path = ''a''\<rparr> [1],
     js_blob_get_ready = sample_serde \<lparr>bgy_hash = ''h'', bgy_format = ''raw'', bgy_size = 2\<rparr> [1],
     js_transfer_ready = sample_serde \<lparr>tr_size = 2, tr_mode = None\<rparr> [1],
     js_entry_header = sample_serde \<lparr>eh_path = ''a'', eh_size = 2, eh_mode = None, eh_is_dir = False\<rparr> [1],
     js_entry_complete = sample_serde EntryCompleteMsg [1],
     js_transfer_complete = sample_serde \<lparr>tc_size = 2\<rparr> [1, 2],
     js_transfer_failure = sample_serde (failure_new Rejected ''no'') [1],
     js_cwd_request = sample_serde CwdRequestMsg [1],
     js_cwd_response = sample_serde \<lparr>cr_path = ''/''\<rparr> [1],
     js_exists_request = sample_serde \<lparr>er_path = ''a''\<rparr> [1],
     js_exists_response = sample_serde \<lparr>es_exists = True, es_is_dir = False\<rparr> [1],
     js_completion_request = sample_serde \<lparr>cq_path = ''a''\<rparr> [1],
     js_completion_response = sample_serde \<lparr>cp_matches = []\<rparr> [1]\<rparr>"

theorem transfer_stream_roundtrip_witness:
  "read_n (read_next_frame sample_json) 2
     ([73, 82, 70, 84, 2, 3, 0, 0, 0, 2, 7, 8] @ [73, 82, 70, 84, 2, 4, 0, 0, 0, 2, 1, 2] @ [9])
   = Inr ([PutChunk [7, 8], PutComplete \<lparr>tc_size = 2\<rparr>], [9])"
proof -
  let ?fs = "[PutChunk [7, 8], PutComplete \<lparr>tc_size = 2\<rparr>]"
  let ?enc = "\<lambda>f. if f = PutChunk [7, 8] then [73, 82, 70, 84, 2, 3, 0, 0, 0, 2, 7, 8]
    else [73, 82, 70, 84, 2, 4, 0, 0, 0, 2, 1, 2]"
  have chunk: "encode_frame sample_json (PutChunk [7, 8])
      = Inr [73, 82, 70, 84, 2, 3, 0, 0, 0, 2, 7, 8]"
    by (simp add: writer_defs write_frame_def validate_payload_limit_def max_payload_def
        wire_defs u32_to_be_def)
  have complete: "encode_frame sample_json (PutComplete \<lparr>tc_size = 2\<rparr>)
      = Inr [73, 82, 70, 84, 2, 4, 0, 0, 0, 2, 1, 2]"
    by (simp add: sample_json_def sample_serde_def writer_defs write_json_frame_def
        write_frame_def validate_payload_limit_def max_payload_def wire_defs u32_to_be_def)
  have "json_ok sample_json (PutComplete \<lparr>tc_size = 2\<rparr>)"
    by (simp add: sample_json_def sample_serde_def roundtrips_def)
  with chunk complete have
    "read_n (read_next_frame sample_json) (length ?fs) (concat (map ?enc ?fs) @ [9]) = Inr (?fs, [9])"
    by (intro transfer_stream_roundtrip) (auto simp del: encode_frame.simps)
  then show ?thesis by (simp add: numeral_2_eq_2)
qed


text \<open>
  For every input the frame reader computes the position table \<^const>\<open>read_frame_ref\<close>: each
  check is made in the documented order, the first one that fails gives the error, and a declared
  length over the limit is refused from the ten header bytes alone, whatever follows them.
\<close>

theorem read_frame_is_ref: "read_frame s = read_frame_ref s"
proof -
  have first: "map_err Io (read_exact 4 s) =
      (if length s < 4 then Inl (Io UnexpectedEof) else Inr (take 4 s, drop 4 s))"
    using read_exact_drop [of 0 s 4] by simp
  have last: "10 \<le> length s \<Longrightarrow> map_err Io (read_exact m (drop 10 s)) =
      (if length s < 10 + m then Inl (Io UnexpectedEof)
       else Inr (take m (drop 10 s), drop (10 + m) s))" for m
    by (rule read_exact_drop)
  show ?thesis
    unfolding read_frame_def read_frame_ref_def first declared_len_def
    using last by (auto simp: read_u8_drop read_u32_drop validate_payload_limit_def eval_nat_numeral)
qed

text \<open>
   The hot-path reader \<^verbatim>\<open>read_next_frame_into\<close>, which fills a reused buffer, gives the same
  frames and the same errors as \<^verbatim>\<open>read_next_frame\<close>, for every previous contents of the buffer.
\<close>

theorem read_next_frame_into_equiv:
  "and_then (read_next_frame_into J buf s) (\<lambda>(b, s'). Inr (own_frame b, s')) = read_next_frame J s"
  unfolding read_next_frame_into_own read_next_frame_eq ..

text \<open>
  A typed reader returns the message of a frame of its own kind and refuses a well-formed
  frame of any other kind with \<^verbatim>\<open>UnexpectedKind\<close>, naming both kinds, before it parses the payload.
\<close>

theorem typed_reader_kind:
  assumes "write_json_frame c k v = Inr bs" and "known_kind k" and "roundtrips c v" and "k' \<noteq> k"
  shows "read_json_frame c k (bs @ s) = Inr (v, s) \<and>
    read_json_frame d k' (bs @ s) = Inl (UnexpectedKind k' k)"
proof -
  obtain p where "ser c v = Inr p" and "write_frame k p = Inr bs"
    using assms(1) by (auto simp: write_json_frame_eq_Inr_iff)
  with assms(2-4) show ?thesis
    by (simp add: read_json_frame_def transfer.rd_wr roundtrips_def)
qed

theorem typed_reader_kind_witness:
  "read_json_frame (js_transfer_complete sample_json) KIND_PUT_COMPLETE
     [73, 82, 70, 84, 2, 4, 0, 0, 0, 2, 1, 2] = Inr (\<lparr>tc_size = 2\<rparr>, []) \<and>
   read_json_frame (js_transfer_ready sample_json) KIND_PUT_READY
     [73, 82, 70, 84, 2, 4, 0, 0, 0, 2, 1, 2] = Inl (UnexpectedKind KIND_PUT_READY KIND_PUT_COMPLETE)"
proof -
  have w: "write_json_frame (js_transfer_complete sample_json) KIND_PUT_COMPLETE \<lparr>tc_size = 2\<rparr>
      = Inr [73, 82, 70, 84, 2, 4, 0, 0, 0, 2, 1, 2]"
    by (simp add: sample_json_def sample_serde_def write_json_frame_def
        write_frame_def validate_payload_limit_def max_payload_def wire_defs u32_to_be_def)
  have r: "roundtrips (js_transfer_complete sample_json) \<lparr>tc_size = 2\<rparr>"
    by (simp add: roundtrips_def sample_json_def sample_serde_def)
  have ne: "KIND_PUT_READY \<noteq> KIND_PUT_COMPLETE" by (simp add: wire_defs)
  show ?thesis
    using typed_reader_kind [OF w known_kinds(4) r ne, of "[]" "js_transfer_ready sample_json"]
    by simp
qed

end
