(* ===== verification/Metadata_Codec.thy ===== *)
theory Metadata_Codec
  imports Frame_Interface
begin

text \<open>
  The metadata channel of \<^verbatim>\<open>src/transport/metadata\<close>: the frame layout and the four messages of
  \<^verbatim>\<open>codec.rs\<close> and the sanitizing constructor of \<^verbatim>\<open>types.rs\<close>.

  The constructor shortens every field with \<^verbatim>\<open>String::truncate\<close>, which panics when the cut is
  inside a UTF-8 sequence; the model keeps the panic as \<open>None\<close>.
\<close>

record peer_metadata =
  pm_hostname :: string
  pm_user :: string
  pm_os :: string

datatype metadata_error =
    MIo io_error
  | MInvalidMagic
  | MUnsupportedVersion u8
  | MUnsupportedKind u8
  | MUnexpectedKind u8 u8
  | MPayloadTooLarge nat
  | MJson json_error

definition MD_MAGIC :: bytes where [wire_defs]: "MD_MAGIC = [0x49, 0x52, 0x4D, 0x44]"
definition MD_VERSION :: u8 where [wire_defs]: "MD_VERSION = 2"
definition KIND_METADATA_REQUEST :: u8 where [wire_defs]: "KIND_METADATA_REQUEST = 1"
definition KIND_PEER_METADATA :: u8 where [wire_defs]: "KIND_PEER_METADATA = 2"
definition MAX_METADATA_BYTES :: nat where [wire_defs]: "MAX_METADATA_BYTES = 8 * 1024"
definition MAX_FIELD_LEN :: nat where [wire_defs]: "MAX_FIELD_LEN = 255"

definition md_write_frame :: "u8 \<Rightarrow> bytes \<Rightarrow> metadata_error + bytes" where
  "md_write_frame kind payload =
     (if length payload > MAX_METADATA_BYTES then Inl (MPayloadTooLarge (length payload))
      else Inr (MD_MAGIC @ [MD_VERSION] @ [kind] @ u32_to_be (of_nat (length payload)) @ payload))"

definition md_read_frame :: "bytes \<Rightarrow> metadata_error + ((u8 \<times> bytes) \<times> bytes)" where
  "md_read_frame s0 =
     and_then (map_err MIo (read_exact 4 s0)) (\<lambda>(magic, s1).
     if magic \<noteq> MD_MAGIC then Inl MInvalidMagic else
     and_then (map_err MIo (read_u8 s1)) (\<lambda>(version, s2).
     if version \<noteq> MD_VERSION then Inl (MUnsupportedVersion version) else
     and_then (map_err MIo (read_u8 s2)) (\<lambda>(kind, s3).
     if kind \<noteq> KIND_PEER_METADATA \<and> kind \<noteq> KIND_METADATA_REQUEST then Inl (MUnsupportedKind kind) else
     and_then (map_err MIo (read_u32 s3)) (\<lambda>(len, s4).
     if unat len > MAX_METADATA_BYTES then Inl (MPayloadTooLarge (unat len)) else
     and_then (map_err MIo (read_exact (unat len) s4)) (\<lambda>(payload, s5).
     Inr ((kind, payload), s5))))))"

definition write_metadata_request :: "metadata_error + bytes" where
  "write_metadata_request = md_write_frame KIND_METADATA_REQUEST []"

definition read_metadata_request :: "bytes \<Rightarrow> metadata_error + (unit \<times> bytes)" where
  "read_metadata_request s =
     and_then (md_read_frame s) (\<lambda>((kind, payload), s').
     if kind \<noteq> KIND_METADATA_REQUEST then Inl (MUnexpectedKind KIND_METADATA_REQUEST kind)
     else if payload \<noteq> [] then Inl (MPayloadTooLarge (length payload))
     else Inr ((), s'))"

section \<open>Sanitizing peer-supplied fields\<close>

text \<open>\<^verbatim>\<open>str::is_char_boundary\<close>: the byte at the index is not a continuation byte.\<close>

definition is_char_boundary :: "string \<Rightarrow> nat \<Rightarrow> bool" where
  "is_char_boundary s i \<longleftrightarrow>
     i = 0 \<or> (if i < length s then \<not> continuation (s ! i) else i = length s)"

text \<open>
  \<^verbatim>\<open>String::truncate\<close>: no effect when the new length is larger, a panic when it is not on a
  character boundary.
\<close>

definition string_truncate :: "nat \<Rightarrow> string \<Rightarrow> string option" where
  "string_truncate n s =
     (if n \<le> length s then (if is_char_boundary s n then Some (take n s) else None) else Some s)"

text \<open>
  The predicate of \<^verbatim>\<open>retain\<close>, \<^verbatim>\<open>c >= ' ' || c == '\t'\<close>, byte by byte: the bytes of a
  multi-byte character are all at least 0x80, so it keeps or drops whole characters.
\<close>

definition keep_char :: "char \<Rightarrow> bool" where
  "keep_char c \<longleftrightarrow> (of_char c :: nat) \<ge> 0x20 \<or> (of_char c :: nat) = 9"

definition sanitize_field :: "string \<Rightarrow> string option" where
  "sanitize_field s = string_truncate MAX_FIELD_LEN (filter keep_char s)"

definition peer_metadata_new :: "string \<Rightarrow> string \<Rightarrow> string \<Rightarrow> peer_metadata option" where
  "peer_metadata_new hostname user os =
     Option.bind (sanitize_field hostname) (\<lambda>h.
     Option.bind (sanitize_field user) (\<lambda>u.
     Option.bind (sanitize_field os) (\<lambda>o'.
     Some \<lparr>pm_hostname = h, pm_user = u, pm_os = o'\<rparr>)))"

definition write_metadata :: "peer_metadata serde \<Rightarrow> peer_metadata \<Rightarrow> metadata_error + bytes" where
  "write_metadata c m =
     and_then (map_err MJson (ser c m)) (\<lambda>payload. md_write_frame KIND_PEER_METADATA payload)"

text \<open>\<open>None\<close> is the panic of the constructor.\<close>

definition read_metadata ::
    "peer_metadata serde \<Rightarrow> bytes \<Rightarrow> (metadata_error + (peer_metadata \<times> bytes)) option" where
  "read_metadata c s =
     (case md_read_frame s of
        Inl e \<Rightarrow> Some (Inl e)
      | Inr ((kind, payload), s') \<Rightarrow>
          if kind \<noteq> KIND_PEER_METADATA then Some (Inl (MUnexpectedKind KIND_PEER_METADATA kind))
          else (case de c payload of
              Inl e \<Rightarrow> Some (Inl (MJson e))
            | Inr raw \<Rightarrow>
                map_option (\<lambda>m. Inr (m, s'))
                  (peer_metadata_new (pm_hostname raw) (pm_user raw) (pm_os raw))))"

section \<open>Lemmas\<close>

lemma md_payload_len:
  "length p \<le> MAX_METADATA_BYTES \<Longrightarrow> unat (of_nat (length p) :: u32) = length p"
  by (simp add: unat_of_nat take_bit_nat_eq_self wire_defs)

lemma length_MD_MAGIC [simp]: "length MD_MAGIC = 4"
  by (simp add: wire_defs)

lemma md_write_frame_eq_Inr_iff:
  "md_write_frame k p = Inr bs \<longleftrightarrow> length p \<le> MAX_METADATA_BYTES \<and>
     bs = MD_MAGIC @ [MD_VERSION, k] @ u32_to_be (of_nat (length p)) @ p"
  by (auto simp: md_write_frame_def)

lemma md_read_frame_write_frame:
  assumes "md_write_frame k p = Inr bs" and "k = KIND_PEER_METADATA \<or> k = KIND_METADATA_REQUEST"
  shows "md_read_frame (bs @ s) = Inr ((k, p), s)"
proof -
  from assms(1) have len: "length p \<le> MAX_METADATA_BYTES"
    and bs: "bs = MD_MAGIC @ [MD_VERSION, k] @ u32_to_be (of_nat (length p)) @ p"
    by (simp_all add: md_write_frame_eq_Inr_iff)
  from assms(2) len show ?thesis by (auto simp: bs md_read_frame_def md_payload_len)
qed

lemma md_read_frame_sound:
  assumes "md_read_frame s = Inr ((k, p), s')"
  shows "(k = KIND_PEER_METADATA \<or> k = KIND_METADATA_REQUEST) \<and>
    (\<exists>bs. md_write_frame k p = Inr bs \<and> s = bs @ s')"
proof -
  from assms obtain s1 s2 s3 s4 w where
      "read_exact 4 s = Inr (MD_MAGIC, s1)" "read_u8 s1 = Inr (MD_VERSION, s2)"
      "read_u8 s2 = Inr (k, s3)" and k: "k = KIND_PEER_METADATA \<or> k = KIND_METADATA_REQUEST" and
      "read_u32 s3 = Inr (w, s4)" and
      w: "unat w \<le> MAX_METADATA_BYTES" and "read_exact (unat w) s4 = Inr (p, s')"
    unfolding md_read_frame_def by (auto simp: and_then_eq_Inr_iff not_less split: if_splits)
  then have len: "length p = unat w" and s: "s = MD_MAGIC @ MD_VERSION # k # u32_to_be w @ p @ s'"
    by (simp_all add: reader_Inr_iffs)
  have n: "w = of_nat (length p)" using len by simp
  have "length p \<le> MAX_METADATA_BYTES" using len w by simp
  then have "md_write_frame k p = Inr (MD_MAGIC @ [MD_VERSION, k] @ u32_to_be (of_nat (length p)) @ p)"
    by (simp add: md_write_frame_eq_Inr_iff)
  with k s show ?thesis unfolding n by simp
qed

interpretation metadata: frame_codec md_write_frame md_read_frame
    "\<lambda>k. k = KIND_PEER_METADATA \<or> k = KIND_METADATA_REQUEST"
  by unfold_locales
    (rule md_read_frame_write_frame md_read_frame_sound; assumption
      | simp add: md_write_frame_eq_Inr_iff)+

lemma string_truncate_eq_Some_iff:
  "string_truncate n s = Some t \<longleftrightarrow>
     t = take n s \<and> (n \<le> length s \<longrightarrow> is_char_boundary s n)"
  by (auto simp: string_truncate_def)

lemma sanitize_field_SomeD:
  assumes "sanitize_field s = Some t"
  shows "length t \<le> MAX_FIELD_LEN" and "\<forall>c \<in> set t. keep_char c"
  using assms set_take_subset [of MAX_FIELD_LEN "filter keep_char s"]
  by (auto simp: sanitize_field_def string_truncate_eq_Some_iff)

lemma is_char_boundary_length [simp]: "is_char_boundary s (length s)"
  by (simp add: is_char_boundary_def)

lemma sanitize_field_fixed:
  assumes "length t \<le> MAX_FIELD_LEN" and "\<forall>c \<in> set t. keep_char c"
  shows "sanitize_field t = Some t"
proof -
  have "filter keep_char t = t" using assms(2) by (simp add: filter_id_conv)
  then show ?thesis using assms(1)
    by (auto simp: sanitize_field_def string_truncate_eq_Some_iff is_char_boundary_def)
qed

lemma peer_metadata_new_SomeD:
  assumes "peer_metadata_new h u os = Some m"
  shows "sanitize_field h = Some (pm_hostname m)" "sanitize_field u = Some (pm_user m)"
    "sanitize_field os = Some (pm_os m)"
  using assms by (auto simp: peer_metadata_new_def bind_eq_Some_conv)

section \<open>Properties\<close>

text \<open>
  Metadata a peer writes is read back as the sanitized metadata: every field of the result is
  at most 255 bytes long and has no control byte below 0x20 other than the tab, whatever the peer
  sent; and metadata that is already clean arrives unchanged.
\<close>

theorem metadata_roundtrip_sanitized:
  assumes "write_metadata c raw = Inr bs" and "roundtrips c raw"
    and "peer_metadata_new (pm_hostname raw) (pm_user raw) (pm_os raw) = Some m"
  shows "read_metadata c (bs @ s) = Some (Inr (m, s)) \<and>
    (\<forall>f \<in> {pm_hostname m, pm_user m, pm_os m}. length f \<le> 255 \<and> (\<forall>c \<in> set f. keep_char c)) \<and>
    peer_metadata_new (pm_hostname m) (pm_user m) (pm_os m) = Some m"
proof -
  obtain p where p: "ser c raw = Inr p" "md_write_frame KIND_PEER_METADATA p = Inr bs"
    using assms(1) by (auto simp: write_metadata_def and_then_eq_Inr_iff)
  have rd: "md_read_frame (bs @ s) = Inr ((KIND_PEER_METADATA, p), s)"
    by (rule metadata.rd_wr [OF p(2)]) simp
  have "de c p = Inr raw" using assms(2) p(1) by (rule roundtrips_de)
  with rd assms(3) have "read_metadata c (bs @ s) = Some (Inr (m, s))"
    by (simp add: read_metadata_def)
  moreover note fs = peer_metadata_new_SomeD [OF assms(3)]
  note clean = fs [THEN sanitize_field_SomeD(1)] fs [THEN sanitize_field_SomeD(2)]
  from clean have "\<forall>f \<in> {pm_hostname m, pm_user m, pm_os m}. length f \<le> 255 \<and> (\<forall>c \<in> set f. keep_char c)"
    by (simp add: wire_defs)
  moreover from clean have "peer_metadata_new (pm_hostname m) (pm_user m) (pm_os m) = Some m"
    by (simp add: peer_metadata_new_def sanitize_field_fixed)
  ultimately show ?thesis by simp
qed

definition sample_metadata :: peer_metadata where
  "sample_metadata = \<lparr>pm_hostname = ''ho'' @ [CHR 0x07] @ ''st'', pm_user = ''me'', pm_os = ''linux''\<rparr>"

theorem metadata_roundtrip_sanitized_witness:
  "\<exists>bs. write_metadata (sample_serde sample_metadata [1, 2]) sample_metadata = Inr bs \<and>
     read_metadata (sample_serde sample_metadata [1, 2]) (bs @ [5]) =
       Some (Inr (\<lparr>pm_hostname = ''host'', pm_user = ''me'', pm_os = ''linux''\<rparr>, [5]))"
proof -
  let ?m = "\<lparr>pm_hostname = ''host'', pm_user = ''me'', pm_os = ''linux''\<rparr>"
  have w: "write_metadata (sample_serde sample_metadata [1, 2]) sample_metadata =
      Inr (MD_MAGIC @ [MD_VERSION, KIND_PEER_METADATA, 0, 0, 0, 2, 1, 2])"
    by (simp add: write_metadata_def sample_serde_def md_write_frame_def wire_defs u32_to_be_def)
  have "peer_metadata_new (pm_hostname sample_metadata) (pm_user sample_metadata)
      (pm_os sample_metadata) = Some ?m"
    by (simp add: sample_metadata_def peer_metadata_new_def sanitize_field_def string_truncate_def
        keep_char_def wire_defs)
  from metadata_roundtrip_sanitized [OF w roundtrips_sample this, of "[5]"] w
  show ?thesis by simp
qed

text \<open>
  The constructor panics exactly when the control-free field is longer than 255 bytes and its
  byte 255 continues a multi-byte character.
\<close>

theorem sanitize_field_panics_iff:
  "sanitize_field s = None \<longleftrightarrow>
     (let t = filter keep_char s in length t > 255 \<and> continuation (t ! 255))"
  by (auto simp: sanitize_field_def string_truncate_def is_char_boundary_def Let_def wire_defs)

text \<open>
   A peer can make the reader of its metadata panic: the host name of 254 letters followed by
  one two-byte character is well-formed UTF-8, survives the filter, and is cut in the middle.
\<close>

definition panic_hostname :: string where
  "panic_hostname = replicate 254 (CHR ''a'') @ [CHR 0xC3, CHR 0xA9]"

theorem read_metadata_can_panic:
  assumes "pm_hostname raw = panic_hostname" and "de c p = Inr raw"
    and "md_write_frame KIND_PEER_METADATA p = Inr bs"
  shows "utf8_valid panic_hostname \<and> read_metadata c (bs @ s) = None"
proof
  show "utf8_valid panic_hostname"
    unfolding panic_hostname_def by (subst utf8_valid_ascii) (simp_all add: continuation_def)
  have "filter keep_char panic_hostname = panic_hostname"
    by (simp add: filter_id_conv keep_char_def panic_hostname_def)
  then have "string_truncate MAX_FIELD_LEN (filter keep_char panic_hostname) = None"
    by (simp add: string_truncate_def is_char_boundary_def wire_defs panic_hostname_def nth_append
        continuation_def)
  then have "peer_metadata_new (pm_hostname raw) (pm_user raw) (pm_os raw) = None"
    using assms(1) by (simp add: peer_metadata_new_def sanitize_field_def)
  moreover have "md_read_frame (bs @ s) = Inr ((KIND_PEER_METADATA, p), s)"
    by (rule md_read_frame_write_frame [OF assms(3)]) simp
  ultimately show "read_metadata c (bs @ s) = None"
    using assms(2) by (simp add: read_metadata_def)
qed

theorem read_metadata_can_panic_witness:
  "read_metadata (sample_serde \<lparr>pm_hostname = panic_hostname, pm_user = [], pm_os = []\<rparr> [1])
     (MD_MAGIC @ [MD_VERSION, KIND_PEER_METADATA, 0, 0, 0, 1, 1]) = None"
proof -
  let ?raw = "\<lparr>pm_hostname = panic_hostname, pm_user = [], pm_os = []\<rparr>"
  have "md_write_frame KIND_PEER_METADATA [1] =
      Inr (MD_MAGIC @ [MD_VERSION, KIND_PEER_METADATA, 0, 0, 0, 1, 1])"
    by (simp add: md_write_frame_def wire_defs u32_to_be_def)
  from read_metadata_can_panic [OF _ _ this, of ?raw "sample_serde ?raw [1]" "[]"]
  show ?thesis by (simp add: sample_serde_def)
qed

end
