(* ===== verification/Std_Path.thy ===== *)
theory Std_Path
  imports Irosh_Prelude
begin

text \<open>
  \<^verbatim>\<open>std::path\<close> on Unix, as far as the sources use it.  A \<^verbatim>\<open>Path\<close> is its list of components:
  Rust compares, joins and takes parents of paths by components, so two spellings of one path
  (doubled separators, inner dots) are one value here.
\<close>

datatype component = RootDir | CurDir | ParentDir | Normal string

type_synonym path = "component list"

abbreviation is_sep :: "char \<Rightarrow> bool" where
  "is_sep c \<equiv> c = CHR ''/''"

definition component_of :: "string \<Rightarrow> component option" where
  "component_of f =
     (if f = [] \<or> f = ''.'' then None else if f = ''..'' then Some ParentDir else Some (Normal f))"

text \<open>\<^verbatim>\<open>Path::new\<close> followed by \<^verbatim>\<open>components\<close>.\<close>

definition components :: "string \<Rightarrow> path" where
  "components s =
     (let fs = split_on is_sep s in
      (if s \<noteq> [] \<and> hd s = CHR ''/'' then [RootDir] else if hd fs = ''.'' then [CurDir] else [])
      @ List.map_filter component_of fs)"

definition has_root :: "string \<Rightarrow> bool" where
  "has_root s \<longleftrightarrow> s \<noteq> [] \<and> hd s = CHR ''/''"

definition path_join :: "path \<Rightarrow> path \<Rightarrow> path" where
  "path_join a b =
     (if b \<noteq> [] \<and> hd b = RootDir then b
      else if a = [] then b
      else a @ dropWhile ((=) CurDir) b)"

definition path_parent :: "path \<Rightarrow> path option" where
  "path_parent p = (if p = [] \<or> last p = RootDir then None else Some (butlast p))"

definition path_file_name :: "path \<Rightarrow> string option" where
  "path_file_name p =
     (if p = [] then None else case last p of Normal n \<Rightarrow> Some n | _ \<Rightarrow> None)"

text \<open>\<^verbatim>\<open>with_file_name\<close> and \<^verbatim>\<open>set_file_name\<close> with a one-component name.\<close>

definition path_with_file_name :: "path \<Rightarrow> string \<Rightarrow> path" where
  "path_with_file_name p n =
     (case path_file_name p of
        Some _ \<Rightarrow> path_join (butlast p) (components n)
      | None \<Rightarrow> path_join p (components n))"

text \<open>\<^verbatim>\<open>file_stem\<close> and \<^verbatim>\<open>extension\<close> of a file name: cut at the last dot, unless that is its first character.\<close>

definition rsplit_file_at_dot :: "string \<Rightarrow> string option \<times> string option" where
  "rsplit_file_at_dot f =
     (let after = rev (takeWhile (\<lambda>c. c \<noteq> CHR ''.'') (rev f));
          rest = dropWhile (\<lambda>c. c \<noteq> CHR ''.'') (rev f)
      in if f = ''..'' then (Some f, None)
         else if rest = [] then (None, Some after)
         else if tl rest = [] then (Some f, None)
         else (Some (rev (tl rest)), Some after))"

definition name_stem :: "string \<Rightarrow> string" where
  "name_stem f = (case rsplit_file_at_dot f of (Some b, _) \<Rightarrow> b | (None, Some a) \<Rightarrow> a | (None, None) \<Rightarrow> f)"

definition name_extension :: "string \<Rightarrow> string option" where
  "name_extension f = (case rsplit_file_at_dot f of (Some b, a) \<Rightarrow> a | (None, _) \<Rightarrow> None)"

fun component_str :: "component \<Rightarrow> string" where
  "component_str RootDir = []"
| "component_str CurDir = ''.''"
| "component_str ParentDir = ''..''"
| "component_str (Normal f) = f"

text \<open>\<^verbatim>\<open>Path::display\<close>.\<close>

definition path_display :: "path \<Rightarrow> string" where
  "path_display p =
     (if p = [RootDir] then ''/'' else join_with ''/'' (map component_str p))"

text \<open>A name that is one ordinary component.\<close>

definition proper_name :: "string \<Rightarrow> bool" where
  "proper_name f \<longleftrightarrow> f \<noteq> [] \<and> f \<noteq> ''.'' \<and> f \<noteq> ''..'' \<and> CHR ''/'' \<notin> set f"

lemma map_filter_Cons:
  "List.map_filter f (x # xs) = (case f x of None \<Rightarrow> [] | Some y \<Rightarrow> [y]) @ List.map_filter f xs"
  by (cases "f x") (simp_all add: List.map_filter_simps)

lemma map_filter_append: "List.map_filter f (xs @ ys) = List.map_filter f xs @ List.map_filter f ys"
  by (induction xs) (simp_all add: map_filter_Cons split: option.splits)

lemma set_map_filter: "set (List.map_filter f xs) = {y. \<exists>x \<in> set xs. f x = Some y}"
  by (induction xs) (auto simp: map_filter_Cons split: option.splits)

lemma component_of_proper: "proper_name f \<Longrightarrow> component_of f = Some (Normal f)"
  by (auto simp: component_of_def proper_name_def)

lemma component_of_SomeD:
  "component_of f = Some c \<Longrightarrow> (c = ParentDir \<and> f = ''..'') \<or> (c = Normal f \<and> f \<notin> {[], ''.'', ''..''})"
  by (auto simp: component_of_def split: if_splits)

lemma split_on_Cons_sep: "split_on is_sep s = fs \<Longrightarrow> f \<in> set fs \<Longrightarrow> CHR ''/'' \<notin> set f"
  using split_on_no_sep [of f is_sep s "CHR ''/''"] by auto

lemma components_cases:
  assumes "c \<in> set (components s)"
  shows "c = RootDir \<and> has_root s \<or> c = CurDir \<or> c = ParentDir \<and> ''..'' \<in> set (split_on is_sep s)
    \<or> (\<exists>f. c = Normal f \<and> proper_name f \<and> f \<in> set (split_on is_sep s))"
proof -
  consider "c = RootDir" "has_root s" | "c = CurDir"
    | f where "f \<in> set (split_on is_sep s)" "component_of f = Some c"
    using assms by (auto simp: components_def has_root_def Let_def set_map_filter split: if_splits)
  then show ?thesis
  proof cases
    case (3 f)
    then have "CHR ''/'' \<notin> set f" using split_on_Cons_sep by blast
    with 3 show ?thesis by (auto dest!: component_of_SomeD simp: proper_name_def)
  qed simp_all
qed

lemma components_Normal_proper: "Normal f \<in> set (components s) \<Longrightarrow> proper_name f"
  by (drule components_cases) auto

lemma components_proper:
  assumes "proper_name f"
  shows "components f = [Normal f]"
proof -
  have "split_on is_sep f = [f]" using assms by (intro split_on_single) (auto simp: proper_name_def)
  moreover have "hd f \<in> set f" using assms by (simp add: proper_name_def)
  then have "hd f \<noteq> CHR ''/''" using assms by (metis proper_name_def)
  ultimately show ?thesis
    using assms by (simp add: components_def proper_name_def component_of_def map_filter_Cons
        List.map_filter_simps)
qed

lemma has_root_components: "has_root s \<longleftrightarrow> components s \<noteq> [] \<and> hd (components s) = RootDir"
proof
  assume *: "components s \<noteq> [] \<and> hd (components s) = RootDir"
  then have "RootDir \<in> set (components s)" using list.set_sel(1) by metis
  then show "has_root s" by (auto dest: components_cases)
qed (simp add: components_def has_root_def Let_def)

text \<open>A list of proper names written with slashes is read back as that list.\<close>

lemma map_filter_proper:
  "(\<And>f. f \<in> set fs \<Longrightarrow> proper_name f) \<Longrightarrow> List.map_filter component_of fs = map Normal fs"
  by (induction fs) (simp_all add: map_filter_Cons List.map_filter_simps component_of_proper)

lemma components_join:
  assumes "fs \<noteq> []" and "\<And>f. f \<in> set fs \<Longrightarrow> proper_name f"
  shows "components (join_with ''/'' fs) = map Normal fs"
proof -
  have sp: "split_on is_sep (join_with ''/'' fs) = fs"
    using assms by (intro split_join) (auto simp: proper_name_def)
  obtain f gs where fs: "fs = f # gs" using assms(1) by (cases fs) auto
  then have f: "proper_name f" using assms(2) by simp
  have "\<not> has_root (join_with ''/'' fs)"
  proof (cases gs)
    case Nil
    with f fs show ?thesis by (cases f) (auto simp: has_root_def proper_name_def)
  next
    case (Cons g hs)
    with f fs show ?thesis by (cases f) (auto simp: has_root_def proper_name_def)
  qed
  moreover have "hd fs \<noteq> ''.''" using f fs by (simp add: proper_name_def)
  ultimately show ?thesis
    using map_filter_proper [OF assms(2)] sp by (auto simp: components_def has_root_def Let_def)
qed

lemma path_join_relative:
  "a \<noteq> [] \<Longrightarrow> \<not> (b \<noteq> [] \<and> hd b = RootDir) \<Longrightarrow> path_join a b = a @ dropWhile ((=) CurDir) b"
  by (auto simp: path_join_def)

lemma rsplit_dotted:
  assumes "b \<noteq> []" and "e \<noteq> []" and "CHR ''.'' \<notin> set e"
  shows "rsplit_file_at_dot (b @ CHR ''.'' # e) = (Some b, Some e)"
proof -
  have "takeWhile (\<lambda>c. c \<noteq> CHR ''.'') (rev e @ CHR ''.'' # rev b) = rev e"
    "dropWhile (\<lambda>c. c \<noteq> CHR ''.'') (rev e @ CHR ''.'' # rev b) = CHR ''.'' # rev b"
    using assms(3) by (auto simp: takeWhile_append dropWhile_append takeWhile_eq_all_conv)
  moreover have "b @ CHR ''.'' # e \<noteq> ''..''"
    using assms by (cases b; cases "tl b") auto
  ultimately show ?thesis using assms(1) by (simp add: rsplit_file_at_dot_def Let_def)
qed

end
