(* ===== verification/Remote_Path.thy ===== *)
theory Remote_Path
  imports Std_Path Transfer_Codec
begin

text \<open>
  The two sanitizers for paths that come over the network: \<^verbatim>\<open>sanitize_remote_path\<close> of
  \<^verbatim>\<open>src/transport/transfer/helpers.rs\<close> (the client's guard on downloaded entries) and
  \<^verbatim>\<open>sanitize_relative_path\<close> of \<^verbatim>\<open>src/server/transfer/state.rs\<close> (the server's guard on uploaded
  entries), both as they are compiled on Unix.
\<close>

section \<open>The client's sanitizer\<close>

text \<open>The loop over the components; the accumulator is the \<^verbatim>\<open>PathBuf\<close> built so far.\<close>

fun sanitize_components :: "string \<Rightarrow> path \<Rightarrow> path \<Rightarrow> transfer_error + path" where
  "sanitize_components raw [] sanitized = Inr sanitized"
| "sanitize_components raw (Normal c # cs) sanitized =
     sanitize_components raw cs (path_join sanitized [Normal c])"
| "sanitize_components raw (CurDir # cs) sanitized = sanitize_components raw cs sanitized"
| "sanitize_components raw (ParentDir # cs) sanitized =
     (case path_parent sanitized of
        None \<Rightarrow> Inl (InvalidPath (''path traversal attempt detected: '' @ raw))
      | Some p \<Rightarrow> sanitize_components raw cs p)"
| "sanitize_components raw (RootDir # cs) sanitized =
     Inl (InvalidPath (''root or prefix components not allowed: '' @ raw))"

definition sanitize_remote_path :: "string \<Rightarrow> transfer_error + path" where
  "sanitize_remote_path raw =
     (if CHR 0x00 \<in> set raw then Inl (InvalidPath ''path contains null byte'')
      else if has_root raw then Inl (InvalidPath (''absolute path not allowed: '' @ raw))
      else and_then (sanitize_components raw (components raw) []) (\<lambda>sanitized.
        if sanitized = [] then Inl (InvalidPath ''sanitized path is empty'') else Inr sanitized))"

text \<open>\<^verbatim>\<open>normalize_path_separators\<close> is the identity on Unix.\<close>

definition normalize_path_separators :: "string \<Rightarrow> string" where
  "normalize_path_separators raw = raw"

section \<open>The server's sanitizer\<close>

definition is_ascii_alphabetic :: "char \<Rightarrow> bool" where
  "is_ascii_alphabetic c \<longleftrightarrow>
     (let n = (of_char c :: nat) in 0x41 \<le> n \<and> n \<le> 0x5A \<or> 0x61 \<le> n \<and> n \<le> 0x7A)"

definition sanitize_relative_path :: "string \<Rightarrow> string + string" where
  "sanitize_relative_path raw =
     (if raw = [] then Inl ''entry path is empty''
      else if has_root raw then Inl ''absolute entry paths are not allowed''
      else if hd raw = CHR ''/'' \<or> hd raw = CHR 0x5C then Inl ''absolute entry paths are not allowed''
      else if length raw \<ge> 2 \<and> raw ! 1 = CHR '':'' \<and> is_ascii_alphabetic (raw ! 0)
        then Inl ''drive-letter entry paths are not allowed''
      else if length raw \<ge> 3 \<and> raw ! 0 = CHR 0x5C \<and> raw ! 1 = CHR 0x5C
        then Inl ''UNC entry paths are not allowed''
      else if list_ex (\<lambda>f. f = ''..'') (split_on (\<lambda>c. c = CHR ''/'' \<or> c = CHR 0x5C) raw)
        then Inl ''path traversal detected in entry path''
      else Inr raw)"

section \<open>Lemmas\<close>

text \<open>
  The reference for the client's sanitizer: a stack of names.  \<open>descend\<close> is undefined as soon as
  a parent step has no name left to cancel.
\<close>

fun descend :: "string list \<Rightarrow> path \<Rightarrow> string list option" where
  "descend st [] = Some st"
| "descend st (Normal c # cs) = descend (st @ [c]) cs"
| "descend st (CurDir # cs) = descend st cs"
| "descend st (ParentDir # cs) = (if st = [] then None else descend (butlast st) cs)"
| "descend st (RootDir # cs) = None"

lemma sanitize_components_descend:
  "case descend st cs of
     None \<Rightarrow> \<exists>e. sanitize_components raw cs (map Normal st) = Inl e
   | Some st' \<Rightarrow> sanitize_components raw cs (map Normal st) = Inr (map Normal st')"
proof (induction st cs rule: descend.induct)
  case (2 st c cs)
  have "path_join (map Normal st) [Normal c] = map Normal (st @ [c])" by (simp add: path_join_def)
  with 2 show ?case by (cases "descend (st @ [c]) cs") simp_all
next
  case (3 st cs)
  then show ?case by (cases "descend st cs") simp_all
next
  case (4 st cs)
  then show ?case
    by (cases "descend (butlast st) cs")
      (simp_all add: path_parent_def last_map map_butlast [symmetric])
qed simp_all

lemma descend_names:
  "descend st cs = Some st' \<Longrightarrow> f \<in> set st' \<Longrightarrow> f \<in> set st \<or> Normal f \<in> set cs"
  by (induction st cs rule: descend.induct) (auto split: if_splits dest: in_set_butlastD)

lemma descend_Normal: "descend st (map Normal fs) = Some (st @ fs)"
  by (induction fs arbitrary: st) simp_all

lemma split_on_chars: "f \<in> set (split_on p s) \<Longrightarrow> c \<in> set f \<Longrightarrow> c \<in> set s"
proof (induction s arbitrary: f)
  case (Cons d s)
  then show ?case by (cases "split_on p s") (fastforce split: if_splits)+
qed simp

lemma components_chars: "Normal f \<in> set (components s) \<Longrightarrow> c \<in> set f \<Longrightarrow> c \<in> set s"
  by (drule components_cases) (auto dest: split_on_chars)

lemma sanitize_remote_path_eq_Inr_iff:
  "sanitize_remote_path raw = Inr p \<longleftrightarrow>
     CHR 0x00 \<notin> set raw \<and> \<not> has_root raw \<and>
     (\<exists>st. descend [] (components raw) = Some st \<and> st \<noteq> [] \<and> p = map Normal st)"
  using sanitize_components_descend [where st = "[]" and cs = "components raw" and raw = raw]
  by (cases "descend [] (components raw)")
    (auto simp: sanitize_remote_path_def and_then_eq_Inr_iff split: if_splits)

text \<open>Splitting at two separators refines splitting at one of them.\<close>

lemma split_on_finer:
  assumes "f \<in> set (split_on p s)" and "\<And>c. c \<in> set f \<Longrightarrow> \<not> q c" and "\<And>c. p c \<Longrightarrow> q c"
  shows "f \<in> set (split_on q s)"
proof -
  have "(\<forall>c \<in> set (hd (split_on p s)). \<not> q c) \<longrightarrow> hd (split_on q s) = hd (split_on p s)"
    and "\<forall>f \<in> set (tl (split_on p s)). (\<forall>c \<in> set f. \<not> q c) \<longrightarrow> f \<in> set (tl (split_on q s))"
  proof (induction s)
    case (Cons d s)
    case 1
    show ?case using Cons(1) assms(3)
      by (cases "split_on p s"; cases "split_on q s") (auto split: if_splits)
    case 2
    show ?case using Cons assms(3)
      by (cases "split_on p s"; cases "split_on q s") (auto split: if_splits)
  qed simp_all
  moreover have "f = hd (split_on p s) \<or> f \<in> set (tl (split_on p s))"
    using assms(1) by (cases "split_on p s") auto
  ultimately show ?thesis
    using assms(2) list.set_sel [of "split_on q s"] split_on_not_Nil by metis
qed

lemma sanitize_relative_path_ok:
  assumes "sanitize_relative_path raw = Inr r"
  shows "r = raw" and "raw \<noteq> []" and "\<not> has_root raw" and "ParentDir \<notin> set (components raw)"
proof -
  from assms show "r = raw" "raw \<noteq> []" "\<not> has_root raw"
    by (auto simp: sanitize_relative_path_def split: if_splits)
  from assms have "''..'' \<notin> set (split_on (\<lambda>c. c = CHR ''/'' \<or> c = CHR 0x5C) raw)"
    by (auto simp: sanitize_relative_path_def list_ex_iff split: if_splits)
  then have "''..'' \<notin> set (split_on is_sep raw)"
    using split_on_finer [of "''..''" is_sep raw "\<lambda>c. c = CHR ''/'' \<or> c = CHR 0x5C"] by auto
  then show "ParentDir \<notin> set (components raw)" by (auto dest: components_cases)
qed

section \<open>Properties\<close>

text \<open>
  C11.  A path the client's sanitizer lets through is a non-empty list of ordinary names: no root,
  no dot, no parent step, no separator and no null byte inside a name.  Joined to a base directory
  it names something strictly below that directory.
\<close>

theorem sanitize_remote_path_confined:
  assumes "sanitize_remote_path raw = Inr p"
  shows "(\<exists>fs. fs \<noteq> [] \<and> p = map Normal fs \<and> (\<forall>f \<in> set fs. proper_name f \<and> CHR 0x00 \<notin> set f)) \<and>
    (\<forall>base. base \<noteq> [] \<longrightarrow> path_join base p = base @ p)"
proof -
  from assms obtain st where st: "descend [] (components raw) = Some st" "st \<noteq> []" "p = map Normal st"
    and nul: "CHR 0x00 \<notin> set raw"
    by (auto simp: sanitize_remote_path_eq_Inr_iff)
  have "proper_name f \<and> CHR 0x00 \<notin> set f" if "f \<in> set st" for f
  proof -
    from descend_names [OF st(1) that] have "Normal f \<in> set (components raw)" by simp
    then show ?thesis using nul components_Normal_proper components_chars by blast
  qed
  moreover have "path_join base p = base @ p" if "base \<noteq> []" for base
    using st(2,3) that by (cases st) (simp_all add: path_join_def)
  ultimately show ?thesis using st by blast
qed

theorem sanitize_remote_path_confined_witness:
  "sanitize_remote_path ''dir/subdir/../file'' = Inr [Normal ''dir'', Normal ''file''] \<and>
   path_join [RootDir, Normal ''base''] [Normal ''dir'', Normal ''file''] =
     [RootDir, Normal ''base'', Normal ''dir'', Normal ''file'']"
proof -
  have h: "sanitize_remote_path ''dir/subdir/../file'' = Inr [Normal ''dir'', Normal ''file'']"
    by code_simp
  from sanitize_remote_path_confined [OF h] h show ?thesis by auto
qed

text \<open>
   The sanitizer computes the lexical meaning of the path and nothing else: it accepts a path
  without null bytes and without a root exactly when walking down its components never goes above
  the start and ends below it, and then returns where the walk ends.  Every other path is an error.
\<close>

theorem sanitize_remote_path_exact:
  "sanitize_remote_path raw = Inr p \<longleftrightarrow>
     CHR 0x00 \<notin> set raw \<and> \<not> has_root raw \<and>
     (\<exists>st. descend [] (components raw) = Some st \<and> st \<noteq> [] \<and> p = map Normal st)"
  by (rule sanitize_remote_path_eq_Inr_iff)

text \<open>
  Sanitizing is idempotent: the written form of an accepted path is accepted again with the
  same result.
\<close>

theorem sanitize_remote_path_idem:
  assumes "sanitize_remote_path raw = Inr p"
  shows "sanitize_remote_path (path_display p) = Inr p"
proof -
  from assms obtain st where st: "descend [] (components raw) = Some st" "st \<noteq> []" "p = map Normal st"
    and nul: "CHR 0x00 \<notin> set raw"
    by (auto simp: sanitize_remote_path_eq_Inr_iff)
  have proper: "proper_name f" and "CHR 0x00 \<notin> set f" if "f \<in> set st" for f
    using descend_names [OF st(1) that] nul components_Normal_proper components_chars by auto
  moreover have disp: "path_display p = join_with ''/'' st"
    using st by (auto simp: path_display_def comp_def)
  ultimately have "CHR 0x00 \<notin> set (join_with ''/'' st)"
    by (auto dest: set_join_with)
  moreover have c: "components (join_with ''/'' st) = map Normal st"
    using st(2) proper by (rule components_join)
  moreover have "\<not> has_root (join_with ''/'' st)"
    using c st(2) by (auto simp: has_root_components hd_map)
  ultimately show ?thesis
    using st(2,3) disp by (simp add: sanitize_remote_path_eq_Inr_iff descend_Normal)
qed

theorem sanitize_remote_path_idem_witness:
  "sanitize_remote_path ''./a//b'' = Inr [Normal ''a'', Normal ''b''] \<and>
   sanitize_remote_path ''a/b'' = Inr [Normal ''a'', Normal ''b'']"
proof -
  have h: "sanitize_remote_path ''./a//b'' = Inr [Normal ''a'', Normal ''b'']" by code_simp
  from sanitize_remote_path_idem [OF h] h show ?thesis by (simp add: path_display_def)
qed

text \<open>
  An entry name the server's sanitizer lets through, joined to the upload's root directory,
  stays inside it: the joined path extends the root by components none of which is a root or a
  parent step, and the name is passed on unchanged.
\<close>

theorem sanitize_relative_path_confined:
  assumes "sanitize_relative_path raw = Inr r" and "root \<noteq> []"
  shows "r = raw \<and> (\<exists>ext. path_join root (components r) = root @ ext \<and>
    RootDir \<notin> set ext \<and> ParentDir \<notin> set ext)"
proof -
  note ok = sanitize_relative_path_ok [OF assms(1)]
  have "RootDir \<notin> set (components raw)" using ok(3) components_cases by blast
  then have "path_join root (components raw) = root @ dropWhile ((=) CurDir) (components raw)"
    using ok(3) assms(2) by (intro path_join_relative) (auto simp: has_root_components)
  moreover have "set (dropWhile ((=) CurDir) (components raw)) \<subseteq> set (components raw)"
    by (auto dest: set_dropWhileD)
  ultimately show ?thesis
    using ok(1,4) \<open>RootDir \<notin> set (components raw)\<close> by auto
qed

theorem sanitize_relative_path_confined_witness:
  "sanitize_relative_path ''sub/./x'' = Inr ''sub/./x'' \<and>
   path_join [RootDir, Normal ''up''] (components ''sub/./x'') =
     [RootDir, Normal ''up'', Normal ''sub'', Normal ''x'']"
proof -
  have h: "sanitize_relative_path ''sub/./x'' = Inr ''sub/./x''" by code_simp
  have "path_join [RootDir, Normal ''up''] (components ''sub/./x'') =
     [RootDir, Normal ''up'', Normal ''sub'', Normal ''x'']" by code_simp
  with sanitize_relative_path_confined [OF h, of "[RootDir, Normal ''up'']"] h show ?thesis by simp
qed

text \<open>
  The server's sanitizer does not look at null bytes: an entry name with a null byte inside
  passes.
\<close>

theorem sanitize_relative_path_keeps_nul:
  "sanitize_relative_path (''a'' @ [CHR 0x00] @ ''b'') = Inr (''a'' @ [CHR 0x00] @ ''b'')"
  by code_simp

end
