(* ===== verification/Storage_FS.thy ===== *)
theory Storage_FS
  imports Std_Path
begin

text \<open>
  The file system as the storage layer sees it, and \<^verbatim>\<open>src/storage/utils.rs\<close> (Unix): the secure
  directory helpers and the atomic write that every persistent record goes through.

  A disk is a list of nodes with their absolute paths.  Every system call can fail for reasons
  of its own: \<open>faults\<close> says which calls do, \<open>partial\<close> how many bytes a failing write leaves.  The
  theorems hold for every such choice.  Paths are plain (no dots, no links): the state directory
  and the names below it.
\<close>

section \<open>The disk\<close>

datatype node = File string u32 | Dir u32

datatype fs_call =
    CallStat path
  | CallCreateDir path
  | CallChmod path
  | CallCreate path
  | CallWrite path
  | CallAppend path nat
  | CallSync path
  | CallRename path path
  | CallRemove path
  | CallRead path
  | CallReadAt path nat
  | CallReadDir path
  | CallDirEntry path

record disk =
  nodes :: "(path \<times> node) list"
  faults :: "fs_call \<Rightarrow> bool"
  partial :: "path \<Rightarrow> nat"
  new_file_mode :: u32
  new_dir_mode :: u32
  rng :: "nat \<Rightarrow> u64"
  draws :: nat

definition lookup :: "disk \<Rightarrow> path \<Rightarrow> node option" where
  "lookup d p = map_of (nodes d) p"

definition put_node :: "path \<Rightarrow> node \<Rightarrow> disk \<Rightarrow> disk" where
  "put_node p n d = d\<lparr>nodes := (p, n) # filter (\<lambda>(q, _). q \<noteq> p) (nodes d)\<rparr>"

definition del_node :: "path \<Rightarrow> disk \<Rightarrow> disk" where
  "del_node p d = d\<lparr>nodes := filter (\<lambda>(q, _). q \<noteq> p) (nodes d)\<rparr>"

fun is_dir_node :: "node option \<Rightarrow> bool" where
  "is_dir_node (Some (Dir m)) = True"
| "is_dir_node _ = False"

fun is_file_node :: "node option \<Rightarrow> bool" where
  "is_file_node (Some (File c m)) = True"
| "is_file_node _ = False"

text \<open>\<^verbatim>\<open>Path::exists\<close>: a failing stat counts as absent.\<close>

definition path_exists :: "disk \<Rightarrow> path \<Rightarrow> bool" where
  "path_exists d p \<longleftrightarrow> lookup d p \<noteq> None \<and> \<not> faults d (CallStat p)"

definition ancestors :: "path \<Rightarrow> path list" where
  "ancestors p = map (\<lambda>n. take n p) [1..<Suc (length p)]"

definition make_dir :: "path \<Rightarrow> disk \<Rightarrow> disk" where
  "make_dir p d = (if lookup d p = None then put_node p (Dir (new_dir_mode d)) d else d)"

text \<open>\<^verbatim>\<open>fs::create_dir_all\<close>; a failing call has made some of the directories.\<close>

definition fs_create_dir_all :: "path \<Rightarrow> (disk, io_error, unit) op" where
  "fs_create_dir_all p d =
     (if faults d (CallCreateDir p) then (Inl IoOther, fold make_dir (take (partial d p) (ancestors p)) d)
      else if list_ex (\<lambda>q. is_file_node (lookup d q)) (ancestors p) then (Inl NotADirectory, d)
      else (Inr (), fold make_dir (ancestors p) d))"

text \<open>\<^verbatim>\<open>fs::metadata\<close> and \<^verbatim>\<open>fs::set_permissions\<close>.\<close>

definition fs_metadata :: "path \<Rightarrow> (disk, io_error, node) op" where
  "fs_metadata p d =
     (if faults d (CallStat p) then (Inl IoOther, d)
      else case lookup d p of None \<Rightarrow> (Inl EntryNotFound, d) | Some n \<Rightarrow> (Inr n, d))"

fun node_mode :: "node \<Rightarrow> u32" where
  "node_mode (File c m) = m"
| "node_mode (Dir m) = m"

fun set_node_mode :: "u32 \<Rightarrow> node \<Rightarrow> node" where
  "set_node_mode m (File c m') = File c m"
| "set_node_mode m (Dir m') = Dir m"

definition fs_set_permissions :: "path \<Rightarrow> u32 \<Rightarrow> (disk, io_error, unit) op" where
  "fs_set_permissions p m d =
     (if faults d (CallChmod p) then (Inl IoOther, d)
      else case lookup d p of
          None \<Rightarrow> (Inl EntryNotFound, d)
        | Some n \<Rightarrow> (Inr (), put_node p (set_node_mode m n) d))"

text \<open>\<^verbatim>\<open>File::create\<close>: the parent has to be a directory; an existing file is truncated.\<close>

definition fs_create :: "path \<Rightarrow> (disk, io_error, unit) op" where
  "fs_create p d =
     (if faults d (CallCreate p) then (Inl IoOther, d)
      else if \<not> is_dir_node (lookup d (butlast p)) then (Inl EntryNotFound, d)
      else case lookup d p of
          Some (Dir m) \<Rightarrow> (Inl IsADirectory, d)
        | Some (File c m) \<Rightarrow> (Inr (), put_node p (File [] m) d)
        | None \<Rightarrow> (Inr (), put_node p (File [] (new_file_mode d)) d))"

text \<open>\<^verbatim>\<open>write_all\<close> on the file just created; a failing write leaves a front of the data.\<close>

definition fs_write :: "path \<Rightarrow> string \<Rightarrow> (disk, io_error, unit) op" where
  "fs_write p data d =
     (case lookup d p of
        Some (File c m) \<Rightarrow>
          if faults d (CallWrite p) then (Inl IoOther, put_node p (File (take (partial d p) data) m) d)
          else (Inr (), put_node p (File data m) d)
      | _ \<Rightarrow> (Inl IoOther, d))"

text \<open>\<^verbatim>\<open>write_all\<close> on an open file: the data goes to its end; the call may fail at any length.\<close>

definition fs_append :: "path \<Rightarrow> string \<Rightarrow> (disk, io_error, unit) op" where
  "fs_append p data d =
     (case lookup d p of
        Some (File c m) \<Rightarrow>
          if faults d (CallAppend p (length c))
          then (Inl IoOther, put_node p (File (c @ take (partial d p) data) m) d)
          else (Inr (), put_node p (File (c @ data) m) d)
      | _ \<Rightarrow> (Inl IoOther, d))"

definition fs_sync :: "path \<Rightarrow> (disk, io_error, unit) op" where
  "fs_sync p d = (if faults d (CallSync p) then (Inl IoOther, d) else (Inr (), d))"

text \<open>\<^verbatim>\<open>fs::rename\<close> of a file: the target is replaced in one step.\<close>

definition fs_rename :: "path \<Rightarrow> path \<Rightarrow> (disk, io_error, unit) op" where
  "fs_rename p q d =
     (if faults d (CallRename p q) then (Inl IoOther, d)
      else case lookup d p of
          Some (File c m) \<Rightarrow>
            if is_dir_node (lookup d q) then (Inl IsADirectory, d)
            else if \<not> is_dir_node (lookup d (butlast q)) then (Inl EntryNotFound, d)
            else (Inr (), put_node q (File c m) (del_node p d))
        | Some (Dir m) \<Rightarrow> (Inl IoOther, d)
        | None \<Rightarrow> (Inl EntryNotFound, d))"

definition fs_remove_file :: "path \<Rightarrow> (disk, io_error, unit) op" where
  "fs_remove_file p d =
     (if faults d (CallRemove p) then (Inl IoOther, d)
      else case lookup d p of
          None \<Rightarrow> (Inl EntryNotFound, d)
        | Some (Dir m) \<Rightarrow> (Inl IsADirectory, d)
        | Some (File c m) \<Rightarrow> (Inr (), del_node p d))"

text \<open>\<^verbatim>\<open>fs::remove_dir_all\<close>: everything at or below a path; a failing call has removed some of it.\<close>

definition below :: "path \<Rightarrow> path \<Rightarrow> bool" where
  "below p q \<longleftrightarrow> take (length p) q = p"

definition fs_remove_dir_all :: "path \<Rightarrow> (disk, io_error, unit) op" where
  "fs_remove_dir_all p d =
     (let victims = filter (below p) (map fst (nodes d)) in
      case lookup d p of
        None \<Rightarrow> (Inl EntryNotFound, d)
      | Some (File c m) \<Rightarrow> (Inl NotADirectory, d)
      | Some (Dir m) \<Rightarrow>
          if faults d (CallRemove p) then (Inl IoOther, fold del_node (take (partial d p) victims) d)
          else (Inr (), fold del_node victims d))"

text \<open>\<^verbatim>\<open>fs::read\<close> and \<^verbatim>\<open>fs::read_to_string\<close>.\<close>

definition fs_read :: "disk \<Rightarrow> path \<Rightarrow> io_error + string" where
  "fs_read d p =
     (if faults d (CallRead p) then Inl IoOther
      else case lookup d p of
          None \<Rightarrow> Inl EntryNotFound
        | Some (Dir m) \<Rightarrow> Inl IsADirectory
        | Some (File c m) \<Rightarrow> Inr c)"

definition fs_read_to_string :: "disk \<Rightarrow> path \<Rightarrow> io_error + string" where
  "fs_read_to_string d p =
     and_then (fs_read d p) (\<lambda>c. if utf8_valid c then Inr c else Inl InvalidData)"

text \<open>\<^verbatim>\<open>fs::read_dir\<close>: the names of the nodes just below a directory, in the order of the disk.\<close>

definition child_names :: "disk \<Rightarrow> path \<Rightarrow> string list" where
  "child_names d p =
     List.map_filter (\<lambda>(q, _).
       if q \<noteq> [] \<and> butlast q = p then (case last q of Normal f \<Rightarrow> Some f | _ \<Rightarrow> None) else None) (nodes d)"

definition fs_read_dir :: "disk \<Rightarrow> path \<Rightarrow> io_error + string list" where
  "fs_read_dir d p =
     (if faults d (CallReadDir p) then Inl IoOther
      else if is_dir_node (lookup d p) then Inr (child_names d p)
      else if lookup d p = None then Inl EntryNotFound else Inl NotADirectory)"

text \<open>The text of bytes and the bytes of a text.\<close>

definition str_of_bytes :: "bytes \<Rightarrow> string" where
  "str_of_bytes bs = map (\<lambda>b. char_of (unat b)) bs"

section \<open>Storage errors\<close>

text \<open>An error of a library, known by its text.\<close>

datatype foreign_error = ForeignError string

datatype storage_error =
    DirectoryCreate path io_error
  | DirectoryRead path io_error
  | DirectoryEntryRead path io_error
  | FileRead path io_error
  | FileWrite path io_error
  | FileDelete path io_error
  | PeerNotFound string
  | TicketParse foreign_error
  | IdentityLoad foreign_error
  | PublicKeyParse foreign_error
  | PublicKeyRead path foreign_error
  | PublicKeyWrite path foreign_error
  | PublicKeyFormat foreign_error
  | BlockingTaskFailed string foreign_error
  | EndpointSecretInvalid path string
  | PeerNameInvalid string
  | PeerProfileSerialize json_error
  | PeerProfileParse json_error
  | PasswordHash foreign_error

section \<open>Secure directories and files\<close>

definition apply_secure_permissions :: "path \<Rightarrow> (disk, storage_error, unit) op" where
  "apply_secure_permissions p =
     bindS (errS (DirectoryRead p) (fs_metadata p)) (\<lambda>n.
       let target_mode = (case n of Dir _ \<Rightarrow> 0x1C0 | File _ _ \<Rightarrow> 0x180) in
       if node_mode n AND 0x1FF \<noteq> target_mode
       then errS (FileWrite p) (fs_set_permissions p target_mode)
       else retS ())"

definition ensure_dir_secure :: "path \<Rightarrow> (disk, storage_error, unit) op" where
  "ensure_dir_secure p d =
     (if path_exists d p then (Inr (), d)
      else bindS (errS (DirectoryCreate p) (fs_create_dir_all p)) (\<lambda>_. apply_secure_permissions p) d)"

definition ensure_dir_secure_tighten :: "path \<Rightarrow> (disk, storage_error, unit) op" where
  "ensure_dir_secure_tighten p =
     bindS (errS (DirectoryCreate p) (fs_create_dir_all p)) (\<lambda>_. apply_secure_permissions p)"

definition hex_digit :: "nat \<Rightarrow> char" where
  "hex_digit n = ''0123456789abcdef'' ! n"

text \<open>The format \<^verbatim>\<open>{:016x}\<close>.\<close>

definition hex16 :: "u64 \<Rightarrow> string" where
  "hex16 w = map (\<lambda>i. hex_digit (unat (take_bit 4 (drop_bit (4 * i) w)))) (rev [0..<16])"

definition tmp_name :: "string \<Rightarrow> u64 \<Rightarrow> string" where
  "tmp_name base_name suffix =
     ''.'' @ dropWhile (\<lambda>c. c = CHR ''.'') base_name @ ''.'' @ hex16 suffix @ ''.tmp''"

definition tmp_path :: "path \<Rightarrow> u64 \<Rightarrow> path" where
  "tmp_path p suffix =
     path_with_file_name p
       (tmp_name (case path_file_name p of Some n \<Rightarrow> n | None \<Rightarrow> ''file'') suffix)"

text \<open>The closure of \<^verbatim>\<open>atomic_write_secure\<close>: everything from the creation to the rename.\<close>

definition write_and_rename :: "path \<Rightarrow> path \<Rightarrow> string \<Rightarrow> (disk, storage_error, unit) op" where
  "write_and_rename tmp p data =
     bindS (errS (FileWrite tmp) (fs_create tmp)) (\<lambda>_.
     bindS (apply_secure_permissions tmp) (\<lambda>_.
     bindS (errS (FileWrite tmp) (fs_write tmp data)) (\<lambda>_.
     bindS (errS (FileWrite tmp) (fs_sync tmp)) (\<lambda>_.
     errS (FileWrite p) (fs_rename tmp p)))))"

definition draw_u64 :: "disk \<Rightarrow> u64 \<times> disk" where
  "draw_u64 d = (rng d (draws d), d\<lparr>draws := Suc (draws d)\<rparr>)"

definition atomic_write_secure :: "path \<Rightarrow> string \<Rightarrow> (disk, storage_error, unit) op" where
  "atomic_write_secure p data d =
     (case path_parent p of
        None \<Rightarrow> (Inl (DirectoryCreate p InvalidInput), d)
      | Some parent \<Rightarrow>
          bindS (ensure_dir_secure parent) (\<lambda>_ d1.
            let (suffix, d2) = draw_u64 d1;
                tmp = tmp_path p suffix;
                (write_result, d3) = write_and_rename tmp p data d2
            in case write_result of
                 Inl e \<Rightarrow> (Inl e, snd (fs_remove_file tmp d3))
               | Inr () \<Rightarrow> (Inr (), d3)) d)"

section \<open>Lemmas on the disk\<close>

lemma as_bytes_str_of_bytes [simp]: "as_bytes (str_of_bytes bs) = bs"
proof (induction bs)
  case (Cons b bs)
  have "unat b < 256" using unsigned_less [of b, where 'a = nat] by simp
  then have "(of_char (char_of (unat b) :: char) :: nat) = unat b" by simp
  then have "(of_nat (of_char (char_of (unat b) :: char)) :: u8) = of_nat (unat b)" by (rule arg_cong)
  then have "(of_char (char_of (unat b) :: char) :: u8) = b" by (simp only: of_nat_of_char) simp
  then show ?case using Cons by (simp add: str_of_bytes_def)
qed (simp add: str_of_bytes_def)

lemma map_of_filter_neq:
  "map_of (filter (\<lambda>(q, _). q \<noteq> p) xs) r = (if r = p then None else map_of xs r)"
  by (induction xs) auto

lemma lookup_put_node [simp]: "lookup (put_node p n d) q = (if q = p then Some n else lookup d q)"
  by (simp add: lookup_def put_node_def map_of_filter_neq)

lemma lookup_del_node [simp]: "lookup (del_node p d) q = (if q = p then None else lookup d q)"
  by (simp add: lookup_def del_node_def map_of_filter_neq)

lemma faults_put_node [simp]:
  "faults (put_node p n d) = faults d" "faults (del_node p d) = faults d"
  by (simp_all add: put_node_def del_node_def)

lemma lookup_draws [simp]: "lookup (d\<lparr>draws := k\<rparr>) p = lookup d p"
  by (simp add: lookup_def)

lemma faults_make_dir [simp]: "faults (make_dir p d) = faults d"
  by (simp add: make_dir_def)

lemma faults_fold_make_dir [simp]: "faults (fold make_dir ps d) = faults d"
  by (induction ps arbitrary: d) simp_all

lemma fold_make_dir_frame:
  "lookup d q \<noteq> None \<or> q \<notin> set ps \<Longrightarrow> lookup (fold make_dir ps d) q = lookup d q"
proof (induction ps arbitrary: d)
  case (Cons p ps)
  have "lookup (make_dir p d) q = lookup d q" using Cons.prems by (auto simp: make_dir_def)
  then show ?case using Cons by auto
qed simp

lemma fold_make_dir_take: "q \<notin> set ps \<Longrightarrow> lookup (fold make_dir (take k ps) d) q = lookup d q"
  using fold_make_dir_frame [of d q "take k ps"] in_set_takeD [of q k ps] by blast

lemma fold_make_dir_dir:
  "q \<in> set ps \<Longrightarrow> lookup d q = None \<Longrightarrow> is_dir_node (lookup (fold make_dir ps d) q)"
proof (induction ps arbitrary: d)
  case (Cons p ps)
  show ?case
  proof (cases "q = p")
    case True
    then have "lookup (make_dir p d) q = Some (Dir (new_dir_mode d))"
      using Cons.prems by (simp add: make_dir_def)
    then show ?thesis by (simp add: fold_make_dir_frame)
  next
    case False
    then show ?thesis using Cons by (simp add: make_dir_def)
  qed
qed simp

lemma ancestors_iff: "q \<in> set (ancestors p) \<longleftrightarrow> q \<noteq> [] \<and> (\<exists>r. p = q @ r)"
proof
  assume "q \<in> set (ancestors p)"
  then obtain n where "q = take n p" "1 \<le> n" "n \<le> length p" by (auto simp: ancestors_def)
  then show "q \<noteq> [] \<and> (\<exists>r. p = q @ r)" by (auto intro: exI [of _ "drop n p"])
next
  assume "q \<noteq> [] \<and> (\<exists>r. p = q @ r)"
  then obtain r where "q \<noteq> []" "p = q @ r" by blast
  then show "q \<in> set (ancestors p)"
    by (auto simp: ancestors_def image_iff intro!: bexI [of _ "length q"] simp: Suc_le_eq)
qed

lemma fold_make_dir_result:
  "lookup (fold make_dir ps d) q =
     (if lookup d q \<noteq> None \<or> q \<notin> set ps then lookup d q else lookup (fold make_dir ps d) q)"
  using fold_make_dir_frame by auto

section \<open>What an operation may change\<close>

text \<open>
  \<open>only S m\<close>: whatever \<open>m\<close> returns, it changes no node outside \<open>S\<close> and none of the
  parameters of the disk.
\<close>

definition same_params :: "disk \<Rightarrow> disk \<Rightarrow> bool" where
  "same_params d d' \<longleftrightarrow> faults d' = faults d \<and> rng d' = rng d"

definition only :: "path set \<Rightarrow> (disk, 'e, 'a) op \<Rightarrow> bool" where
  "only S m \<longleftrightarrow> (\<forall>d r d'. m d = (r, d') \<longrightarrow>
     same_params d d' \<and> (\<forall>q. q \<notin> S \<longrightarrow> lookup d' q = lookup d q))"

lemma onlyD:
  "only S m \<Longrightarrow> m d = (r, d') \<Longrightarrow> q \<notin> S \<Longrightarrow> lookup d' q = lookup d q"
  "only S m \<Longrightarrow> m d = (r, d') \<Longrightarrow> faults d' = faults d"
  by (auto simp: only_def same_params_def)

lemma only_mono: "only S m \<Longrightarrow> S \<subseteq> T \<Longrightarrow> only T m"
  unfolding only_def by blast

lemma only_bindS: "only S m \<Longrightarrow> (\<And>v. only S (f v)) \<Longrightarrow> only S (bindS m f)"
  unfolding only_def bindS_eq_iff same_params_def by metis

lemma only_errS: "only S m \<Longrightarrow> only S (errS g m)"
  unfolding only_def errS_eq_iff by metis

lemma only_ret: "only S (retS v)" "only S (failS e)"
  by (simp_all add: only_def same_params_def)

lemma same_params_nodes [simp]:
  "same_params d d" "same_params d (put_node p n d)" "same_params d (del_node p d)"
  "same_params d (put_node p n (del_node q d))" "same_params d (d\<lparr>draws := k\<rparr>)"
  by (simp_all add: same_params_def put_node_def del_node_def)

lemma same_params_fold [simp]: "same_params d (fold make_dir ps d)"
proof -
  have "rng (fold make_dir ps d) = rng d"
    by (induction ps arbitrary: d) (simp_all add: make_dir_def put_node_def)
  then show ?thesis by (simp add: same_params_def)
qed

lemma only_fs_calls:
  "only {p} (fs_metadata p)" "only {p} (fs_set_permissions p m)" "only {p} (fs_create p)"
  "only {p} (fs_write p data)" "only {p} (fs_sync p)" "only {p, q} (fs_rename p q)"
  "only {p} (fs_remove_file p)" "only {p} (fs_append p data)"
  by (auto simp: only_def fs_metadata_def fs_set_permissions_def fs_create_def fs_write_def fs_sync_def fs_append_def
      fs_rename_def fs_remove_file_def split: if_splits option.splits node.splits)

lemma only_create_dir_all: "only (set (ancestors p)) (fs_create_dir_all p)"
  by (auto simp: only_def fs_create_dir_all_def fold_make_dir_frame fold_make_dir_take split: if_splits)

lemmas only_rules = only_bindS only_errS only_ret only_fs_calls only_create_dir_all

lemma only_apply_secure_permissions: "only {p} (apply_secure_permissions p)"
  unfolding apply_secure_permissions_def Let_def by (auto intro!: only_rules)

lemma only_ensure_dir_tighten: "only (insert p (set (ancestors p))) (ensure_dir_secure_tighten p)"
  unfolding ensure_dir_secure_tighten_def
  by (auto intro!: only_bindS only_errS intro: only_mono [OF only_create_dir_all]
      only_mono [OF only_apply_secure_permissions])

lemma only_ensure_dir: "only (insert p (set (ancestors p))) (ensure_dir_secure p)"
  using only_ensure_dir_tighten [of p]
  by (auto simp: only_def ensure_dir_secure_def ensure_dir_secure_tighten_def)

section \<open>The temporary name\<close>

lemma dotted_neq:
  assumes "CHR ''.'' # dropWhile ((=) CHR ''.'') n @ CHR ''.'' # t @ ''tmp'' = n"
  shows False
proof (cases "dropWhile ((=) CHR ''.'') n")
  case Nil
  then have "\<forall>c \<in> set n. CHR ''.'' = c" by (simp only: dropWhile_eq_Nil_conv)
  moreover have "CHR ''t'' \<in> set n" using arg_cong [where f = "\<lambda>x. CHR ''t'' \<in> set x", OF assms] by simp
  ultimately have "CHR ''.'' = CHR ''t''" by blast
  then show False by simp
next
  case (Cons c cs)
  then have c: "c \<noteq> CHR ''.''" using hd_dropWhile [of "(=) CHR ''.''" n] by (metis list.distinct(1) list.sel(1))
  define m where "m = CHR ''.'' # (c # cs) @ CHR ''.'' # t @ ''tmp''"
  have "m = n" using assms unfolding Cons m_def .
  moreover have "dropWhile ((=) CHR ''.'') m = (c # cs) @ CHR ''.'' # t @ ''tmp''" using c by (simp add: m_def)
  ultimately show False using Cons by simp
qed

lemma tmp_name_neq: "tmp_name n sfx \<noteq> n"
proof -
  have "(\<lambda>c. c = CHR ''.'') = (=) CHR ''.''" by auto
  then have "tmp_name n sfx = CHR ''.'' # dropWhile ((=) CHR ''.'') n @ CHR ''.'' # (hex16 sfx @ ''.'') @ ''tmp''"
    by (simp add: tmp_name_def)
  then show ?thesis using dotted_neq by metis
qed

lemma hex_digit_neq: "k < 16 \<Longrightarrow> hex_digit k \<noteq> CHR ''/''"
proof
  assume "k < 16" and "hex_digit k = CHR ''/''"
  then have "CHR ''/'' \<in> set ''0123456789abcdef''" using nth_mem [of k "''0123456789abcdef''"]
    by (simp add: hex_digit_def)
  then show False by simp
qed

lemma hex16_chars: "CHR ''/'' \<notin> set (hex16 w)"
proof -
  have "unat (take_bit 4 (drop_bit i w)) < 16" for i
    by (rule less_le_trans [OF unat_mono [of _ "16 :: u64"]]) (simp_all add: take_bit_eq_mod word_mod_less_divisor)
  then show ?thesis by (auto simp: hex16_def dest: hex_digit_neq [THEN not_sym])
qed

lemma proper_tmp_name: "proper_name n \<Longrightarrow> proper_name (tmp_name n sfx)"
  using hex16_chars [of sfx] by (auto simp: proper_name_def tmp_name_def dest: set_dropWhileD)

lemma tmp_path_eq:
  assumes "proper_name n"
  shows "tmp_path (dir @ [Normal n]) sfx = dir @ [Normal (tmp_name n sfx)]"
  using components_proper [OF proper_tmp_name [OF assms]]
  by (simp add: tmp_path_def path_with_file_name_def path_file_name_def path_join_def)

section \<open>The atomic write\<close>

lemma apply_secure_permissions_mode:
  assumes "apply_secure_permissions p d = (Inr (), d')"
  obtains n m where "lookup d p = Some n" "lookup d' p = Some (set_node_mode m n)"
    "m AND 0x1FF = (case n of Dir _ \<Rightarrow> 0x1C0 | File _ _ \<Rightarrow> 0x180)"
  using assms
  by (cases "lookup d p"; cases "the (lookup d p)")
    (auto simp: apply_secure_permissions_def bindS_eq_iff errS_eq_iff fs_metadata_def
      fs_set_permissions_def Let_def map_err_def split: if_splits sum.splits)

lemma fs_write_content:
  "fs_write p data d = (Inr (), d') \<Longrightarrow>
     \<exists>c m. lookup d p = Some (File c m) \<and> lookup d' p = Some (File data m)"
  by (auto simp: fs_write_def split: option.splits node.splits if_splits)

lemma fs_rename_moves:
  "fs_rename p q d = (Inr (), d') \<Longrightarrow> p \<noteq> q \<Longrightarrow>
     \<exists>c m. lookup d p = Some (File c m) \<and> lookup d' q = Some (File c m) \<and> lookup d' p = None"
  by (auto simp: fs_rename_def split: option.splits node.splits if_splits)

lemma fs_rename_fails: "fs_rename p q d = (Inl e, d') \<Longrightarrow> d' = d"
  by (auto simp: fs_rename_def split: option.splits node.splits if_splits)

lemma fs_sync_same: "fs_sync p d = (r, d') \<Longrightarrow> d' = d"
  by (auto simp: fs_sync_def split: if_splits)

text \<open>The steps before the rename work on the temporary file only.\<close>

lemma write_and_rename_unfold:
  "write_and_rename tmp p data =
     bindS (bindS (errS (FileWrite tmp) (fs_create tmp)) (\<lambda>_.
       bindS (apply_secure_permissions tmp) (\<lambda>_.
       bindS (errS (FileWrite tmp) (fs_write tmp data)) (\<lambda>_.
       errS (FileWrite tmp) (fs_sync tmp))))) (\<lambda>_. errS (FileWrite p) (fs_rename tmp p))"
  by (auto simp: write_and_rename_def bindS_def split: prod.splits sum.splits intro!: ext)

lemma temporary_file_ready:
  assumes "bindS (errS (FileWrite tmp) (fs_create tmp)) (\<lambda>_.
       bindS (apply_secure_permissions tmp) (\<lambda>_.
       bindS (errS (FileWrite tmp) (fs_write tmp data)) (\<lambda>_.
       errS (FileWrite tmp) (fs_sync tmp)))) d = (Inr (), d')"
  obtains m where "lookup d' tmp = Some (File data m)" "m AND 0x1FF = 0x180"
proof -
  obtain d1 d2 d3 where c: "fs_create tmp d = (Inr (), d1)"
    and a: "apply_secure_permissions tmp d1 = (Inr (), d2)"
    and w: "fs_write tmp data d2 = (Inr (), d3)" and y: "fs_sync tmp d3 = (Inr (), d')"
    using assms by (auto simp: bindS_eq_iff errS_result_iffs)
  from a obtain n m where n: "lookup d1 tmp = Some n" "lookup d2 tmp = Some (set_node_mode m n)"
    "m AND 0x1FF = (case n of Dir _ \<Rightarrow> 0x1C0 | File _ _ \<Rightarrow> 0x180)"
    by (rule apply_secure_permissions_mode)
  from w obtain c' m' where "lookup d2 tmp = Some (File c' m')" "lookup d3 tmp = Some (File data m')"
    using fs_write_content by blast
  then show thesis using that n fs_sync_same [OF y] by (cases n) auto
qed

lemma write_and_rename_atomic:
  assumes "write_and_rename tmp p data d = (r, d')" and "tmp \<noteq> p"
  shows "case r of
      Inl e \<Rightarrow> lookup d' p = lookup d p
    | Inr _ \<Rightarrow> lookup d' tmp = None \<and> (\<exists>m. lookup d' p = Some (File data m) \<and> m AND 0x1FF = 0x180)"
proof -
  let ?w = "bindS (errS (FileWrite tmp) (fs_create tmp)) (\<lambda>_.
       bindS (apply_secure_permissions tmp) (\<lambda>_.
       bindS (errS (FileWrite tmp) (fs_write tmp data)) (\<lambda>_.
       errS (FileWrite tmp) (fs_sync tmp))))"
  have only: "only {tmp} ?w" by (intro only_rules only_apply_secure_permissions)
  consider e where "?w d = (Inl e, d')" "r = Inl e"
    | d1 where "?w d = (Inr (), d1)" "errS (FileWrite p) (fs_rename tmp p) d1 = (r, d')"
    using assms(1) unfolding write_and_rename_unfold by (subst (asm) bindS_eq_iff) auto
  then show ?thesis
  proof cases
    case 1
    then show ?thesis using onlyD(1) [OF only] assms(2) by auto
  next
    case (2 d1)
    then have same: "lookup d1 p = lookup d p" using onlyD(1) [OF only] assms(2) by auto
    obtain m where "lookup d1 tmp = Some (File data m)" "m AND 0x1FF = 0x180"
      using temporary_file_ready [OF 2(1)] by blast
    then show ?thesis using 2(2) same assms(2)
      by (cases r) (auto simp: errS_result_iffs dest: fs_rename_fails fs_rename_moves)
  qed
qed

lemma only_write_and_rename: "only {tmp, p} (write_and_rename tmp p data)"
  unfolding write_and_rename_def
  by (intro only_bindS only_errS only_mono [OF only_fs_calls(3)] only_mono [OF only_fs_calls(4)]
      only_mono [OF only_fs_calls(5)] only_fs_calls(6) only_mono [OF only_apply_secure_permissions]) auto

lemma fs_remove_file_gone:
  "\<not> faults d (CallRemove p) \<Longrightarrow> \<not> is_dir_node (lookup d p) \<Longrightarrow> lookup (snd (fs_remove_file p d)) p = None"
  by (cases "lookup d p"; cases "the (lookup d p)") (auto simp: fs_remove_file_def)

text \<open>The run of an atomic write on \<open>dir/n\<close>: the directory, then the write, then the clean-up.\<close>

lemma atomic_write_cases:
  assumes "atomic_write_secure (dir @ [Normal n]) data d = (r, d')" and "proper_name n"
  obtains e where "ensure_dir_secure dir d = (Inl e, d')" "r = Inl e"
  | d1 d2 where "ensure_dir_secure dir d = (Inr (), d1)"
      "write_and_rename (dir @ [Normal (tmp_name n (rng d1 (draws d1)))]) (dir @ [Normal n]) data
         (d1\<lparr>draws := Suc (draws d1)\<rparr>) = (r, d2)"
      "d' = (case r of Inl e \<Rightarrow> snd (fs_remove_file (dir @ [Normal (tmp_name n (rng d1 (draws d1)))]) d2)
             | Inr _ \<Rightarrow> d2)"
proof -
  let ?p = "dir @ [Normal n]"
  let ?tmp = "\<lambda>d1. dir @ [Normal (tmp_name n (rng d1 (draws d1)))]"
  let ?w = "\<lambda>d1. write_and_rename (?tmp d1) ?p data (d1\<lparr>draws := Suc (draws d1)\<rparr>)"
  have "path_parent ?p = Some dir" by (simp add: path_parent_def)
  then have "bindS (ensure_dir_secure dir) (\<lambda>_ d1. case ?w d1 of (write_result, d3) \<Rightarrow>
        (case write_result of Inl e \<Rightarrow> (Inl e, snd (fs_remove_file (?tmp d1) d3)) | Inr () \<Rightarrow> (Inr (), d3))) d
      = (r, d')"
    using assms by (simp only: atomic_write_secure_def draw_u64_def tmp_path_eq Let_def option.case prod.case)
  then consider e where "ensure_dir_secure dir d = (Inl e, d')" "r = Inl e"
    | d1 where "ensure_dir_secure dir d = (Inr (), d1)"
      "(case ?w d1 of (write_result, d3) \<Rightarrow>
        (case write_result of Inl e \<Rightarrow> (Inl e, snd (fs_remove_file (?tmp d1) d3)) | Inr () \<Rightarrow> (Inr (), d3)))
      = (r, d')"
    unfolding bindS_eq_iff by auto
  then show thesis
  proof cases
    case (2 d1)
    obtain w d2 where "?w d1 = (w, d2)" by (cases "?w d1")
    with 2 that(2) [of d1 d2] show thesis by (cases w) (auto split: unit.splits)
  qed (rule that(1))
qed

lemma ensure_dir_parent_keeps:
  assumes "ensure_dir_secure dir d = (r, d')"
  shows "lookup d' (dir @ [c]) = lookup d (dir @ [c])"
proof (rule onlyD(1) [OF only_ensure_dir assms])
  have "\<And>r. dir \<noteq> dir @ [c] @ r" by simp
  then show "dir @ [c] \<notin> insert dir (set (ancestors dir))" by (auto simp: ancestors_iff)
qed

lemma below_self [simp]: "below p p"
  by (simp add: below_def)

lemma lookup_fold_del_node: "lookup (fold del_node ps d) q = (if q \<in> set ps then None else lookup d q)"
  by (induction ps arbitrary: d) auto

lemma same_params_fold_del [simp]: "same_params d (fold del_node ps d)"
proof -
  have "faults (fold del_node ps d) = faults d" "rng (fold del_node ps d) = rng d"
    by (induction ps arbitrary: d) (simp_all add: del_node_def)
  then show ?thesis by (simp add: same_params_def)
qed

lemma only_remove_dir_all: "only {q. below p q} (fs_remove_dir_all p)"
  by (auto simp: only_def fs_remove_dir_all_def lookup_fold_del_node Let_def split: if_splits option.splits
      node.splits dest!: in_set_takeD)

lemma fs_remove_dir_all_gone:
  assumes "fs_remove_dir_all p d = (Inr (), d')" and "below p q"
  shows "lookup d' q = None"
proof -
  have "q \<in> fst ` set (nodes d) \<or> lookup d q = None" by (auto simp: lookup_def map_of_eq_None_iff)
  then show ?thesis using assms
    by (fastforce simp: fs_remove_dir_all_def lookup_fold_del_node Let_def image_iff
        split: if_splits option.splits node.splits)
qed

text \<open>The content of the file after an atomic write.\<close>

lemma atomic_write_target:
  assumes "atomic_write_secure (dir @ [Normal n]) data d = (r, d')" and "proper_name n"
  shows "case r of
      Inl e \<Rightarrow> lookup d' (dir @ [Normal n]) = lookup d (dir @ [Normal n])
    | Inr _ \<Rightarrow> \<exists>m. lookup d' (dir @ [Normal n]) = Some (File data m) \<and> m AND 0x1FF = 0x180"
  using assms
proof (cases rule: atomic_write_cases)
  case (1 e)
  then show ?thesis using ensure_dir_parent_keeps by simp
next
  case (2 d1 d2)
  note neq = tmp_name_neq [of n "rng d1 (draws d1)"]
  show ?thesis
    using 2 write_and_rename_atomic [OF 2(2)] ensure_dir_parent_keeps [OF 2(1)] neq
      onlyD(1) [OF only_fs_calls(7) surjective_pairing]
    by (auto split: sum.splits)
qed

lemma atomic_write_fails:
  "atomic_write_secure (dir @ [Normal n]) data d = (Inl e, d') \<Longrightarrow> proper_name n \<Longrightarrow>
     lookup d' (dir @ [Normal n]) = lookup d (dir @ [Normal n])"
  by (drule (1) atomic_write_target) simp

lemma atomic_write_stores:
  "atomic_write_secure (dir @ [Normal n]) data d = (Inr u, d') \<Longrightarrow> proper_name n \<Longrightarrow>
     \<exists>m. lookup d' (dir @ [Normal n]) = Some (File data m) \<and> m AND 0x1FF = 0x180"
  by (drule (1) atomic_write_target) simp

text \<open>Everything else an atomic write leaves alone.\<close>

lemma atomic_write_frame:
  assumes "atomic_write_secure (dir @ [Normal n]) data d = (r, d')" and "proper_name n"
    and "q \<noteq> dir @ [Normal n]" and "\<And>sfx. q \<noteq> dir @ [Normal (tmp_name n sfx)]"
    and "q \<notin> set (ancestors dir)" and "q \<noteq> dir"
  shows "lookup d' q = lookup d q"
  using assms(1,2)
proof (cases rule: atomic_write_cases)
  case (1 e)
  then show ?thesis using onlyD(1) [OF only_ensure_dir, of dir d _ d' q] assms by auto
next
  case (2 d1 d2)
  have "lookup d1 q = lookup d q" using onlyD(1) [OF only_ensure_dir 2(1)] assms by auto
  moreover have "lookup d2 q = lookup d1 q" using onlyD(1) [OF only_write_and_rename 2(2)] assms by auto
  moreover have "lookup d' q = lookup d2 q"
    using 2(3) assms(4) onlyD(1) [OF only_fs_calls(7) surjective_pairing] by (auto split: sum.splits)
  ultimately show ?thesis by simp
qed

text \<open>A disk whose calls do not fail on their own, and a directory path no file stands in.\<close>

definition healthy :: "disk \<Rightarrow> bool" where
  "healthy d \<longleftrightarrow> faults d = (\<lambda>_. False)"

definition dir_free :: "disk \<Rightarrow> path \<Rightarrow> bool" where
  "dir_free d p \<longleftrightarrow> p \<noteq> [] \<and> \<not> list_ex (\<lambda>q. is_file_node (lookup d q)) (ancestors p)"

lemma node_kinds: "n \<noteq> None \<Longrightarrow> \<not> is_file_node n \<Longrightarrow> is_dir_node n"
  by (cases n; cases "the n") auto

lemma node_present: "is_dir_node n \<Longrightarrow> n \<noteq> None" "is_file_node n \<Longrightarrow> n \<noteq> None"
  by (cases n; simp)+

lemma is_dir_set_mode [simp]: "is_dir_node (Some (set_node_mode m n)) = is_dir_node (Some n)"
  by (cases n) simp_all

lemma dir_free_self: "dir_free d p \<Longrightarrow> \<not> is_file_node (lookup d p)"
  by (auto simp: dir_free_def list_ex_iff ancestors_iff)

lemma created_is_dir:
  assumes "dir_free d p"
  shows "is_dir_node (lookup (fold make_dir (ancestors p) d) p)"
proof -
  have "p \<in> set (ancestors p)" using assms by (simp add: ancestors_iff dir_free_def)
  then show ?thesis
    using fold_make_dir_dir [of p "ancestors p" d] fold_make_dir_frame [of d p "ancestors p"]
      node_kinds [OF _ dir_free_self [OF assms]] by (cases "lookup d p") auto
qed

lemma apply_secure_permissions_healthy:
  "healthy d \<Longrightarrow> lookup d p \<noteq> None \<Longrightarrow> \<exists>d'. apply_secure_permissions p d = (Inr (), d')"
  by (auto simp: apply_secure_permissions_def healthy_def bindS_def errS_def fs_metadata_def
      fs_set_permissions_def Let_def)

lemma ensure_dir_secure_tighten_healthy:
  assumes "healthy d" and "dir_free d p"
  obtains d' where "ensure_dir_secure_tighten p d = (Inr (), d')" "is_dir_node (lookup d' p)"
proof -
  define d1 where "d1 = fold make_dir (ancestors p) d"
  have c: "fs_create_dir_all p d = (Inr (), d1)"
    using assms by (simp add: fs_create_dir_all_def healthy_def dir_free_def d1_def)
  have dir: "is_dir_node (lookup d1 p)" using created_is_dir [OF assms(2)] by (simp add: d1_def)
  then have "lookup d1 p \<noteq> None" by (rule node_present)
  moreover have "healthy d1" using assms by (simp add: d1_def healthy_def)
  ultimately obtain d' where a: "apply_secure_permissions p d1 = (Inr (), d')"
    using apply_secure_permissions_healthy by blast
  then have "is_dir_node (lookup d' p)"
    using dir by (elim apply_secure_permissions_mode) simp
  then show thesis using that c a
    by (auto simp: ensure_dir_secure_tighten_def bindS_eq_iff errS_result_iffs)
qed

lemma ensure_dir_secure_healthy:
  assumes "healthy d" and "dir_free d p"
  obtains d' where "ensure_dir_secure p d = (Inr (), d')" "is_dir_node (lookup d' p)"
proof (cases "path_exists d p")
  case True
  then show thesis using that node_kinds dir_free_self [OF assms(2)]
    by (auto simp: ensure_dir_secure_def path_exists_def)
next
  case False
  then have "ensure_dir_secure p d = ensure_dir_secure_tighten p d"
    by (simp add: ensure_dir_secure_def ensure_dir_secure_tighten_def)
  then show thesis using that ensure_dir_secure_tighten_healthy [OF assms] by metis
qed

lemma write_and_rename_healthy:
  assumes "healthy d" and "is_dir_node (lookup d (butlast tmp))" and "tmp \<noteq> p"
    and "\<not> is_dir_node (lookup d tmp)" and "\<not> is_dir_node (lookup d p)" and "butlast p = butlast tmp"
  shows "\<exists>d'. write_and_rename tmp p data d = (Inr (), d')"
proof -
  obtain d1 where c: "fs_create tmp d = (Inr (), d1)" and f: "is_file_node (lookup d1 tmp)"
    using assms(1,2,4) by (cases "lookup d tmp"; cases "the (lookup d tmp)") (auto simp: fs_create_def healthy_def)
  have h1: "healthy d1" using assms(1) onlyD(2) [OF only_fs_calls(3) c] by (simp add: healthy_def)
  from f have "lookup d1 tmp \<noteq> None" by (rule node_present)
  then obtain d2 where a: "apply_secure_permissions tmp d1 = (Inr (), d2)"
    using apply_secure_permissions_healthy h1 by blast
  have h2: "healthy d2" using h1 onlyD(2) [OF only_apply_secure_permissions a] by (simp add: healthy_def)
  from a obtain b m where f2: "lookup d2 tmp = Some (File b m)"
    by (rule apply_secure_permissions_mode) (use f in \<open>auto elim!: is_file_node.elims\<close>)
  define d3 where "d3 = put_node tmp (File data m) d2"
  have w: "fs_write tmp data d2 = (Inr (), d3)" using f2 h2 by (simp add: fs_write_def d3_def healthy_def)
  have y: "fs_sync tmp d3 = (Inr (), d3)" using h2 by (simp add: fs_sync_def d3_def healthy_def)
  have "lookup d3 q = lookup d q" if "q \<noteq> tmp" for q
    using onlyD(1) [OF only_fs_calls(3) c] onlyD(1) [OF only_apply_secure_permissions a] that
    by (auto simp: d3_def)
  moreover have "butlast p \<noteq> tmp" using assms(2,4,6) by auto
  ultimately have "lookup d3 p = lookup d p" "lookup d3 (butlast p) = lookup d (butlast p)" using assms(3) by auto
  then have "\<exists>d'. fs_rename tmp p d3 = (Inr (), d')"
    using assms(2,5,6) h2 by (auto simp: fs_rename_def d3_def healthy_def)
  then show ?thesis using c a w y
    by (auto simp: write_and_rename_def bindS_eq_iff errS_result_iffs)
qed

section \<open>Properties\<close>

text \<open>
  C8. \<^verbatim>\<open>atomic_write_secure\<close> on \<open>dir/n\<close> is atomic, whichever calls fail and wherever the write
  stops: on success the file holds exactly the data with permission bits 0600; on any error it is
  the node it was before.  Nothing else changes but the temporary file and missing directories
  on the way to \<open>dir\<close> (and the mode of \<open>dir\<close> itself, if it was missing).
\<close>

theorem atomic_write_secure_atomic:
  assumes "atomic_write_secure (dir @ [Normal n]) data d = (r, d')" and "proper_name n"
  shows "(case r of
            Inl e \<Rightarrow> lookup d' (dir @ [Normal n]) = lookup d (dir @ [Normal n])
          | Inr _ \<Rightarrow> \<exists>m. lookup d' (dir @ [Normal n]) = Some (File data m) \<and> m AND 0x1FF = 0x180)
      \<and> (\<forall>q. q \<noteq> dir @ [Normal n] \<and> (\<forall>sfx. q \<noteq> dir @ [Normal (tmp_name n sfx)])
            \<and> q \<notin> set (ancestors dir) \<and> q \<noteq> dir \<longrightarrow> lookup d' q = lookup d q)"
  using atomic_write_target [OF assms] atomic_write_frame [OF assms] by blast

definition sample_disk :: disk where
  "sample_disk = \<lparr>nodes = [([RootDir], Dir 0x1ED), ([RootDir, Normal ''s''], Dir 0x1C0),
      ([RootDir, Normal ''s'', Normal ''f''], File ''old'' 0x1A4)],
    faults = (\<lambda>_. False), partial = (\<lambda>_. 0), new_file_mode = 0x1A4, new_dir_mode = 0x1ED,
    rng = (\<lambda>_. 7), draws = 0\<rparr>"

theorem atomic_write_secure_atomic_witness:
  "\<exists>r d'. atomic_write_secure ([RootDir, Normal ''s''] @ [Normal ''f'']) ''new''
        (sample_disk\<lparr>faults := (\<lambda>c. \<exists>p q. c = CallRename p q)\<rparr>) = (r, d')
     \<and> (case r of
          Inl e \<Rightarrow> lookup d' [RootDir, Normal ''s'', Normal ''f''] = Some (File ''old'' 0x1A4)
        | Inr _ \<Rightarrow> \<exists>m. lookup d' [RootDir, Normal ''s'', Normal ''f''] = Some (File ''new'' m) \<and> m AND 0x1FF = 0x180)"
proof -
  let ?d = "sample_disk\<lparr>faults := (\<lambda>c. \<exists>p q. c = CallRename p q)\<rparr>"
  obtain r d' where run: "atomic_write_secure ([RootDir, Normal ''s''] @ [Normal ''f'']) ''new'' ?d = (r, d')"
    by (cases "atomic_write_secure ([RootDir, Normal ''s''] @ [Normal ''f'']) ''new'' ?d")
  have "proper_name ''f''" by (simp add: proper_name_def)
  moreover have "lookup ?d [RootDir, Normal ''s'', Normal ''f''] = Some (File ''old'' 0x1A4)"
    by (simp add: lookup_def sample_disk_def)
  ultimately show ?thesis using atomic_write_secure_atomic [OF run] run by (auto split: sum.splits)
qed

text \<open>
  The write does succeed: when no call fails on its own, no file stands in the way of
  the directory, and neither the target nor the temporary path is a directory.
\<close>

theorem atomic_write_secure_succeeds:
  assumes "healthy d" and "dir_free d dir" and "proper_name n"
    and "\<not> is_dir_node (lookup d (dir @ [Normal n]))"
    and "\<forall>sfx. \<not> is_dir_node (lookup d (dir @ [Normal (tmp_name n sfx)]))"
  shows "\<exists>d' m. atomic_write_secure (dir @ [Normal n]) data d = (Inr (), d')
           \<and> lookup d' (dir @ [Normal n]) = Some (File data m)"
proof -
  obtain r d' where run: "atomic_write_secure (dir @ [Normal n]) data d = (r, d')"
    by (cases "atomic_write_secure (dir @ [Normal n]) data d")
  obtain d0 where e: "ensure_dir_secure dir d = (Inr (), d0)" "is_dir_node (lookup d0 dir)"
    using ensure_dir_secure_healthy [OF assms(1,2)] by blast
  have h: "healthy d0" using assms(1) onlyD(2) [OF only_ensure_dir e(1)] by (simp add: healthy_def)
  have "r = Inr ()" using run assms(3)
  proof (cases rule: atomic_write_cases)
    case (2 d1 d2)
    let ?d2 = "d1\<lparr>draws := Suc (draws d1)\<rparr>"
    have "d1 = d0" using 2 e by simp
    then have "\<exists>d'. write_and_rename (dir @ [Normal (tmp_name n (rng d1 (draws d1)))]) (dir @ [Normal n]) data ?d2
        = (Inr (), d')"
      using e h assms tmp_name_neq ensure_dir_parent_keeps [OF e(1)]
      by (intro write_and_rename_healthy) (auto simp: healthy_def)
    then show ?thesis using 2(2) by auto
  qed (use e in simp)
  then show ?thesis using run atomic_write_target [OF run assms(3)] by auto
qed

theorem atomic_write_secure_succeeds_witness:
  "\<exists>d' m. atomic_write_secure ([RootDir, Normal ''s''] @ [Normal ''f'']) ''new'' sample_disk = (Inr (), d')
     \<and> lookup d' ([RootDir, Normal ''s''] @ [Normal ''f'']) = Some (File ''new'' m)"
proof (rule atomic_write_secure_succeeds)
  show "\<forall>sfx. \<not> is_dir_node (lookup sample_disk ([RootDir, Normal ''s''] @ [Normal (tmp_name ''f'' sfx)]))"
    using tmp_name_neq [of "''f''"] by (auto simp: lookup_def sample_disk_def)
qed (simp_all add: healthy_def dir_free_def sample_disk_def ancestors_def lookup_def proper_name_def upt_rec)

text \<open>
  A directory that \<^verbatim>\<open>ensure_dir_secure_tighten\<close> reports ready is a directory with permission
  bits 0700, whatever its mode was before; \<^verbatim>\<open>ensure_dir_secure\<close> gives the same for a directory
  it created and leaves the mode of an existing one alone.
\<close>

theorem ensure_dir_secure_modes:
  assumes "dir_free d p"
  shows "(\<forall>d'. ensure_dir_secure_tighten p d = (Inr (), d') \<longrightarrow>
            (\<exists>m. lookup d' p = Some (Dir m) \<and> m AND 0x1FF = 0x1C0))
     \<and> (\<forall>d'. ensure_dir_secure p d = (Inr (), d') \<longrightarrow>
            (if path_exists d p then d' = d else \<exists>m. lookup d' p = Some (Dir m) \<and> m AND 0x1FF = 0x1C0))"
proof -
  have *: "\<exists>m. lookup d' p = Some (Dir m) \<and> m AND 0x1FF = 0x1C0"
    if run: "ensure_dir_secure_tighten p d = (Inr (), d')" for d'
  proof -
    from run obtain d1 where c: "fs_create_dir_all p d = (Inr (), d1)"
      and a: "apply_secure_permissions p d1 = (Inr (), d')"
      by (auto simp: ensure_dir_secure_tighten_def bindS_eq_iff errS_result_iffs)
    have d1: "d1 = fold make_dir (ancestors p) d" using c by (auto simp: fs_create_dir_all_def split: if_splits)
    have "is_dir_node (lookup d1 p)" using created_is_dir [OF assms] by (simp add: d1)
    then show ?thesis using a by (elim apply_secure_permissions_mode) (auto elim!: is_dir_node.elims)
  qed
  then show ?thesis
    by (auto simp: ensure_dir_secure_def ensure_dir_secure_tighten_def [symmetric])
qed

theorem ensure_dir_secure_modes_witness:
  "\<exists>d' m. ensure_dir_secure_tighten [RootDir] sample_disk = (Inr (), d')
     \<and> lookup d' [RootDir] = Some (Dir m) \<and> m AND 0x1FF = 0x1C0"
proof -
  have ok: "healthy sample_disk" "dir_free sample_disk [RootDir]"
    by (simp_all add: healthy_def dir_free_def sample_disk_def ancestors_def lookup_def)
  obtain d' where "ensure_dir_secure_tighten [RootDir] sample_disk = (Inr (), d')"
    using ensure_dir_secure_tighten_healthy [OF ok] by blast
  then show ?thesis using ensure_dir_secure_modes [OF ok(2)] by blast
qed

end
