(* ===== verification/Store_Interface.thy ===== *)
theory Store_Interface
  imports Storage_FS
begin

text \<open>
  The contract the record stores share (peer profiles, pinned server keys, authorized client
  keys): a record is one file, a save that returns has stored it, a save or delete that fails has
  changed nothing, and no operation touches another record.  From it follows that a store behaves
  as a map, for every sequence of operations and every pattern of write faults.
\<close>

definition reads_ok :: "disk \<Rightarrow> bool" where
  "reads_ok d \<longleftrightarrow> (\<forall>p. \<not> faults d (CallStat p) \<and> \<not> faults d (CallRead p))"

datatype ('i, 'v) store_cmd = Save 'i 'v | Delete 'i

fun cmd_id :: "('i, 'v) store_cmd \<Rightarrow> 'i" where
  "cmd_id (Save i v) = i"
| "cmd_id (Delete i) = i"

fun cmd_storable :: "('i \<Rightarrow> 'v \<Rightarrow> bool) \<Rightarrow> ('i, 'v) store_cmd \<Rightarrow> bool" where
  "cmd_storable P (Save i v) = P i v"
| "cmd_storable P (Delete i) = True"

text \<open>Running commands against a store: which of them succeeded, and the disk at the end.\<close>

fun run_store ::
  "('i \<Rightarrow> 'v \<Rightarrow> (disk, 'e, 'x) op) \<Rightarrow> ('i \<Rightarrow> (disk, 'e, 'y) op) \<Rightarrow> ('i, 'v) store_cmd list \<Rightarrow> disk
    \<Rightarrow> bool list \<times> disk" where
  "run_store sv dl [] d = ([], d)"
| "run_store sv dl (Save i v # cs) d =
     (let (r, d1) = sv i v d; (oks, d2) = run_store sv dl cs d1 in ((\<not> isl r) # oks, d2))"
| "run_store sv dl (Delete i # cs) d =
     (let (r, d1) = dl i d; (oks, d2) = run_store sv dl cs d1 in ((\<not> isl r) # oks, d2))"

text \<open>The same on a map from slots to values.\<close>

fun run_map ::
  "('i \<Rightarrow> path) \<Rightarrow> ('i, 'v) store_cmd list \<Rightarrow> bool list \<Rightarrow> (path \<Rightarrow> 'v option) \<Rightarrow> path \<Rightarrow> 'v option" where
  "run_map slot (Save i v # cs) (ok # oks) m =
     run_map slot cs oks (if ok then m(slot i \<mapsto> v) else m)"
| "run_map slot (Delete i # cs) (ok # oks) m =
     run_map slot cs oks (if ok then m(slot i := None) else m)"
| "run_map slot cs oks m = m"

lemma run_store_keeps:
  assumes "\<And>i v d. P d \<Longrightarrow> P (snd (sv i v d))" and "\<And>i d. P d \<Longrightarrow> P (snd (dl i d))" and "P d"
  shows "P (snd (run_store sv dl cs d))"
  using assms(3)
proof (induction cs arbitrary: d)
  case (Cons c cs)
  show ?case
  proof (cases c)
    case (Save i v)
    then show ?thesis using Cons assms(1) [of d i v] by (simp add: case_prod_beta Let_def)
  next
    case (Delete i)
    then show ?thesis using Cons assms(2) [of d i] by (simp add: case_prod_beta Let_def)
  qed
qed simp

locale record_store =
  fixes save :: "'i \<Rightarrow> 'v \<Rightarrow> (disk, storage_error, 'x) op"
    and load :: "disk \<Rightarrow> 'i \<Rightarrow> storage_error + 'v option"
    and delete :: "'i \<Rightarrow> (disk, storage_error, bool) op"
    and slot :: "'i \<Rightarrow> path"
    and valid :: "'i \<Rightarrow> bool"
    and storable :: "'i \<Rightarrow> 'v \<Rightarrow> bool"
  assumes load_local: "lookup d' (slot i) = lookup d (slot i) \<Longrightarrow> faults d' = faults d \<Longrightarrow> load d' i = load d i"
    and load_slot: "slot i = slot j \<Longrightarrow> load d i = load d j"
    and load_absent: "lookup d (slot i) = None \<Longrightarrow> load d i = Inr None"
    and save_ok: "save i v d = (Inr x, d') \<Longrightarrow> valid i \<Longrightarrow> storable i v \<Longrightarrow> reads_ok d \<Longrightarrow> load d' i = Inr (Some v)"
    and save_err: "save i v d = (Inl e, d') \<Longrightarrow> valid i \<Longrightarrow> lookup d' (slot i) = lookup d (slot i)"
    and save_frame: "save i v d = (r, d') \<Longrightarrow> valid i \<Longrightarrow> valid j \<Longrightarrow> slot j \<noteq> slot i \<Longrightarrow>
      lookup d' (slot j) = lookup d (slot j)"
    and save_faults: "save i v d = (r, d') \<Longrightarrow> valid i \<Longrightarrow> faults d' = faults d"
    and delete_ok: "delete i d = (Inr b, d') \<Longrightarrow> lookup d' (slot i) = None"
    and delete_err: "delete i d = (Inl e, d') \<Longrightarrow> lookup d' (slot i) = lookup d (slot i)"
    and delete_frame: "delete i d = (rb, d') \<Longrightarrow> q \<noteq> slot i \<Longrightarrow> lookup d' q = lookup d q"
    and delete_faults: "delete i d = (rb, d') \<Longrightarrow> faults d' = faults d"
begin

lemma load_other_save:
  "save i v d = (r, d') \<Longrightarrow> valid i \<Longrightarrow> valid j \<Longrightarrow> slot j \<noteq> slot i \<Longrightarrow> load d' j = load d j"
  by (rule load_local) (auto dest: save_frame save_faults)

lemma load_failed_save: "save i v d = (Inl e, d') \<Longrightarrow> valid i \<Longrightarrow> valid j \<Longrightarrow> load d' j = load d j"
  by (cases "slot j = slot i") (auto intro!: load_local dest: save_err save_frame save_faults)

lemma load_deleted: "delete i d = (Inr b, d') \<Longrightarrow> load d' i = Inr None"
  by (rule load_absent) (rule delete_ok)

lemma load_other_delete: "delete i d = (r, d') \<Longrightarrow> slot j \<noteq> slot i \<Longrightarrow> load d' j = load d j"
  by (rule load_local) (auto dest: delete_frame delete_faults)

lemma load_failed_delete: "delete i d = (Inl e, d') \<Longrightarrow> load d' j = load d j"
  by (cases "slot j = slot i") (auto intro!: load_local dest: delete_err delete_frame delete_faults)

text \<open>One command: what it does to the value seen at \<open>j\<close>.\<close>

lemma save_step:
  assumes "save i v d = (r, d')" "valid i" "valid j" "storable i v" "reads_ok d" "load d j = Inr (m (slot j))"
  shows "load d' j = Inr ((if \<not> isl r then m(slot i \<mapsto> v) else m) (slot j))"
proof (cases r)
  case (Inl e)
  then show ?thesis using load_failed_save [of i v d e d' j] assms by simp
next
  case (Inr x)
  then have "load d' i = Inr (Some v)" using save_ok [of i v d x d'] assms by simp
  then show ?thesis using Inr load_slot [of i j] load_other_save [of i v d r d' j] assms
    by (cases "slot j = slot i") simp_all
qed

lemma delete_step:
  assumes "delete i d = (r, d')" "load d j = Inr (m (slot j))"
  shows "load d' j = Inr ((if \<not> isl r then m(slot i := None) else m) (slot j))"
proof (cases r)
  case (Inl e)
  then show ?thesis using load_failed_delete [of i d e d' j] assms by simp
next
  case (Inr b)
  then have "load d' i = Inr None" using load_deleted [of i d b d'] assms by simp
  then show ?thesis using Inr load_slot [of i j] load_other_delete [of i d r d' j] assms
    by (cases "slot j = slot i") simp_all
qed

theorem store_is_map:
  assumes "run_store save delete cs d = (oks, d')" and "reads_ok d"
    and "\<forall>c \<in> set cs. valid (cmd_id c) \<and> cmd_storable storable c" and "valid j"
    and "load d j = Inr (m (slot j))"
  shows "load d' j = Inr (run_map slot cs oks m (slot j))"
  using assms
proof (induction cs arbitrary: d oks m)
  case (Cons c cs)
  show ?case
  proof (cases c)
    case (Save i v)
    obtain r d1 oks' where s: "save i v d = (r, d1)" "run_store save delete cs d1 = (oks', d')" "oks = (\<not> isl r) # oks'"
      using Cons.prems(1) Save by (auto simp: Let_def split: prod.splits)
    have "reads_ok d1" using Cons.prems save_faults [OF s(1)] Save by (simp add: reads_ok_def)
    moreover have "load d1 j = Inr ((if \<not> isl r then m(slot i \<mapsto> v) else m) (slot j))"
      using save_step [OF s(1)] Cons.prems Save by simp
    ultimately show ?thesis using Cons.IH [OF s(2)] Cons.prems Save s(3) by simp
  next
    case (Delete i)
    obtain r d1 oks' where s: "delete i d = (r, d1)" "run_store save delete cs d1 = (oks', d')" "oks = (\<not> isl r) # oks'"
      using Cons.prems(1) Delete by (auto simp: Let_def split: prod.splits)
    have "reads_ok d1" using Cons.prems delete_faults [OF s(1)] by (simp add: reads_ok_def)
    moreover have "load d1 j = Inr ((if \<not> isl r then m(slot i := None) else m) (slot j))"
      using delete_step [OF s(1)] Cons.prems by simp
    ultimately show ?thesis using Cons.IH [OF s(2)] Cons.prems Delete s(3) by simp
  qed
qed simp

end

section \<open>Shared facts of the providers\<close>

text \<open>A record file is deeper than the directories on its way and is not a temporary file.\<close>

lemma ancestors_shorter: "q \<in> set (ancestors p) \<Longrightarrow> length q \<le> length p"
  by (auto simp: ancestors_iff)

lemma tmp_name_suffix: "drop (length (tmp_name n sfx) - 4) (tmp_name n sfx) = ''.tmp''"
  by (simp add: tmp_name_def)

lemma not_tmp_name: "length e = 4 \<Longrightarrow> e \<noteq> ''.tmp'' \<Longrightarrow> tmp_name n sfx \<noteq> f @ e"
proof
  assume "length e = 4" and "e \<noteq> ''.tmp''" and eq: "tmp_name n sfx = f @ e"
  then have "drop (length (f @ e) - 4) (f @ e) = e" by simp
  then show False using tmp_name_suffix [of n sfx] eq \<open>e \<noteq> ''.tmp''\<close> by metis
qed

lemma not_tmp_name_last: "last f \<noteq> CHR ''p'' \<Longrightarrow> tmp_name n sfx \<noteq> f"
  by (auto simp: tmp_name_def)

lemma atomic_write_other:
  assumes "atomic_write_secure (dir @ [Normal n]) data d = (r, d')" and "proper_name n"
    and "length dir < length q" and "q \<noteq> dir @ [Normal n]" and "\<And>f. last q = Normal f \<Longrightarrow> last f \<noteq> CHR ''p''"
  shows "lookup d' q = lookup d q"
proof (rule atomic_write_frame [OF assms(1,2,4)])
  show "q \<noteq> dir @ [Normal (tmp_name n sfx)]" for sfx
    using assms(5) not_tmp_name_last by fastforce
  show "q \<notin> set (ancestors dir)" "q \<noteq> dir" using assms(3) ancestors_shorter by force+
qed

lemma ensure_dir_tighten_other:
  "ensure_dir_secure_tighten p d = (r, d') \<Longrightarrow> length p < length q \<Longrightarrow> lookup d' q = lookup d q"
  by (rule onlyD(1) [OF only_ensure_dir_tighten]) (auto dest: ancestors_shorter)

lemma ensure_dir_tighten_faults: "ensure_dir_secure_tighten p d = (r, d') \<Longrightarrow> faults d' = faults d"
  by (rule onlyD(2) [OF only_ensure_dir_tighten])

lemma atomic_write_faults:
  assumes "atomic_write_secure (dir @ [Normal n]) data d = (r, d')" and "proper_name n"
  shows "faults d' = faults d"
  using assms
proof (cases rule: atomic_write_cases)
  case (1 e)
  then show ?thesis using onlyD(2) [OF only_ensure_dir] by blast
next
  case (2 d1 d2)
  have "faults d1 = faults d" using 2 onlyD(2) [OF only_ensure_dir] by blast
  moreover have "faults d2 = faults d1" using onlyD(2) [OF only_write_and_rename 2(2)] by simp
  moreover have "faults d' = faults d2"
    using 2(3) onlyD(2) [OF only_fs_calls(7) surjective_pairing] by (auto split: sum.splits)
  ultimately show ?thesis by simp
qed

text \<open>\<^verbatim>\<open>remove_if_exists\<close> of the trust store, which \<^verbatim>\<open>delete_peer\<close> repeats for a profile.\<close>

definition remove_if_exists :: "path \<Rightarrow> (disk, storage_error, bool) op" where
  "remove_if_exists p d =
     (case fs_remove_file p d of
        (Inr _, d') \<Rightarrow> (Inr True, d')
      | (Inl e, d') \<Rightarrow> if e = EntryNotFound then (Inr False, d') else (Inl (FileDelete p e), d'))"

lemma remove_if_exists_eq:
  "remove_if_exists p d =
     (if faults d (CallRemove p) then (Inl (FileDelete p IoOther), d)
      else if lookup d p = None then (Inr False, d)
      else if is_dir_node (lookup d p) then (Inl (FileDelete p IsADirectory), d)
      else (Inr True, del_node p d))"
  by (cases "lookup d p"; cases "the (lookup d p)") (simp_all add: remove_if_exists_def fs_remove_file_def)

lemma remove_if_exists_only: "only {p} (remove_if_exists p)"
  by (auto simp: only_def remove_if_exists_eq split: if_splits)

lemma remove_if_exists_ok: "remove_if_exists p d = (Inr b, d') \<Longrightarrow> lookup d' p = None"
  by (auto simp: remove_if_exists_eq split: if_splits)

lemma remove_if_exists_err: "remove_if_exists p d = (Inl e, d') \<Longrightarrow> d' = d"
  by (auto simp: remove_if_exists_eq split: if_splits)

lemma remove_if_exists_value: "remove_if_exists p d = (Inr b, d') \<Longrightarrow> b = (lookup d p \<noteq> None)"
  by (auto simp: remove_if_exists_eq split: if_splits)

lemmas remove_if_exists_facts = remove_if_exists_ok remove_if_exists_err
  onlyD [OF remove_if_exists_only]

end
