(* ===== verification/Trust_Store.thy ===== *)
theory Trust_Store
  imports Store_Interface
begin

text \<open>
  \<^verbatim>\<open>src/storage/trust.rs\<close>: the pinned server keys and the authorized client keys, one OpenSSH file
  per node below \<^verbatim>\<open>trust/servers\<close> and \<^verbatim>\<open>trust/clients\<close>.  The key format is a library's: a
  value of \<open>'k ssh_keys\<close> gives its printer, its parser and the fingerprint.
\<close>

section \<open>Keys and records\<close>

record 'k ssh_keys =
  to_openssh :: "'k \<Rightarrow> foreign_error + string"
  from_openssh :: "string \<Rightarrow> foreign_error + 'k"
  fingerprint :: "'k \<Rightarrow> string"

record state_config =
  root :: path

datatype trust_event_kind = ServerKeyLearned | ClientKeyAuthorized

record trust_event =
  kind :: trust_event_kind
  event_path :: path

record trust_record =
  record_exists :: bool
  record_path :: path
  public_key_openssh :: "string option"

record trust_summary =
  known_servers :: "trust_record list"
  authorized_clients :: "trust_record list"

section \<open>Paths\<close>

abbreviation join_name :: "path \<Rightarrow> string \<Rightarrow> path" where
  "join_name p n \<equiv> path_join p (components n)"

definition ensure_trust_dirs :: "state_config \<Rightarrow> (disk, storage_error, unit) op" where
  "ensure_trust_dirs st =
     (let trust_dir = join_name (root st) ''trust'';
          servers_dir = join_name trust_dir ''servers'';
          clients_dir = join_name trust_dir ''clients''
      in bindS (ensure_dir_secure_tighten (root st)) (\<lambda>_.
         bindS (ensure_dir_secure_tighten trust_dir) (\<lambda>_.
         bindS (ensure_dir_secure_tighten servers_dir) (\<lambda>_.
         ensure_dir_secure_tighten clients_dir))))"

definition safe_id :: "string \<Rightarrow> string" where
  "safe_id node_id = map (\<lambda>c. if c \<in> {CHR ''/'', CHR 0x5C, CHR ''.'', CHR '':''} then CHR ''_'' else c) node_id"

definition server_key_path :: "state_config \<Rightarrow> string \<Rightarrow> path" where
  "server_key_path st node_id =
     join_name (join_name (join_name (root st) ''trust'') ''servers'') (safe_id node_id @ ''.pub'')"

definition client_key_path :: "state_config \<Rightarrow> string \<Rightarrow> path" where
  "client_key_path st node_id =
     join_name (join_name (join_name (root st) ''trust'') ''clients'') (safe_id node_id @ ''.pub'')"

section \<open>Operations\<close>

definition write_public_key :: "'k ssh_keys \<Rightarrow> path \<Rightarrow> 'k \<Rightarrow> (disk, storage_error, unit) op" where
  "write_public_key ks p key =
     (case to_openssh ks key of
        Inl e \<Rightarrow> failS (PublicKeyFormat e)
      | Inr content \<Rightarrow> atomic_write_secure p content)"

text \<open>\<^verbatim>\<open>PublicKey::read_openssh_file\<close>: the text of the file, parsed.\<close>

definition read_openssh_file :: "'k ssh_keys \<Rightarrow> disk \<Rightarrow> path \<Rightarrow> foreign_error + 'k" where
  "read_openssh_file ks d p =
     and_then (map_err (\<lambda>_. ForeignError ''io'') (fs_read_to_string d p)) (from_openssh ks)"

definition load_key_at :: "'k ssh_keys \<Rightarrow> disk \<Rightarrow> path \<Rightarrow> storage_error + 'k option" where
  "load_key_at ks d p =
     (if path_exists d p
      then and_then (map_err (PublicKeyRead p) (read_openssh_file ks d p)) (\<lambda>k. Inr (Some k))
      else Inr None)"

definition load_known_server :: "'k ssh_keys \<Rightarrow> state_config \<Rightarrow> disk \<Rightarrow> string \<Rightarrow> storage_error + 'k option" where
  "load_known_server ks st d node_id = load_key_at ks d (server_key_path st node_id)"

definition load_authorized_client ::
  "'k ssh_keys \<Rightarrow> state_config \<Rightarrow> disk \<Rightarrow> string \<Rightarrow> storage_error + 'k option" where
  "load_authorized_client ks st d node_id = load_key_at ks d (client_key_path st node_id)"

fun collect_clients ::
  "'k ssh_keys \<Rightarrow> disk \<Rightarrow> path \<Rightarrow> string list \<Rightarrow> storage_error + (string \<times> 'k) list" where
  "collect_clients ks d dir [] = Inr []"
| "collect_clients ks d dir (f # fs) =
     (if faults d (CallDirEntry (dir @ [Normal f])) then Inl (DirectoryEntryRead dir IoOther)
      else and_then (collect_clients ks d dir fs) (\<lambda>rest.
        Inr ((if name_extension f = Some ''pub''
              then case read_openssh_file ks d (dir @ [Normal f]) of
                     Inr key \<Rightarrow> [(name_stem f, key)]
                   | Inl _ \<Rightarrow> []
              else []) @ rest)))"

definition load_all_authorized_clients ::
  "'k ssh_keys \<Rightarrow> state_config \<Rightarrow> disk \<Rightarrow> storage_error + (string \<times> 'k) list" where
  "load_all_authorized_clients ks st d =
     (let clients_dir = join_name (join_name (root st) ''trust'') ''clients'' in
      if path_exists d clients_dir
      then and_then (map_err (DirectoryRead clients_dir) (fs_read_dir d clients_dir))
             (collect_clients ks d clients_dir)
      else Inr [])"

definition write_known_server ::
  "'k ssh_keys \<Rightarrow> state_config \<Rightarrow> string \<Rightarrow> 'k \<Rightarrow> (disk, storage_error, trust_event) op" where
  "write_known_server ks st node_id key =
     bindS (ensure_trust_dirs st) (\<lambda>_.
     bindS (write_public_key ks (server_key_path st node_id) key) (\<lambda>_.
     retS \<lparr>kind = ServerKeyLearned, event_path = server_key_path st node_id\<rparr>))"

definition write_authorized_client ::
  "'k ssh_keys \<Rightarrow> state_config \<Rightarrow> string \<Rightarrow> 'k \<Rightarrow> (disk, storage_error, trust_event) op" where
  "write_authorized_client ks st node_id key =
     bindS (ensure_trust_dirs st) (\<lambda>_.
     bindS (write_public_key ks (client_key_path st node_id) key) (\<lambda>_.
     retS \<lparr>kind = ClientKeyAuthorized, event_path = client_key_path st node_id\<rparr>))"

definition reset_known_server :: "state_config \<Rightarrow> string \<Rightarrow> (disk, storage_error, bool) op" where
  "reset_known_server st node_id = remove_if_exists (server_key_path st node_id)"

definition reset_authorized_client :: "state_config \<Rightarrow> string \<Rightarrow> (disk, storage_error, bool) op" where
  "reset_authorized_client st node_id = remove_if_exists (client_key_path st node_id)"

definition inspect_public_key_record :: "'k ssh_keys \<Rightarrow> disk \<Rightarrow> path \<Rightarrow> storage_error + trust_record" where
  "inspect_public_key_record ks d p =
     (if \<not> path_exists d p
      then Inr \<lparr>record_exists = False, record_path = p, public_key_openssh = None\<rparr>
      else and_then (map_err (PublicKeyRead p) (read_openssh_file ks d p)) (\<lambda>key.
           and_then (map_err PublicKeyFormat (to_openssh ks key)) (\<lambda>text.
           Inr \<lparr>record_exists = True, record_path = p, public_key_openssh = Some text\<rparr>)))"

fun collect_records ::
  "'k ssh_keys \<Rightarrow> disk \<Rightarrow> path \<Rightarrow> string list \<Rightarrow> storage_error + trust_record list" where
  "collect_records ks d dir [] = Inr []"
| "collect_records ks d dir (f # fs) =
     (if faults d (CallDirEntry (dir @ [Normal f])) then Inl (DirectoryEntryRead dir IoOther)
      else if name_extension f = Some ''pub''
      then and_then (inspect_public_key_record ks d (dir @ [Normal f])) (\<lambda>r.
           and_then (collect_records ks d dir fs) (\<lambda>rs. Inr (r # rs)))
      else collect_records ks d dir fs)"

definition read_trust_dir :: "'k ssh_keys \<Rightarrow> disk \<Rightarrow> path \<Rightarrow> storage_error + trust_record list" where
  "read_trust_dir ks d dir =
     (if \<not> path_exists d dir then Inr []
      else and_then (map_err (DirectoryRead dir) (fs_read_dir d dir)) (collect_records ks d dir))"

definition inspect_trust :: "'k ssh_keys \<Rightarrow> state_config \<Rightarrow> disk \<Rightarrow> storage_error + trust_summary" where
  "inspect_trust ks st d =
     (let servers_dir = join_name (join_name (root st) ''trust'') ''servers'';
          clients_dir = join_name (join_name (root st) ''trust'') ''clients''
      in and_then (read_trust_dir ks d servers_dir) (\<lambda>servers.
         and_then (read_trust_dir ks d clients_dir) (\<lambda>clients.
         Inr \<lparr>known_servers = servers, authorized_clients = clients\<rparr>)))"

section \<open>Paths of the records\<close>

abbreviation clients_dir :: "state_config \<Rightarrow> path" where
  "clients_dir st \<equiv> root st @ [Normal ''trust'', Normal ''clients'']"

abbreviation servers_dir :: "state_config \<Rightarrow> path" where
  "servers_dir st \<equiv> root st @ [Normal ''trust'', Normal ''servers'']"

lemma join_proper: "proper_name n \<Longrightarrow> join_name p n = p @ [Normal n]"
  by (simp add: components_proper path_join_def)

lemma proper_literals [simp]:
  "proper_name ''trust''" "proper_name ''servers''" "proper_name ''clients''"
  by (simp_all add: proper_name_def)

lemma proper_pub: "proper_name (safe_id i @ ''.pub'')"
proof -
  have "CHR ''/'' \<notin> set (safe_id i)" by (auto simp: safe_id_def)
  moreover have "length (safe_id i @ ''.pub'') > 2" by simp
  then have "safe_id i @ ''.pub'' \<noteq> ''.''" "safe_id i @ ''.pub'' \<noteq> ''..''" by force+
  ultimately show ?thesis by (simp add: proper_name_def)
qed

lemma trust_dirs_eq:
  "join_name (join_name (root st) ''trust'') ''clients'' = clients_dir st"
  "join_name (join_name (root st) ''trust'') ''servers'' = servers_dir st"
  by (simp_all add: join_proper)

lemma key_paths_eq:
  "client_key_path st i = clients_dir st @ [Normal (safe_id i @ ''.pub'')]"
  "server_key_path st i = servers_dir st @ [Normal (safe_id i @ ''.pub'')]"
  unfolding client_key_path_def server_key_path_def trust_dirs_eq
  by (simp_all only: join_proper [OF proper_pub])

lemma key_path_inj:
  "client_key_path st i = client_key_path st j \<longleftrightarrow> safe_id i = safe_id j"
  "server_key_path st i = server_key_path st j \<longleftrightarrow> safe_id i = safe_id j"
  "client_key_path st i \<noteq> server_key_path st j"
  by (simp_all add: key_paths_eq)

text \<open>An identifier without the replaced characters is its own file name.\<close>

lemma safe_id_fixed: "set i \<inter> {CHR ''/'', CHR 0x5C, CHR ''.'', CHR '':''} = {} \<Longrightarrow> safe_id i = i"
  by (auto simp: safe_id_def intro!: map_idI)

lemma safe_id_empty_iff [simp]: "safe_id i = [] \<longleftrightarrow> i = []"
  by (simp add: safe_id_def)

lemma safe_id_idem [simp]: "safe_id (safe_id i) = safe_id i"
  by (simp add: safe_id_def)

text \<open>A SHA-256 fingerprint: its label and base64 text.\<close>

definition is_base64 :: "char \<Rightarrow> bool" where
  "is_base64 c \<longleftrightarrow>
     c \<in> set ''ABCDEFGHIJKLMNOPQRSTUVWXYZabcdefghijklmnopqrstuvwxyz0123456789+/=''"

lemma is_base64_plain: "is_base64 c \<Longrightarrow> c \<notin> {CHR ''_'', CHR 0x5C, CHR ''.'', CHR '':''}"
  by (auto simp: is_base64_def)

definition is_fingerprint :: "string \<Rightarrow> bool" where
  "is_fingerprint f \<longleftrightarrow> take 7 f = ''SHA256:'' \<and> list_all is_base64 (drop 7 f)"

lemma safe_id_inj_base64:
  "list_all is_base64 a \<Longrightarrow> list_all is_base64 b \<Longrightarrow> safe_id a = safe_id b \<Longrightarrow> a = b"
proof (induction a arbitrary: b)
  case (Cons x a)
  then obtain y b' where "b = y # b'" by (cases b) (auto simp: safe_id_def)
  with Cons show ?case by (auto simp: safe_id_def dest!: is_base64_plain split: if_splits)
qed (auto simp: safe_id_def)

lemma safe_id_append: "safe_id (a @ b) = safe_id a @ safe_id b"
  by (simp add: safe_id_def)

lemma safe_id_inj:
  assumes "is_fingerprint a" and "is_fingerprint b" and "safe_id a = safe_id b"
  shows "a = b"
proof -
  have a: "a = ''SHA256:'' @ drop 7 a" and b: "b = ''SHA256:'' @ drop 7 b"
    using assms(1,2) by (metis append_take_drop_id is_fingerprint_def)+
  have "safe_id (''SHA256:'' @ drop 7 a) = safe_id (''SHA256:'' @ drop 7 b)" using assms(3) a b by simp
  then have "safe_id (drop 7 a) = safe_id (drop 7 b)" by (simp only: safe_id_append same_append_eq)
  then have "drop 7 a = drop 7 b" using assms(1,2) safe_id_inj_base64 by (simp add: is_fingerprint_def)
  then show ?thesis using a b by metis
qed

section \<open>The stores keep their contract\<close>

definition key_storable :: "'k ssh_keys \<Rightarrow> 'k \<Rightarrow> bool" where
  "key_storable ks k = (case to_openssh ks k of
      Inl _ \<Rightarrow> True | Inr text \<Rightarrow> utf8_valid text \<and> from_openssh ks text = Inr k)"

lemma ensure_trust_dirs_facts:
  assumes "ensure_trust_dirs st d = (r, d')"
  shows "faults d' = faults d" and "length (root st) + 2 < length q \<Longrightarrow> lookup d' q = lookup d q"
proof -
  let ?S = "{q. length q \<le> length (root st) + 2}"
  have t: "only ?S (ensure_dir_secure_tighten p)" if "length p \<le> length (root st) + 2" for p
    by (rule only_mono [OF only_ensure_dir_tighten]) (use that in \<open>auto dest: ancestors_shorter\<close>)
  have only: "only ?S (ensure_trust_dirs st)"
    unfolding ensure_trust_dirs_def Let_def
    by (intro only_bindS t) (simp_all add: join_proper)
  show "faults d' = faults d" using onlyD(2) [OF only assms] .
  show "lookup d' q = lookup d q" if "length (root st) + 2 < length q"
    using onlyD(1) [OF only assms, of q] that by simp
qed

text \<open>Writing a key file after the directories, as both writers do.\<close>

lemma write_key_facts:
  assumes "bindS (ensure_trust_dirs st) (\<lambda>_. bindS (write_public_key ks (dir @ [Normal (n @ ''.pub'')]) k)
      (\<lambda>_. retS ev)) d = (r, d')"
    and "proper_name (n @ ''.pub'')" and "length dir = length (root st) + 2"
  shows "faults d' = faults d"
    and "r = Inl e \<Longrightarrow> lookup d' (dir @ [Normal (n @ ''.pub'')]) = lookup d (dir @ [Normal (n @ ''.pub'')])"
    and "r = Inr x \<Longrightarrow> \<exists>content m. to_openssh ks k = Inr content
           \<and> lookup d' (dir @ [Normal (n @ ''.pub'')]) = Some (File content m)"
    and "length q = length (root st) + 3 \<Longrightarrow> q \<noteq> dir @ [Normal (n @ ''.pub'')]
           \<Longrightarrow> (\<And>f. last q = Normal f \<Longrightarrow> last f \<noteq> CHR ''p'') \<Longrightarrow> lookup d' q = lookup d q"
proof -
  let ?p = "dir @ [Normal (n @ ''.pub'')]"
  note dirs = ensure_trust_dirs_facts
  consider e' where "ensure_trust_dirs st d = (Inl e', d')" "r = Inl e'"
    | d1 e' where "ensure_trust_dirs st d = (Inr (), d1)" "to_openssh ks k = Inl e'" "r = Inl (PublicKeyFormat e')" "d' = d1"
    | d1 content e' where "ensure_trust_dirs st d = (Inr (), d1)" "to_openssh ks k = Inr content"
        "atomic_write_secure ?p content d1 = (Inl e', d')" "r = Inl e'"
    | d1 content where "ensure_trust_dirs st d = (Inr (), d1)" "to_openssh ks k = Inr content"
        "atomic_write_secure ?p content d1 = (Inr (), d')" "r = Inr ev"
    using assms(1) by (cases "to_openssh ks k") (auto simp: bindS_eq_iff write_public_key_def)
  note cases = this
  show "faults d' = faults d"
    using cases by cases (use dirs(1) atomic_write_faults assms(2) in auto)
  show "r = Inl e \<Longrightarrow> lookup d' ?p = lookup d ?p"
    using cases by cases (use dirs(2) [of st d _ _ ?p] atomic_write_fails assms(2,3) in auto)
  show "r = Inr x \<Longrightarrow> \<exists>content m. to_openssh ks k = Inr content \<and> lookup d' ?p = Some (File content m)"
    using cases by cases (use atomic_write_stores assms(2) in blast)+
  show "length q = length (root st) + 3 \<Longrightarrow> q \<noteq> ?p \<Longrightarrow> (\<And>f. last q = Normal f \<Longrightarrow> last f \<noteq> CHR ''p'')
      \<Longrightarrow> lookup d' q = lookup d q"
    using cases by cases (use dirs(2) [of st d _ _ q] atomic_write_other [of dir "n @ ''.pub''" _ _ _ _ q] assms(2,3)
      in auto)
qed

lemma load_key_at_local:
  "lookup d' p = lookup d p \<Longrightarrow> faults d' = faults d \<Longrightarrow> load_key_at ks d' p = load_key_at ks d p"
  by (simp add: load_key_at_def path_exists_def read_openssh_file_def fs_read_to_string_def fs_read_def)

lemma load_key_at_absent: "lookup d p = None \<Longrightarrow> load_key_at ks d p = Inr None"
  by (simp add: load_key_at_def path_exists_def)

lemma load_key_at_file:
  "lookup d p = Some (File content m) \<Longrightarrow> reads_ok d \<Longrightarrow> to_openssh ks k = Inr content \<Longrightarrow> key_storable ks k
     \<Longrightarrow> load_key_at ks d p = Inr (Some k)"
  by (simp add: load_key_at_def path_exists_def read_openssh_file_def fs_read_to_string_def fs_read_def
      reads_ok_def key_storable_def)

lemma write_key_loads:
  assumes "bindS (ensure_trust_dirs st) (\<lambda>_. bindS (write_public_key ks (dir @ [Normal (n @ ''.pub'')]) k)
      (\<lambda>_. retS ev)) d = (Inr x, d')"
    and "proper_name (n @ ''.pub'')" and "length dir = length (root st) + 2"
    and "key_storable ks k" and "reads_ok d"
  shows "load_key_at ks d' (dir @ [Normal (n @ ''.pub'')]) = Inr (Some k)"
proof -
  obtain content m where c: "to_openssh ks k = Inr content"
      "lookup d' (dir @ [Normal (n @ ''.pub'')]) = Some (File content m)"
    using write_key_facts(3) [OF assms(1-3) refl] by blast
  have "reads_ok d'" using assms(5) write_key_facts(1) [OF assms(1-3)] by (simp add: reads_ok_def)
  then show ?thesis by (rule load_key_at_file [OF c(2) _ c(1) assms(4)])
qed

lemmas client_store_defs = load_authorized_client_def reset_authorized_client_def write_authorized_client_def
  key_paths_eq(1)
lemmas server_store_defs = load_known_server_def reset_known_server_def write_known_server_def key_paths_eq(2)
lemmas pub_facts = write_key_loads [OF _ proper_pub] write_key_facts(2) [OF _ proper_pub _ refl]
  write_key_facts(4) [OF _ proper_pub] write_key_facts(1) [OF _ proper_pub]

interpretation clients: record_store "write_authorized_client ks st" "load_authorized_client ks st"
  "reset_authorized_client st" "client_key_path st" "\<lambda>_. True" "\<lambda>_. key_storable ks" for ks st
proof (unfold_locales, goal_cases)
  case (4 i v d x d')
  then show ?case unfolding client_store_defs by (intro pub_facts(1) [OF 4(1) [unfolded client_store_defs]]) simp_all
next
  case (5 i v d e d')
  then show ?case unfolding client_store_defs by (intro pub_facts(2) [OF 5(1) [unfolded client_store_defs]]) simp_all
next
  case (6 i v d r d' j)
  show ?case unfolding client_store_defs
    by (rule pub_facts(3) [OF 6(1) [unfolded client_store_defs]]) (use 6(4) in \<open>auto simp: client_store_defs\<close>)
next
  case (7 i v d r d')
  then show ?case unfolding client_store_defs by (intro pub_facts(4) [OF 7(1) [unfolded client_store_defs]]) simp_all
next
  case (8 i d b d') then show ?case unfolding client_store_defs by (rule remove_if_exists_ok)
next
  case (9 i d e d') then show ?case using remove_if_exists_err unfolding client_store_defs by blast
next
  case (10 i d r d' q)
  then show ?case using onlyD(1) [OF remove_if_exists_only, of _ d r d' q] unfolding client_store_defs by blast
next
  case (11 i d r d') then show ?case using onlyD(2) [OF remove_if_exists_only] unfolding client_store_defs by blast
qed (unfold client_store_defs, rule load_key_at_local, simp_all add: load_key_at_absent)

interpretation servers: record_store "write_known_server ks st" "load_known_server ks st"
  "reset_known_server st" "server_key_path st" "\<lambda>_. True" "\<lambda>_. key_storable ks" for ks st
proof (unfold_locales, goal_cases)
  case (4 i v d x d')
  then show ?case unfolding server_store_defs by (intro pub_facts(1) [OF 4(1) [unfolded server_store_defs]]) simp_all
next
  case (5 i v d e d')
  then show ?case unfolding server_store_defs by (intro pub_facts(2) [OF 5(1) [unfolded server_store_defs]]) simp_all
next
  case (6 i v d r d' j)
  show ?case unfolding server_store_defs
    by (rule pub_facts(3) [OF 6(1) [unfolded server_store_defs]]) (use 6(4) in \<open>auto simp: server_store_defs\<close>)
next
  case (7 i v d r d')
  then show ?case unfolding server_store_defs by (intro pub_facts(4) [OF 7(1) [unfolded server_store_defs]]) simp_all
next
  case (8 i d b d') then show ?case unfolding server_store_defs by (rule remove_if_exists_ok)
next
  case (9 i d e d') then show ?case using remove_if_exists_err unfolding server_store_defs by blast
next
  case (10 i d r d' q)
  then show ?case using onlyD(1) [OF remove_if_exists_only, of _ d r d' q] unfolding server_store_defs by blast
next
  case (11 i d r d') then show ?case using onlyD(2) [OF remove_if_exists_only] unfolding server_store_defs by blast
qed (unfold server_store_defs, rule load_key_at_local, simp_all add: load_key_at_absent)

section \<open>Listing the vault\<close>

lemma child_names_iff: "f \<in> set (child_names d p) \<longleftrightarrow> lookup d (p @ [Normal f]) \<noteq> None"
proof -
  let ?g = "\<lambda>q. if q \<noteq> [] \<and> butlast q = p then (case last q of Normal f \<Rightarrow> Some f | _ \<Rightarrow> None) else None"
  have "?g q = Some f \<longleftrightarrow> q = p @ [Normal f]" for q :: path
    by (cases q rule: rev_cases) (auto split: component.splits)
  moreover have "f \<in> set (child_names d p) \<longleftrightarrow> (\<exists>(q, n) \<in> set (nodes d). ?g q = Some f)"
    unfolding child_names_def set_map_filter by (auto simp: case_prod_beta)
  ultimately have "f \<in> set (child_names d p) \<longleftrightarrow> (\<exists>(q, n) \<in> set (nodes d). q = p @ [Normal f])" by simp
  then show ?thesis by (force simp: lookup_def map_of_eq_None_iff)
qed

lemma rsplit_dotted_inv:
  assumes "rsplit_file_at_dot f = (Some b, Some e)"
  shows "f = b @ CHR ''.'' # e \<and> b \<noteq> []"
proof -
  define r where "r = dropWhile (\<lambda>c. c \<noteq> CHR ''.'') (rev f)"
  have e: "e = rev (takeWhile (\<lambda>c. c \<noteq> CHR ''.'') (rev f))" and b: "b = rev (tl r)" and r: "r \<noteq> []" "tl r \<noteq> []"
    using assms by (auto simp: rsplit_file_at_dot_def Let_def r_def split: if_splits)
  have "hd r = CHR ''.''" using r hd_dropWhile unfolding r_def by blast
  then have "r = CHR ''.'' # rev b" using r b by (cases r) auto
  moreover have "rev e @ r = rev f" unfolding e r_def by simp
  ultimately have "rev f = rev e @ CHR ''.'' # rev b" by simp
  then have "rev (rev f) = b @ CHR ''.'' # e" by simp
  then show ?thesis using r b by simp
qed

lemma pub_file_name: "name_extension f = Some ''pub'' \<and> name_stem f = n \<longleftrightarrow> f = n @ ''.pub'' \<and> n \<noteq> []"
proof
  assume "name_extension f = Some ''pub'' \<and> name_stem f = n"
  then have "rsplit_file_at_dot f = (Some n, Some ''pub'')"
    by (auto simp: name_extension_def name_stem_def split: prod.splits option.splits)
  then show "f = n @ ''.pub'' \<and> n \<noteq> []" using rsplit_dotted_inv by fastforce
next
  assume "f = n @ ''.pub'' \<and> n \<noteq> []"
  then show "name_extension f = Some ''pub'' \<and> name_stem f = n"
    using rsplit_dotted [of n "''pub''"] by (simp add: name_extension_def name_stem_def)
qed

lemma collect_clients_iff:
  "collect_clients ks d dir fs = Inr l \<Longrightarrow> (n, k) \<in> set l \<longleftrightarrow>
     (\<exists>f. f \<in> set fs \<and> name_extension f = Some ''pub'' \<and> name_stem f = n \<and> read_openssh_file ks d (dir @ [Normal f]) = Inr k)"
proof (induction fs arbitrary: l)
  case (Cons f fs)
  obtain rest where rest: "collect_clients ks d dir fs = Inr rest"
    using Cons.prems by (cases "collect_clients ks d dir fs") (auto simp: and_then_def split: if_splits)
  have l: "l = (if name_extension f = Some ''pub''
          then case read_openssh_file ks d (dir @ [Normal f]) of Inr key \<Rightarrow> [(name_stem f, key)] | Inl _ \<Rightarrow> []
          else []) @ rest"
    using Cons.prems rest by (auto simp: and_then_def split: if_splits)
  have "(n, k) \<in> set (if name_extension f = Some ''pub''
          then case read_openssh_file ks d (dir @ [Normal f]) of Inr key \<Rightarrow> [(name_stem f, key)] | Inl _ \<Rightarrow> []
          else []) \<longleftrightarrow>
      name_extension f = Some ''pub'' \<and> name_stem f = n \<and> read_openssh_file ks d (dir @ [Normal f]) = Inr k"
    by (cases "read_openssh_file ks d (dir @ [Normal f])"; cases "name_extension f = Some ''pub''") auto
  then show ?case using Cons.IH [OF rest] unfolding l set_append Un_iff list.set(2) insert_iff by blast
qed simp

lemma listing_iff:
  assumes "load_all_authorized_clients ks st d = Inr l" and "path_exists d (clients_dir st)"
  shows "(n, k) \<in> set l \<longleftrightarrow>
    n \<noteq> [] \<and> read_openssh_file ks d (clients_dir st @ [Normal (n @ ''.pub'')]) = Inr k"
proof -
  have "collect_clients ks d (clients_dir st) (child_names d (clients_dir st)) = Inr l"
    using assms unfolding load_all_authorized_clients_def Let_def trust_dirs_eq
    by (auto simp: fs_read_dir_def and_then_def split: if_splits)
  note * = collect_clients_iff [OF this, of n k]
  have present: "lookup d (clients_dir st @ [Normal f]) \<noteq> None"
    if "read_openssh_file ks d (clients_dir st @ [Normal f]) = Inr k" for f
    using that by (auto simp: read_openssh_file_def fs_read_to_string_def fs_read_def and_then_def split: if_splits option.splits)
  show ?thesis
  proof
    assume "(n, k) \<in> set l"
    then obtain f where "name_extension f = Some ''pub'' \<and> name_stem f = n"
      "read_openssh_file ks d (clients_dir st @ [Normal f]) = Inr k" using * by blast
    then show "n \<noteq> [] \<and> read_openssh_file ks d (clients_dir st @ [Normal (n @ ''.pub'')]) = Inr k"
      unfolding pub_file_name by blast
  next
    assume r: "n \<noteq> [] \<and> read_openssh_file ks d (clients_dir st @ [Normal (n @ ''.pub'')]) = Inr k"
    then have "n @ ''.pub'' \<in> set (child_names d (clients_dir st))" using present unfolding child_names_iff by blast
    then show "(n, k) \<in> set l" using r * pub_file_name [of "n @ ''.pub''" n] by blast
  qed
qed

section \<open>Properties\<close>

lemma written_client_readable:
  assumes "write_authorized_client ks st i k d = (Inr x, d')" and "key_storable ks k" and "reads_ok d"
  shows "read_openssh_file ks d' (clients_dir st @ [Normal (safe_id i @ ''.pub'')]) = Inr k"
    and "path_exists d' (client_key_path st i)"
proof -
  have l: "load_key_at ks d' (client_key_path st i) = Inr (Some k)"
    using clients.save_ok [OF assms(1) TrueI assms(2,3)] by (simp add: load_authorized_client_def)
  show "path_exists d' (client_key_path st i)"
    using l by (auto simp: load_key_at_def split: if_splits)
  show "read_openssh_file ks d' (clients_dir st @ [Normal (safe_id i @ ''.pub'')]) = Inr k"
    using l by (cases "read_openssh_file ks d' (client_key_path st i)")
      (auto simp: load_key_at_def key_paths_eq and_then_def split: if_splits)
qed

text \<open>
  C16. The authorized clients are a map: after any sequence of authorizations and revocations, in
  which any write may fail, looking up a client gives the key of its last authorization that
  returned \<^verbatim>\<open>Ok\<close> and was not followed by a revocation that did, or what was there before.
\<close>

theorem authorized_clients_are_a_map:
  assumes "run_store (write_authorized_client ks st) (reset_authorized_client st) cs d = (oks, d')"
    and "reads_ok d" and "\<forall>c \<in> set cs. cmd_storable (\<lambda>_. key_storable ks) c"
    and "load_authorized_client ks st d j = Inr (m (client_key_path st j))"
  shows "load_authorized_client ks st d' j = Inr (run_map (client_key_path st) cs oks m (client_key_path st j))"
  using clients.store_is_map [OF assms(1,2)] assms(3,4) by simp

text \<open>Keys that are their own text, and a state directory on the sample disk.\<close>

definition sample_keys :: "string ssh_keys" where
  "sample_keys = \<lparr>to_openssh = Inr, from_openssh = Inr, fingerprint = (\<lambda>k. ''SHA256:'' @ k)\<rparr>"

definition sample_state :: state_config where
  "sample_state = \<lparr>root = [RootDir, Normal ''s'']\<rparr>"

lemma sample_disk_reads [simp]: "reads_ok sample_disk" "faults sample_disk = (\<lambda>_. False)"
  by (simp_all add: reads_ok_def sample_disk_def)

lemma sample_vault_empty: "load_authorized_client sample_keys sample_state sample_disk ''SHA256:x'' = Inr None"
  unfolding load_authorized_client_def
  by (rule load_key_at_absent) (simp add: key_paths_eq sample_state_def lookup_def sample_disk_def)

theorem authorized_clients_are_a_map_witness:
  "\<exists>oks d'. run_store (write_authorized_client sample_keys sample_state) (reset_authorized_client sample_state)
        [Save ''SHA256:x'' ''k1'', Save ''SHA256:y'' ''k2'', Delete ''SHA256:x''] sample_disk = (oks, d')
     \<and> load_authorized_client sample_keys sample_state d' ''SHA256:x'' =
          Inr (run_map (client_key_path sample_state)
             [Save ''SHA256:x'' ''k1'', Save ''SHA256:y'' ''k2'', Delete ''SHA256:x''] oks (\<lambda>_. None)
             (client_key_path sample_state ''SHA256:x''))"
proof -
  let ?cs = "[Save ''SHA256:x'' ''k1'', Save ''SHA256:y'' ''k2'', Delete ''SHA256:x'']"
  obtain oks d' where run: "run_store (write_authorized_client sample_keys sample_state)
      (reset_authorized_client sample_state) ?cs sample_disk = (oks, d')"
    by (rule prod.exhaust)
  have "\<forall>c \<in> set ?cs. cmd_storable (\<lambda>_. key_storable sample_keys) c"
    by (simp add: key_storable_def sample_keys_def)
  then show ?thesis
    using authorized_clients_are_a_map [OF run sample_disk_reads(1) _ sample_vault_empty] run by blast
qed

text \<open>
  Authorizing and revoking clients, with whatever faults, never changes a pinned server key:
  the answer for every server, errors included, is the one before.
\<close>

theorem pinned_servers_survive_client_commands:
  "load_known_server ks st (snd (run_store (write_authorized_client ks st) (reset_authorized_client st) cs d)) j
     = load_known_server ks st d j"
proof -
  let ?P = "\<lambda>d'. lookup d' (server_key_path st j) = lookup d (server_key_path st j) \<and> faults d' = faults d"
  have "?P (snd (run_store (write_authorized_client ks st) (reset_authorized_client st) cs d))"
  proof (rule run_store_keeps)
    fix i k d1
    assume P: "?P d1"
    obtain r d2 where run: "write_authorized_client ks st i k d1 = (r, d2)" by (rule prod.exhaust)
    then show "?P (snd (write_authorized_client ks st i k d1))"
      using write_key_facts(4) [OF run [unfolded client_store_defs] proper_pub, of "server_key_path st j"]
        clients.save_faults [OF run] P by (simp add: key_paths_eq)
  next
    fix i d1
    assume P: "?P d1"
    obtain r d2 where run: "reset_authorized_client st i d1 = (r, d2)" by (rule prod.exhaust)
    then show "?P (snd (reset_authorized_client st i d1))"
      using clients.delete_frame [OF run, of "server_key_path st j"] clients.delete_faults [OF run] P key_path_inj(3) [of st i j]
      by auto
  qed simp
  then show ?thesis unfolding load_known_server_def by (intro load_key_at_local) simp_all
qed

text \<open>
  The vault listing follows the writes: after a successful authorization of \<open>i\<close> every listing
  that succeeds has the new key under the name of \<open>i\<close> and no other key there, and after a
  successful revocation, also one by the listed name, it has none.
\<close>

theorem vault_listing_follows:
  assumes "reads_ok d" and "key_storable ks k" and "i \<noteq> []"
  shows "(\<forall>x d' l k'. write_authorized_client ks st i k d = (Inr x, d')
            \<and> load_all_authorized_clients ks st d' = Inr l \<and> path_exists d' (clients_dir st) \<longrightarrow>
            ((safe_id i, k') \<in> set l \<longleftrightarrow> k' = k))
       \<and> (\<forall>b d' l k'. reset_authorized_client st (safe_id i) d = (Inr b, d')
            \<and> load_all_authorized_clients ks st d' = Inr l \<longrightarrow> (safe_id i, k') \<notin> set l)"
proof (intro conjI allI impI; elim conjE)
  fix x d' l k'
  assume "write_authorized_client ks st i k d = (Inr x, d')" "load_all_authorized_clients ks st d' = Inr l"
    "path_exists d' (clients_dir st)"
  then show "(safe_id i, k') \<in> set l \<longleftrightarrow> k' = k"
    using listing_iff [of ks st d' l "safe_id i" k'] written_client_readable(1) [of ks st i k d x d'] assms
    by auto
next
  fix b d' l k'
  assume del: "reset_authorized_client st (safe_id i) d = (Inr b, d')"
    and l: "load_all_authorized_clients ks st d' = Inr l"
  show "(safe_id i, k') \<notin> set l"
  proof (cases "path_exists d' (clients_dir st)")
    case True
    have "lookup d' (client_key_path st i) = None"
      using clients.delete_ok [OF del] by (simp add: client_key_path_def)
    then have "read_openssh_file ks d' (clients_dir st @ [Normal (safe_id i @ ''.pub'')]) \<noteq> Inr k'"
      by (auto simp: read_openssh_file_def fs_read_to_string_def fs_read_def and_then_def key_paths_eq)
    then show ?thesis using listing_iff [OF l True] by blast
  next
    case False
    then show ?thesis using l unfolding load_all_authorized_clients_def Let_def trust_dirs_eq by auto
  qed
qed

definition sample_vault_disk :: disk where
  "sample_vault_disk = snd (write_authorized_client sample_keys sample_state ''SHA256:x'' ''k'' sample_disk)"

lemma sample_vault:
  "\<not> isl (fst (write_authorized_client sample_keys sample_state ''SHA256:x'' ''k'' sample_disk))"
  "\<not> isl (load_all_authorized_clients sample_keys sample_state sample_vault_disk)"
  "path_exists sample_vault_disk (clients_dir sample_state)"
  by code_simp+

theorem vault_listing_follows_witness:
  "\<exists>l. load_all_authorized_clients sample_keys sample_state sample_vault_disk = Inr l
     \<and> (safe_id ''SHA256:x'', ''k'') \<in> set l \<and> (safe_id ''SHA256:x'', ''other'') \<notin> set l"
proof -
  obtain x where w: "write_authorized_client sample_keys sample_state ''SHA256:x'' ''k'' sample_disk = (Inr x, sample_vault_disk)"
    using sample_vault(1) unfolding sample_vault_disk_def by (metis isl_def prod.collapse sum.collapse(2))
  obtain l where l: "load_all_authorized_clients sample_keys sample_state sample_vault_disk = Inr l"
    using sample_vault(2) by (metis sum.collapse(2))
  have "key_storable sample_keys ''k''" by (simp add: key_storable_def sample_keys_def)
  then have "(safe_id ''SHA256:x'', k') \<in> set l \<longleftrightarrow> k' = ''k''" for k'
    using vault_listing_follows [of sample_disk sample_keys "''k''" "''SHA256:x''" sample_state] w l sample_vault(3) by simp
  then show ?thesis using l by simp
qed

text \<open>
  Two fingerprints never share a trust file, although four characters are replaced in its name.
\<close>

theorem fingerprints_have_own_files:
  assumes "is_fingerprint a" and "is_fingerprint b" and "a \<noteq> b"
  shows "client_key_path st a \<noteq> client_key_path st b \<and> server_key_path st a \<noteq> server_key_path st b"
  using assms safe_id_inj by (auto simp: key_path_inj)

theorem fingerprints_have_own_files_witness:
  "client_key_path sample_state ''SHA256:a/b'' \<noteq> client_key_path sample_state ''SHA256:a+b''"
  using fingerprints_have_own_files [of "''SHA256:a/b''" "''SHA256:a+b''"]
  by (simp add: is_fingerprint_def is_base64_def)

end
