(* ===== verification/Peer_Store.thy ===== *)
theory Peer_Store
  imports Trust_Store
begin

text \<open>
  \<^verbatim>\<open>src/storage/peers.rs\<close>: named peer profiles, one JSON file per name below \<^verbatim>\<open>peers\<close>.  The
  ticket of a profile is a type parameter, its JSON codec a parameter of every operation.
\<close>

section \<open>Profiles and names\<close>

record 't peer_profile =
  name :: string
  ticket :: 't

definition peer_profile_new :: "string \<Rightarrow> 't \<Rightarrow> 't peer_profile" where
  "peer_profile_new n t = \<lparr>name = n, ticket = t\<rparr>"

definition MAX_NAME_LEN :: nat where "MAX_NAME_LEN = 128"

definition RESERVED_NAMES :: "string list" where
  "RESERVED_NAMES =
     [''con'', ''prn'', ''aux'', ''nul'', ''com1'', ''com2'', ''com3'', ''com4'', ''com5'', ''com6'', ''com7'', ''com8'',
      ''com9'', ''lpt1'', ''lpt2'', ''lpt3'', ''lpt4'', ''lpt5'', ''lpt6'', ''lpt7'', ''lpt8'', ''lpt9'']"

text \<open>
  \<^verbatim>\<open>to_lowercase\<close>, as far as the comparison with the reserved names can tell: no character
  outside ASCII is mapped to one of their letters.
\<close>

definition to_lower :: "string \<Rightarrow> string" where
  "to_lower s = map (\<lambda>c. let n = (of_char c :: nat) in if 0x41 \<le> n \<and> n \<le> 0x5A then char_of (n + 32) else c) s"

definition validate_peer_name :: "string \<Rightarrow> storage_error + unit" where
  "validate_peer_name n =
     (if n = [] then Inl (PeerNameInvalid n)
      else if length n > MAX_NAME_LEN then Inl (PeerNameInvalid n)
      else if CHR 0x00 \<in> set n then Inl (PeerNameInvalid n)
      else if CHR ''/'' \<in> set n \<or> CHR 0x5C \<in> set n \<or> n = ''.'' \<or> n = ''..'' then Inl (PeerNameInvalid n)
      else if to_lower n \<in> set RESERVED_NAMES then Inl (PeerNameInvalid n)
      else Inr ())"

section \<open>Operations\<close>

definition ensure_peers_dir :: "state_config \<Rightarrow> (disk, storage_error, path) op" where
  "ensure_peers_dir st =
     bindS (ensure_dir_secure_tighten (root st)) (\<lambda>_.
     let p = join_name (root st) ''peers'' in
     bindS (ensure_dir_secure_tighten p) (\<lambda>_. retS p))"

definition peer_path :: "state_config \<Rightarrow> string \<Rightarrow> path" where
  "peer_path st n = join_name (join_name (root st) ''peers'') (n @ ''.json'')"

definition save_peer :: "'t peer_profile serde \<Rightarrow> state_config \<Rightarrow> 't peer_profile \<Rightarrow> (disk, storage_error, unit) op" where
  "save_peer J st profile =
     bindS (ensure_peers_dir st) (\<lambda>_.
     case validate_peer_name (name profile) of
       Inl e \<Rightarrow> failS e
     | Inr _ \<Rightarrow>
         (case ser J profile of
            Inl e \<Rightarrow> failS (PeerProfileSerialize e)
          | Inr json \<Rightarrow> atomic_write_secure (peer_path st (name profile)) (str_of_bytes json)))"

definition load_peer ::
  "'t peer_profile serde \<Rightarrow> state_config \<Rightarrow> disk \<Rightarrow> string \<Rightarrow> storage_error + 't peer_profile option" where
  "load_peer J st d n =
     (let p = peer_path st n in
      if \<not> path_exists d p then Inr None
      else and_then (map_err (FileRead p) (fs_read_to_string d p)) (\<lambda>json.
           and_then (map_err PeerProfileParse (de J (as_bytes json))) (\<lambda>profile. Inr (Some profile))))"

definition path_is_file :: "disk \<Rightarrow> path \<Rightarrow> bool" where
  "path_is_file d p \<longleftrightarrow> is_file_node (lookup d p) \<and> \<not> faults d (CallStat p)"

fun collect_peers ::
  "'t peer_profile serde \<Rightarrow> disk \<Rightarrow> path \<Rightarrow> string list \<Rightarrow> storage_error + 't peer_profile list" where
  "collect_peers J d dir [] = Inr []"
| "collect_peers J d dir (f # fs) =
     (let p = dir @ [Normal f] in
      if faults d (CallDirEntry p) then Inl (DirectoryEntryRead dir IoOther)
      else if path_is_file d p \<and> name_extension f = Some ''json''
      then and_then (map_err (FileRead p) (fs_read_to_string d p)) (\<lambda>json.
           and_then (collect_peers J d dir fs) (\<lambda>rest.
           Inr (case de J (as_bytes json) of Inr profile \<Rightarrow> profile # rest | Inl _ \<Rightarrow> rest)))
      else collect_peers J d dir fs)"

definition list_peers ::
  "'t peer_profile serde \<Rightarrow> state_config \<Rightarrow> (disk, storage_error, 't peer_profile list) op" where
  "list_peers J st =
     bindS (ensure_peers_dir st) (\<lambda>dir d.
       (and_then (map_err (DirectoryRead dir) (fs_read_dir d dir)) (collect_peers J d dir), d))"

definition delete_peer :: "state_config \<Rightarrow> string \<Rightarrow> (disk, storage_error, bool) op" where
  "delete_peer st n = remove_if_exists (peer_path st n)"

definition rename_peer ::
  "'t peer_profile serde \<Rightarrow> state_config \<Rightarrow> string \<Rightarrow> string \<Rightarrow> (disk, storage_error, bool) op" where
  "rename_peer J st old_name new_name d =
     (case load_peer J st d old_name of
        Inl e \<Rightarrow> (Inl e, d)
      | Inr None \<Rightarrow> (Inr False, d)
      | Inr (Some profile) \<Rightarrow>
          bindS (save_peer J st \<lparr>name = new_name, ticket = ticket profile\<rparr>) (\<lambda>_.
          bindS (delete_peer st old_name) (\<lambda>_. retS True)) d)"

section \<open>Paths and codecs\<close>

abbreviation peers_dir :: "state_config \<Rightarrow> path" where
  "peers_dir st \<equiv> root st @ [Normal ''peers'']"

abbreviation valid_peer :: "string \<Rightarrow> bool" where
  "valid_peer n \<equiv> validate_peer_name n = Inr ()"

lemma valid_peer_chars: "valid_peer n \<Longrightarrow> n \<noteq> [] \<and> CHR ''/'' \<notin> set n \<and> CHR 0x5C \<notin> set n \<and> CHR 0x00 \<notin> set n"
  by (auto simp: validate_peer_name_def split: if_splits)

lemma proper_peers [simp]: "proper_name ''peers''"
  by (simp add: proper_name_def)

lemma proper_json: "CHR ''/'' \<notin> set n \<Longrightarrow> proper_name (n @ ''.json'')"
proof -
  assume "CHR ''/'' \<notin> set n"
  moreover have "length (n @ ''.json'') > 2" by simp
  then have "n @ ''.json'' \<noteq> ''.''" "n @ ''.json'' \<noteq> ''..''" by force+
  ultimately show ?thesis by (simp add: proper_name_def)
qed

lemma valid_peer_proper: "valid_peer n \<Longrightarrow> proper_name (n @ ''.json'')"
  by (rule proper_json) (simp add: valid_peer_chars)

lemma peer_path_eq: "valid_peer n \<Longrightarrow> peer_path st n = peers_dir st @ [Normal (n @ ''.json'')]"
  unfolding peer_path_def using join_proper [OF valid_peer_proper] by (simp add: join_proper)

lemma peer_path_inj: "valid_peer n \<Longrightarrow> valid_peer n' \<Longrightarrow> peer_path st n = peer_path st n' \<longleftrightarrow> n = n'"
  by (simp add: peer_path_eq)

definition profile_storable :: "'t peer_profile serde \<Rightarrow> 't peer_profile \<Rightarrow> bool" where
  "profile_storable J p =
     (case ser J p of Inl _ \<Rightarrow> True | Inr b \<Rightarrow> utf8_valid (str_of_bytes b) \<and> de J b = Inr p)"

section \<open>The store keeps its contract\<close>

lemma ensure_peers_dir_facts:
  assumes "ensure_peers_dir st d = (r, d')"
  shows "faults d' = faults d" and "length (root st) + 1 < length q \<Longrightarrow> lookup d' q = lookup d q"
proof -
  let ?S = "{q. length q \<le> length (root st) + 1}"
  have t: "only ?S (ensure_dir_secure_tighten p)" if "length p \<le> length (root st) + 1" for p
    by (rule only_mono [OF only_ensure_dir_tighten]) (use that in \<open>auto dest: ancestors_shorter\<close>)
  have only: "only ?S (ensure_peers_dir st)"
    unfolding ensure_peers_dir_def Let_def by (intro only_bindS only_ret t) (simp_all add: join_proper)
  show "faults d' = faults d" using onlyD(2) [OF only assms] .
  show "lookup d' q = lookup d q" if "length (root st) + 1 < length q"
    using onlyD(1) [OF only assms, of q] that by simp
qed

lemma save_peer_cases:
  assumes "save_peer J st p d = (r, d')"
  obtains e where "ensure_peers_dir st d = (Inl e, d')" "r = Inl e"
  | x e where "ensure_peers_dir st d = (Inr x, d')" "r = Inl e"
  | x d1 json where "ensure_peers_dir st d = (Inr x, d1)" "valid_peer (name p)" "ser J p = Inr json"
      "atomic_write_secure (peer_path st (name p)) (str_of_bytes json) d1 = (r, d')"
  using assms
  by (cases "validate_peer_name (name p)"; cases "ser J p") (auto simp: save_peer_def bindS_eq_iff)

lemma peer_path_deep: "valid_peer n \<Longrightarrow> length (root st) + 1 < length (peer_path st n)"
  by (simp add: peer_path_eq)

lemma save_peer_facts:
  assumes "save_peer J st p d = (r, d')"
  shows "faults d' = faults d"
    and "r = Inl e \<Longrightarrow> valid_peer n \<Longrightarrow> lookup d' (peer_path st n) = lookup d (peer_path st n)"
    and "r = Inr u \<Longrightarrow> valid_peer (name p) \<and> (\<exists>json m. ser J p = Inr json
           \<and> lookup d' (peer_path st (name p)) = Some (File (str_of_bytes json) m))"
    and "valid_peer n \<Longrightarrow> n \<noteq> name p \<Longrightarrow> lookup d' (peer_path st n) = lookup d (peer_path st n)"
proof -
  note dir = ensure_peers_dir_facts
  have same: "lookup d' (peer_path st n) = lookup d (peer_path st n)"
    if t: "ensure_peers_dir st d = (x, d1)" "valid_peer n" "valid_peer (name p)"
      "atomic_write_secure (peer_path st (name p)) c d1 = (y, d')" "n \<noteq> name p \<or> isl y" for x d1 c y n
  proof -
    have w: "atomic_write_secure (peers_dir st @ [Normal (name p @ ''.json'')]) c d1 = (y, d')"
      using t(3,4) by (simp add: peer_path_eq)
    have "lookup d1 (peer_path st n) = lookup d (peer_path st n)"
      using dir(2) [OF t(1)] peer_path_deep [OF t(2)] by blast
    moreover have "lookup d' (peer_path st n) = lookup d1 (peer_path st n)"
    proof (cases "n = name p")
      case True
      then obtain e where "y = Inl e" using t(5) by (cases y) auto
      then show ?thesis using atomic_write_fails [of "peers_dir st" "name p @ ''.json''"] w True
        by (simp add: peer_path_eq t(3) valid_peer_proper)
    next
      case False
      then show ?thesis
        using atomic_write_other [OF w valid_peer_proper [OF t(3)], of "peer_path st n"]
        by (simp add: peer_path_eq t(2))
    qed
    ultimately show ?thesis by simp
  qed
  show "faults d' = faults d"
    using assms
  proof (cases rule: save_peer_cases)
    case (3 x d1 json)
    then show ?thesis
      using dir(1) atomic_write_faults [of "peers_dir st" "name p @ ''.json''"] valid_peer_proper by (simp add: peer_path_eq)
  qed (use dir(1) in auto)
  show "r = Inl e \<Longrightarrow> valid_peer n \<Longrightarrow> lookup d' (peer_path st n) = lookup d (peer_path st n)"
    using assms by (cases rule: save_peer_cases) (use dir(2) peer_path_deep same in auto)
  show "valid_peer n \<Longrightarrow> n \<noteq> name p \<Longrightarrow> lookup d' (peer_path st n) = lookup d (peer_path st n)"
    using assms by (cases rule: save_peer_cases) (use dir(2) peer_path_deep same in auto)
  show "r = Inr u \<Longrightarrow> valid_peer (name p) \<and> (\<exists>json m. ser J p = Inr json
      \<and> lookup d' (peer_path st (name p)) = Some (File (str_of_bytes json) m))"
    using assms
  proof (cases rule: save_peer_cases)
    case (3 x d1 json)
    assume "r = Inr u"
    with 3 have "atomic_write_secure (peers_dir st @ [Normal (name p @ ''.json'')]) (str_of_bytes json) d1 = (Inr u, d')"
      by (simp add: peer_path_eq)
    from atomic_write_stores [OF this valid_peer_proper [OF 3(2)]] show ?thesis
      using 3 by (auto simp: peer_path_eq)
  qed auto
qed

text \<open>The store by name: the ticket saved under it.\<close>

definition save_ticket :: "'t peer_profile serde \<Rightarrow> state_config \<Rightarrow> string \<Rightarrow> 't \<Rightarrow> (disk, storage_error, unit) op" where
  "save_ticket J st n t = save_peer J st (peer_profile_new n t)"

definition load_ticket :: "'t peer_profile serde \<Rightarrow> state_config \<Rightarrow> disk \<Rightarrow> string \<Rightarrow> storage_error + 't option" where
  "load_ticket J st d n = and_then (load_peer J st d n) (\<lambda>p. Inr (map_option ticket p))"

definition ticket_storable :: "'t peer_profile serde \<Rightarrow> string \<Rightarrow> 't \<Rightarrow> bool" where
  "ticket_storable J n t = profile_storable J (peer_profile_new n t)"

lemma load_peer_local:
  "lookup d' (peer_path st n) = lookup d (peer_path st n) \<Longrightarrow> faults d' = faults d \<Longrightarrow> load_peer J st d' n = load_peer J st d n"
  by (simp add: load_peer_def path_exists_def fs_read_to_string_def fs_read_def Let_def)

lemma load_peer_absent: "lookup d (peer_path st n) = None \<Longrightarrow> load_peer J st d n = Inr None"
  by (simp add: load_peer_def path_exists_def)

lemma saved_peer_loads:
  assumes "save_peer J st p d = (Inr u, d')" and "profile_storable J p" and "reads_ok d"
  shows "load_peer J st d' (name p) = Inr (Some p)"
proof -
  obtain json m where "ser J p = Inr json" "lookup d' (peer_path st (name p)) = Some (File (str_of_bytes json) m)"
    using save_peer_facts(3) [OF assms(1) refl] by blast
  moreover have "reads_ok d'" using assms(3) save_peer_facts(1) [OF assms(1)] by (simp add: reads_ok_def)
  ultimately show ?thesis using assms(2)
    by (simp add: load_peer_def path_exists_def fs_read_to_string_def fs_read_def reads_ok_def profile_storable_def)
qed

lemma name_new [simp]: "name (peer_profile_new n t) = n" "ticket (peer_profile_new n t) = t"
  by (simp_all add: peer_profile_new_def)

interpretation peers: record_store "save_ticket J st" "load_ticket J st" "delete_peer st" "peer_path st"
  valid_peer "ticket_storable J" for J st
proof (unfold_locales, goal_cases)
  case (1 d' i d)
  then show ?case using load_peer_local [of d' st i d J] by (simp add: load_ticket_def)
next
  case (4 i v d x d')
  then show ?case using saved_peer_loads [of J st "peer_profile_new i v" d x d']
    by (simp add: save_ticket_def load_ticket_def ticket_storable_def)
next
  case (5 i v d e d')
  then show ?case using save_peer_facts(2) [of J st "peer_profile_new i v" d "Inl e" d' e i] by (simp add: save_ticket_def)
next
  case (6 i v d r d' j)
  then show ?case using save_peer_facts(4) [of J st "peer_profile_new i v" d r d' j] by (auto simp: save_ticket_def)
next
  case (7 i v d r d')
  then show ?case using save_peer_facts(1) by (simp add: save_ticket_def)
next
  case (8 i d b d') then show ?case unfolding delete_peer_def by (rule remove_if_exists_ok)
next
  case (9 i d e d') then show ?case using remove_if_exists_err unfolding delete_peer_def by blast
next
  case (10 i d r d' q)
  then show ?case using onlyD(1) [OF remove_if_exists_only, of _ d r d' q] unfolding delete_peer_def by blast
next
  case (11 i d r d') then show ?case using onlyD(2) [OF remove_if_exists_only] unfolding delete_peer_def by blast
qed (simp_all add: load_ticket_def load_peer_absent, simp add: load_peer_def)

section \<open>Properties\<close>

text \<open>
  The peer profiles are a map: after any sequence of saves and deletes under valid names, in
  which any write may fail, a name has the ticket of its last successful save not followed by a
  successful delete, or the one it had before.
\<close>

theorem peers_are_a_map:
  assumes "run_store (save_ticket J st) (delete_peer st) cs d = (oks, d')" and "reads_ok d"
    and "\<forall>c \<in> set cs. valid_peer (cmd_id c) \<and> cmd_storable (ticket_storable J) c"
    and "valid_peer n" and "load_ticket J st d n = Inr (m (peer_path st n))"
  shows "load_ticket J st d' n = Inr (run_map (peer_path st) cs oks m (peer_path st n))"
  using assms by (rule peers.store_is_map)

definition sample_profiles :: "string peer_profile serde" where
  "sample_profiles = \<lparr>ser = (\<lambda>p. Inr (as_bytes (name p @ '':'' @ ticket p))),
     de = (\<lambda>b. let s = str_of_bytes b; n = takeWhile (\<lambda>c. c \<noteq> CHR '':'') s in
                 Inr \<lparr>name = n, ticket = drop (Suc (length n)) s\<rparr>)\<rparr>"

theorem peers_are_a_map_witness:
  "\<exists>oks d'. run_store (save_ticket sample_profiles sample_state) (delete_peer sample_state)
        [Save ''a'' ''t1'', Save ''b'' ''t2'', Delete ''a''] sample_disk = (oks, d')
     \<and> load_ticket sample_profiles sample_state d' ''a'' =
          Inr (run_map (peer_path sample_state) [Save ''a'' ''t1'', Save ''b'' ''t2'', Delete ''a''] oks (\<lambda>_. None)
             (peer_path sample_state ''a''))"
proof -
  let ?cs = "[Save ''a'' ''t1'', Save ''b'' ''t2'', Delete ''a'']"
  obtain oks d' where run: "run_store (save_ticket sample_profiles sample_state) (delete_peer sample_state) ?cs sample_disk
      = (oks, d')" by (rule prod.exhaust)
  have v: "valid_peer ''a''" "valid_peer ''b''" by code_simp+
  have s: "ticket_storable sample_profiles ''a'' ''t1''" "ticket_storable sample_profiles ''b'' ''t2''"
    by code_simp+
  have "load_ticket sample_profiles sample_state sample_disk ''a'' = Inr None"
    using v by (simp add: load_ticket_def load_peer_absent peer_path_eq sample_state_def lookup_def sample_disk_def)
  then show ?thesis using peers_are_a_map [OF run sample_disk_reads(1) _ v(1), of "\<lambda>_. None"] v s run by simp
qed

text \<open>
  C15. A rename never loses a peer: whichever calls fail, after a rename to a different valid name
  the ticket is still stored under the old name or the new one, and if the rename returned \<^verbatim>\<open>Ok(true)\<close>
  it is under the new name and the old name is gone.
\<close>

theorem rename_peer_never_loses:
  assumes "load_peer J st d old = Inr (Some p)" and "rename_peer J st old new d = (r, d')"
    and "reads_ok d" and "valid_peer old" and "valid_peer new" and "old \<noteq> new"
    and "profile_storable J \<lparr>name = new, ticket = ticket p\<rparr>"
  shows "(load_peer J st d' old = Inr (Some p) \<or> load_peer J st d' new = Inr (Some \<lparr>name = new, ticket = ticket p\<rparr>))
    \<and> (r = Inr True \<longrightarrow> load_peer J st d' old = Inr None
          \<and> load_peer J st d' new = Inr (Some \<lparr>name = new, ticket = ticket p\<rparr>))"
proof -
  let ?p = "\<lparr>name = new, ticket = ticket p\<rparr>"
  from assms(1,2) consider e where "save_peer J st ?p d = (Inl e, d')" "r = Inl e"
    | u d1 e where "save_peer J st ?p d = (Inr u, d1)" "delete_peer st old d1 = (Inl e, d')" "r = Inl e"
    | u d1 b where "save_peer J st ?p d = (Inr u, d1)" "delete_peer st old d1 = (Inr b, d')" "r = Inr True"
    by (auto simp: rename_peer_def bindS_eq_iff)
  then show ?thesis
  proof cases
    case 1
    have "load_peer J st d' old = load_peer J st d old"
      using save_peer_facts(1) [OF 1(1)] save_peer_facts(2) [OF 1(1) refl assms(4)] by (intro load_peer_local)
    then show ?thesis using 1 assms(1) by simp
  next
    case 2
    have "load_peer J st d1 new = Inr (Some ?p)" using saved_peer_loads [OF 2(1) assms(7,3)] by simp
    then show ?thesis using 2 remove_if_exists_err by (auto simp: delete_peer_def)
  next
    case 3
    have new: "load_peer J st d1 new = Inr (Some ?p)" using saved_peer_loads [OF 3(1) assms(7,3)] by simp
    have "load_peer J st d' new = load_peer J st d1 new"
      using peers.delete_frame [OF 3(2)] peers.delete_faults [OF 3(2)] peer_path_inj assms(4-6)
      by (intro load_peer_local) auto
    then show ?thesis using new 3 load_peer_absent [OF peers.delete_ok [OF 3(2)]] by simp
  qed
qed

definition sample_peer_disk :: disk where
  "sample_peer_disk = sample_disk\<lparr>nodes := nodes sample_disk @
     [([RootDir, Normal ''s'', Normal ''peers''], Dir 0x1C0),
      ([RootDir, Normal ''s'', Normal ''peers'', Normal ''a.json''], File ''a:t'' 0x180)]\<rparr>"

lemma sample_peer_loads:
  "load_peer sample_profiles sample_state sample_peer_disk ''a'' = Inr (Some \<lparr>name = ''a'', ticket = ''t''\<rparr>)"
  by code_simp

theorem rename_peer_never_loses_witness:
  "\<exists>r d'. rename_peer sample_profiles sample_state ''a'' ''b'' sample_peer_disk = (r, d')
     \<and> (load_peer sample_profiles sample_state d' ''a'' = Inr (Some \<lparr>name = ''a'', ticket = ''t''\<rparr>)
        \<or> load_peer sample_profiles sample_state d' ''b'' = Inr (Some \<lparr>name = ''b'', ticket = ''t''\<rparr>))"
proof -
  obtain r d' where run: "rename_peer sample_profiles sample_state ''a'' ''b'' sample_peer_disk = (r, d')"
    by (rule prod.exhaust)
  have v: "valid_peer ''a''" "valid_peer ''b''" "profile_storable sample_profiles \<lparr>name = ''b'', ticket = ''t''\<rparr>"
    by code_simp+
  have "reads_ok sample_peer_disk" by (simp add: reads_ok_def sample_peer_disk_def)
  then show ?thesis using rename_peer_never_loses [OF sample_peer_loads run] v run by simp
qed

text \<open>
  Renaming a peer to its own name deletes it: the profile is written over itself and the file is
  then removed, and the call still returns \<^verbatim>\<open>Ok(true)\<close>.
\<close>

theorem rename_peer_to_itself_deletes:
  assumes "rename_peer J st n n d = (Inr True, d')"
  shows "load_peer J st d' n = Inr None"
proof -
  obtain d1 b where "delete_peer st n d1 = (Inr b, d')"
    using assms by (auto simp: rename_peer_def bindS_eq_iff split: sum.splits option.splits)
  then show ?thesis by (intro load_peer_absent peers.delete_ok)
qed

lemma sample_self_rename:
  "fst (rename_peer sample_profiles sample_state ''a'' ''a'' sample_peer_disk) = Inr True"
  by code_simp

theorem rename_peer_to_itself_deletes_witness:
  "load_peer sample_profiles sample_state sample_peer_disk ''a'' = Inr (Some \<lparr>name = ''a'', ticket = ''t''\<rparr>)
   \<and> load_peer sample_profiles sample_state
        (snd (rename_peer sample_profiles sample_state ''a'' ''a'' sample_peer_disk)) ''a'' = Inr None"
proof -
  have "rename_peer sample_profiles sample_state ''a'' ''a'' sample_peer_disk
      = (Inr True, snd (rename_peer sample_profiles sample_state ''a'' ''a'' sample_peer_disk))"
    using sample_self_rename by (metis prod.collapse)
  then show ?thesis using sample_peer_loads rename_peer_to_itself_deletes by blast
qed

end
