(* ===== verification/State_Store.thy ===== *)
theory State_Store
  imports Peer_Store
begin

text \<open>
  The single-file records of the state directory: the endpoint secret (\<^verbatim>\<open>src/storage/keys.rs\<close>), the
  password hash (\<^verbatim>\<open>shadow.rs\<close>), the application configuration (\<^verbatim>\<open>storage/config.rs\<close> with the types
  of \<^verbatim>\<open>config.rs\<close>), and the operations over all of them (\<^verbatim>\<open>reset_vault\<close>, \<^verbatim>\<open>rotate_identity\<close>).
\<close>

section \<open>The password hash\<close>

definition shadow_file_path :: "state_config \<Rightarrow> path" where
  "shadow_file_path st = join_name (root st) ''shadow''"

definition write_shadow_file :: "state_config \<Rightarrow> string \<Rightarrow> (disk, storage_error, unit) op" where
  "write_shadow_file st password_hash = atomic_write_secure (shadow_file_path st) password_hash"

definition load_shadow_file :: "state_config \<Rightarrow> disk \<Rightarrow> storage_error + string option" where
  "load_shadow_file st d =
     (let p = shadow_file_path st in
      if \<not> path_exists d p then Inr None
      else and_then (map_err (FileRead p) (fs_read_to_string d p)) (\<lambda>content. Inr (Some (trim content))))"

definition delete_shadow_file :: "state_config \<Rightarrow> (disk, storage_error, bool) op" where
  "delete_shadow_file st d =
     (let p = shadow_file_path st in
      if \<not> path_exists d p then (Inr False, d)
      else bindS (errS (FileDelete p) (fs_remove_file p)) (\<lambda>_. retS True) d)"

section \<open>The endpoint secret\<close>

text \<open>The key library: the 32 secret bytes, the parser of a printed key, and the derived SSH key.\<close>

record ('k, 's) secret_keys =
  key_bytes :: "'k \<Rightarrow> bytes"
  key_of_str :: "string \<Rightarrow> foreign_error + 'k"
  ssh_of_seed :: "bytes \<Rightarrow> 's"

record ('k, 's) endpoint_identity =
  secret_key :: 'k
  ssh_key :: 's

definition ensure_key_dir :: "state_config \<Rightarrow> (disk, storage_error, unit) op" where
  "ensure_key_dir st =
     bindS (ensure_dir_secure_tighten (root st)) (\<lambda>_.
     ensure_dir_secure_tighten (join_name (root st) ''keys''))"

definition SECRET_KEY_FILE :: string where "SECRET_KEY_FILE = ''keys/endpoint.secret''"

definition secret_path :: "state_config \<Rightarrow> path" where
  "secret_path st = join_name (root st) SECRET_KEY_FILE"

text \<open>The fold with the format \<^verbatim>\<open>{b:02x}\<close>.\<close>

definition hex_of_bytes :: "bytes \<Rightarrow> string" where
  "hex_of_bytes bs = concat (map (\<lambda>b. [hex_digit (unat b div 16), hex_digit (unat b mod 16)]) bs)"

definition parse_secret :: "('k, 's) secret_keys \<Rightarrow> path \<Rightarrow> string \<Rightarrow> storage_error + 'k" where
  "parse_secret K p raw =
     map_err (\<lambda>e. case e of ForeignError t \<Rightarrow> EndpointSecretInvalid p t) (key_of_str K (trim raw))"

definition load_secret_key :: "('k, 's) secret_keys \<Rightarrow> state_config \<Rightarrow> disk \<Rightarrow> storage_error + 'k" where
  "load_secret_key K st d =
     (let p = secret_path st in
      if \<not> path_exists d p then Inl (FileRead p EntryNotFound)
      else and_then (map_err (FileRead p) (fs_read_to_string d p)) (parse_secret K p))"

definition save_secret_key :: "('k, 's) secret_keys \<Rightarrow> state_config \<Rightarrow> 'k \<Rightarrow> (disk, storage_error, unit) op" where
  "save_secret_key K st key =
     bindS (ensure_key_dir st) (\<lambda>_. atomic_write_secure (secret_path st) (hex_of_bytes (key_bytes K key)))"

definition identity_of :: "('k, 's) secret_keys \<Rightarrow> 'k \<Rightarrow> ('k, 's) endpoint_identity" where
  "identity_of K key = \<lparr>secret_key = key, ssh_key = ssh_of_seed K (key_bytes K key)\<rparr>"

text \<open>\<open>fresh\<close> is what \<^verbatim>\<open>SecretKey::generate\<close> returns in this call.\<close>

definition load_or_generate_identity ::
  "('k, 's) secret_keys \<Rightarrow> state_config \<Rightarrow> 'k \<Rightarrow> (disk, storage_error, ('k, 's) endpoint_identity) op" where
  "load_or_generate_identity K st fresh =
     bindS (ensure_key_dir st) (\<lambda>_ d.
       let p = secret_path st in
       if path_exists d p
       then (and_then (and_then (map_err (FileRead p) (fs_read_to_string d p)) (parse_secret K p))
               (\<lambda>key. Inr (identity_of K key)), d)
       else bindS (atomic_write_secure p (hex_of_bytes (key_bytes K fresh))) (\<lambda>_. retS (identity_of K fresh)) d)"

definition delete_secret_key :: "state_config \<Rightarrow> (disk, storage_error, bool) op" where
  "delete_secret_key st d =
     (let p = secret_path st in
      if path_exists d p then bindS (errS (FileWrite p) (fs_remove_file p)) (\<lambda>_. retS True) d
      else (Inr False, d))"

text \<open>\<open>new_key\<close> and \<open>fresh\<close> are what the two generator calls would return.\<close>

definition rotate_identity ::
  "('k, 's) secret_keys \<Rightarrow> state_config \<Rightarrow> 'k \<Rightarrow> 'k \<Rightarrow> (disk, storage_error, ('k, 's) endpoint_identity) op" where
  "rotate_identity K st new_key fresh =
     bindS (save_secret_key K st new_key) (\<lambda>_. load_or_generate_identity K st fresh)"

section \<open>The configuration\<close>

datatype log_level = Trace | Debug | Info | Warn | ErrorLevel

fun log_level_as_str :: "log_level \<Rightarrow> string" where
  "log_level_as_str Trace = ''trace''"
| "log_level_as_str Debug = ''debug''"
| "log_level_as_str Info = ''info''"
| "log_level_as_str Warn = ''warn''"
| "log_level_as_str ErrorLevel = ''error''"

definition log_level_from_str :: "string \<Rightarrow> string + log_level" where
  "log_level_from_str s =
     (let t = to_lower s in
      if t = ''trace'' then Inr Trace
      else if t = ''debug'' then Inr Debug
      else if t = ''info'' then Inr Info
      else if t = ''warn'' \<or> t = ''warning'' then Inr Warn
      else if t = ''error'' then Inr ErrorLevel
      else Inl (''invalid log level: '' @ [CHR 0x27] @ t @ [CHR 0x27] @ '' (expected: trace, debug, info, warn, error)''))"

definition wormhole_code_new :: "string \<Rightarrow> string + string" where
  "wormhole_code_new code =
     (if trim code = [] then Inl ''wormhole code cannot be empty'' else Inr code)"

record app_config =
  stealth_secret :: "string option"
  relay_url :: "string option"
  log_level :: log_level
  wormhole_timeout :: u64
  default_user :: "string option"

definition app_config_default :: app_config where
  "app_config_default = \<lparr>stealth_secret = None, relay_url = None, log_level = Info, wormhole_timeout = 3600,
     default_user = None\<rparr>"

definition CONFIG_FILE :: string where "CONFIG_FILE = ''irosh.json''"

definition load_config :: "app_config serde \<Rightarrow> state_config \<Rightarrow> disk \<Rightarrow> storage_error + app_config" where
  "load_config J st d =
     (let p = join_name (root st) CONFIG_FILE in
      if \<not> path_exists d p then Inr app_config_default
      else and_then (map_err (FileRead p) (fs_read_to_string d p)) (\<lambda>data.
           map_err PeerProfileParse (de J (as_bytes data))))"

definition save_config :: "app_config serde \<Rightarrow> state_config \<Rightarrow> app_config \<Rightarrow> (disk, storage_error, unit) op" where
  "save_config J st config =
     (case ser J config of
        Inl e \<Rightarrow> failS (PeerProfileSerialize e)
      | Inr data \<Rightarrow> atomic_write_secure (join_name (root st) CONFIG_FILE) (str_of_bytes data))"

definition export_config :: "app_config serde \<Rightarrow> state_config \<Rightarrow> path \<Rightarrow> (disk, storage_error, unit) op" where
  "export_config J st dest d =
     (case load_config J st d of
        Inl e \<Rightarrow> (Inl e, d)
      | Inr config \<Rightarrow>
          (case ser J config of
             Inl e \<Rightarrow> (Inl (PeerProfileSerialize e), d)
           | Inr data \<Rightarrow> atomic_write_secure dest (str_of_bytes data) d))"

definition import_config :: "app_config serde \<Rightarrow> state_config \<Rightarrow> path \<Rightarrow> (disk, storage_error, unit) op" where
  "import_config J st src d =
     (case fs_read d src of
        Inl e \<Rightarrow> (Inl (FileRead src e), d)
      | Inr data \<Rightarrow>
          (case de J (as_bytes data) of
             Inl e \<Rightarrow> (Inl (PeerProfileParse e), d)
           | Inr imported \<Rightarrow> save_config J st imported d))"

section \<open>The whole state\<close>

definition reset_vault :: "state_config \<Rightarrow> (disk, storage_error, unit) op" where
  "reset_vault st d =
     (let trust_dir = join_name (root st) ''trust'' in
      case fs_remove_dir_all trust_dir d of
        (Inl e, d1) \<Rightarrow>
          if e = EntryNotFound then bindS (delete_shadow_file st) (\<lambda>_. retS ()) d1
          else (Inl (FileDelete trust_dir e), d1)
      | (Inr _, d1) \<Rightarrow> bindS (delete_shadow_file st) (\<lambda>_. retS ()) d1)"

section \<open>Printed keys\<close>

definition plain_char :: "char \<Rightarrow> bool" where
  "plain_char c \<longleftrightarrow> 0x21 \<le> (of_char c :: nat) \<and> (of_char c :: nat) < 0x7F"

lemma white_space_not_plain: "w \<in> set white_space \<Longrightarrow> c \<in> set w \<Longrightarrow> \<not> plain_char c"
proof -
  have "list_all (list_all (\<lambda>c. \<not> plain_char c)) white_space" by code_simp
  then show "w \<in> set white_space \<Longrightarrow> c \<in> set w \<Longrightarrow> \<not> plain_char c" by (simp add: list_all_iff)
qed

lemma strip_front_plain:
  assumes "\<And>c. c \<in> set s \<Longrightarrow> plain_char c" and "\<And>w c. w \<in> set ws \<Longrightarrow> c \<in> set w \<Longrightarrow> \<not> plain_char c"
  shows "strip_front ws s = s"
proof (rule strip_front_fixed)
  fix w assume w: "w \<in> set ws" "w \<noteq> []"
  show "take (length w) s \<noteq> w"
  proof
    assume "take (length w) s = w"
    then have "hd w \<in> set s" using w(2) by (metis hd_in_set in_set_takeD)
    then show False using assms w by (metis hd_in_set)
  qed
qed

lemma trim_plain: "(\<And>c. c \<in> set s \<Longrightarrow> plain_char c) \<Longrightarrow> trim s = s"
  unfolding trim_def trim_start_def trim_end_def
  by (subst strip_front_plain [of s white_space]; (subst strip_front_plain)?) (auto dest: white_space_not_plain)

lemma hex_digit_plain: "k < 16 \<Longrightarrow> plain_char (hex_digit k) \<and> (of_char (hex_digit k) :: nat) < 0x80"
proof -
  assume "k < 16"
  then have "hex_digit k \<in> set ''0123456789abcdef''" using nth_mem [of k "''0123456789abcdef''"] by (simp add: hex_digit_def)
  moreover have "list_all (\<lambda>c. plain_char c \<and> (of_char c :: nat) < 0x80) ''0123456789abcdef''" by code_simp
  ultimately show ?thesis unfolding list_all_iff by blast
qed

lemma hex_of_bytes_chars:
  assumes "c \<in> set (hex_of_bytes bs)"
  shows "plain_char c \<and> (of_char c :: nat) < 0x80"
proof -
  obtain b where "c = hex_digit (unat b div 16) \<or> c = hex_digit (unat b mod 16)" "b \<in> set bs"
    using assms by (auto simp: hex_of_bytes_def)
  moreover have "unat b div 16 < 16" using unsigned_less [of b, where 'a = nat] by (simp add: less_mult_imp_div_less)
  ultimately show ?thesis using hex_digit_plain [of "unat b div 16"] hex_digit_plain [of "unat b mod 16"] by auto
qed

lemma hex_text: "trim (hex_of_bytes bs) = hex_of_bytes bs" "utf8_valid (hex_of_bytes bs)"
  using trim_plain hex_of_bytes_chars utf8_valid_ascii [of "hex_of_bytes bs" "[]"] by (blast, simp)

section \<open>The secret and its path\<close>

text \<open>What the key library documents: a key is read back from its hexadecimal text.\<close>

definition keys_reparse :: "('k, 's) secret_keys \<Rightarrow> bool" where
  "keys_reparse K \<longleftrightarrow> (\<forall>k. key_of_str K (hex_of_bytes (key_bytes K k)) = Inr k)"

lemma proper_state_names [simp]:
  "proper_name ''keys''" "proper_name ''endpoint.secret''" "proper_name ''shadow''" "proper_name ''irosh.json''"
  by (simp_all add: proper_name_def)

lemma secret_path_eq: "secret_path st = (root st @ [Normal ''keys'']) @ [Normal ''endpoint.secret'']"
proof -
  have "components SECRET_KEY_FILE = [Normal ''keys'', Normal ''endpoint.secret'']" by code_simp
  then show ?thesis by (simp add: secret_path_def path_join_def)
qed

lemma shadow_path_eq: "shadow_file_path st = root st @ [Normal ''shadow'']"
  by (simp add: shadow_file_path_def join_proper)

lemma ensure_key_dir_facts:
  assumes "ensure_key_dir st d = (r, d')"
  shows "faults d' = faults d" and "lookup d' (secret_path st) = lookup d (secret_path st)"
proof -
  let ?S = "{q. length q \<le> length (root st) + 1}"
  have t: "only ?S (ensure_dir_secure_tighten p)" if "length p \<le> length (root st) + 1" for p
    by (rule only_mono [OF only_ensure_dir_tighten]) (use that in \<open>auto dest: ancestors_shorter\<close>)
  have only: "only ?S (ensure_key_dir st)"
    unfolding ensure_key_dir_def by (intro only_bindS t) (simp_all add: join_proper)
  show "faults d' = faults d" using onlyD(2) [OF only assms] .
  show "lookup d' (secret_path st) = lookup d (secret_path st)"
    using onlyD(1) [OF only assms] by (simp add: secret_path_eq)
qed

lemma load_secret_local:
  "lookup d' (secret_path st) = lookup d (secret_path st) \<Longrightarrow> faults d' = faults d \<Longrightarrow>
     load_secret_key K st d' = load_secret_key K st d"
  by (simp add: load_secret_key_def path_exists_def fs_read_to_string_def fs_read_def Let_def)

lemma written_secret_loads:
  assumes "atomic_write_secure (secret_path st) (hex_of_bytes (key_bytes K k)) d = (Inr u, d')"
    and "keys_reparse K" and "reads_ok d"
  shows "load_secret_key K st d' = Inr k"
proof -
  note w = assms(1) [unfolded secret_path_eq]
  obtain m where "lookup d' (secret_path st) = Some (File (hex_of_bytes (key_bytes K k)) m)"
    using atomic_write_stores [OF w] by (auto simp: secret_path_eq)
  moreover have "faults d' = faults d" using atomic_write_faults [OF w] by simp
  ultimately show ?thesis using assms(2,3)
    by (simp add: load_secret_key_def path_exists_def fs_read_to_string_def fs_read_def reads_ok_def
        parse_secret_def hex_text keys_reparse_def Let_def)
qed

lemma failed_secret_write:
  assumes "atomic_write_secure (secret_path st) text d = (Inl e, d')"
  shows "load_secret_key K st d' = load_secret_key K st d"
  using assms atomic_write_fails [OF assms [unfolded secret_path_eq]] atomic_write_faults [OF assms [unfolded secret_path_eq]]
  by (intro load_secret_local) (simp_all add: secret_path_eq)

lemma save_secret_key_result:
  assumes "save_secret_key K st k d = (r, d')" and "keys_reparse K" and "reads_ok d"
  shows "load_secret_key K st d' = (case r of Inl _ \<Rightarrow> load_secret_key K st d | Inr _ \<Rightarrow> Inr k) \<and> faults d' = faults d"
proof -
  consider e where "ensure_key_dir st d = (Inl e, d')" "r = Inl e"
    | d1 where "ensure_key_dir st d = (Inr (), d1)"
        "atomic_write_secure (secret_path st) (hex_of_bytes (key_bytes K k)) d1 = (r, d')"
    using assms(1) by (auto simp: save_secret_key_def bindS_eq_iff)
  then show ?thesis
  proof cases
    case 1
    then show ?thesis using ensure_key_dir_facts [OF 1(1)] load_secret_local [of d' st d K] by simp
  next
    case (2 d1)
    have d1: "faults d1 = faults d" "load_secret_key K st d1 = load_secret_key K st d"
      using ensure_key_dir_facts [OF 2(1)] load_secret_local [of d1 st d K] by simp_all
    then have "reads_ok d1" using assms(3) by (simp add: reads_ok_def)
    moreover have "faults d' = faults d1" using atomic_write_faults [OF 2(2) [unfolded secret_path_eq]] by simp
    ultimately show ?thesis
      using 2(2) d1 written_secret_loads [of st K k d1 _ d'] assms(2) failed_secret_write [of st _ d1 _ d' K]
      by (cases r) auto
  qed
qed

lemma load_or_generate_result:
  assumes "load_or_generate_identity K st fresh d = (Inr ident, d')" and "keys_reparse K" and "reads_ok d"
  shows "load_secret_key K st d' = Inr (secret_key ident) \<and> ident = identity_of K (secret_key ident) \<and> faults d' = faults d"
    and "load_secret_key K st d = Inr k \<Longrightarrow> secret_key ident = k"
proof -
  obtain d1 where e: "ensure_key_dir st d = (Inr (), d1)" and b: "(if path_exists d1 (secret_path st)
       then (and_then (and_then (map_err (FileRead (secret_path st)) (fs_read_to_string d1 (secret_path st)))
               (parse_secret K (secret_path st))) (\<lambda>key. Inr (identity_of K key)), d1)
       else bindS (atomic_write_secure (secret_path st) (hex_of_bytes (key_bytes K fresh)))
              (\<lambda>_. retS (identity_of K fresh)) d1) = (Inr ident, d')"
    using assms(1) by (auto simp: load_or_generate_identity_def bindS_eq_iff Let_def)
  have f: "faults d1 = faults d" and l: "load_secret_key K st d1 = load_secret_key K st d"
    using ensure_key_dir_facts [OF e] load_secret_local [of d1 st d K] by simp_all
  have r1: "reads_ok d1" using f assms(3) by (simp add: reads_ok_def)
  have "(load_secret_key K st d' = Inr (secret_key ident) \<and> ident = identity_of K (secret_key ident) \<and> faults d' = faults d)
      \<and> (load_secret_key K st d = Inr k \<longrightarrow> secret_key ident = k)"
  proof (cases "path_exists d1 (secret_path st)")
    case True
    then have "d' = d1" and "\<exists>key. load_secret_key K st d1 = Inr key \<and> ident = identity_of K key"
      using b by (auto simp: load_secret_key_def Let_def and_then_def split: sum.splits)
    then show ?thesis using l f by (auto simp: identity_of_def)
  next
    case False
    then have w: "atomic_write_secure (secret_path st) (hex_of_bytes (key_bytes K fresh)) d1 = (Inr (), d')"
      and i: "ident = identity_of K fresh"
      using b by (auto simp: bindS_eq_iff)
    have "load_secret_key K st d1 \<noteq> Inr k" using False by (simp add: load_secret_key_def Let_def)
    then show ?thesis
      using written_secret_loads [OF w assms(2) r1] i f l atomic_write_faults [OF w [unfolded secret_path_eq]]
      by (simp add: identity_of_def)
  qed
  then show "load_secret_key K st d' = Inr (secret_key ident) \<and> ident = identity_of K (secret_key ident) \<and> faults d' = faults d"
    and "load_secret_key K st d = Inr k \<Longrightarrow> secret_key ident = k" by blast+
qed

section \<open>Properties\<close>

text \<open>
  The node's identity is stable: once \<^verbatim>\<open>load_or_generate_identity\<close> has returned one, the
  secret is on disk, and every later call that returns gives the same identity, whatever the
  generator would produce.
\<close>

theorem identity_is_stable:
  assumes "load_or_generate_identity K st fresh d = (Inr ident, d')" and "keys_reparse K" and "reads_ok d"
    and "load_or_generate_identity K st fresh' d' = (Inr ident', d'')"
  shows "load_secret_key K st d' = Inr (secret_key ident) \<and> ident' = ident"
proof -
  note a = load_or_generate_result(1) [OF assms(1-3)]
  then have "reads_ok d'" using assms(3) by (simp add: reads_ok_def)
  then have "secret_key ident' = secret_key ident" "ident' = identity_of K (secret_key ident')"
    using load_or_generate_result [OF assms(4,2)] a by blast+
  then show ?thesis using a by metis
qed

text \<open>Keys that are one byte, printed as two digits.\<close>

definition sample_secrets :: "(u8, u8) secret_keys" where
  "sample_secrets = \<lparr>key_bytes = (\<lambda>k. [k]),
     key_of_str = (\<lambda>s. case find (\<lambda>k. hex_of_bytes [k] = s) (map word_of_nat [0..<256]) of
                         Some k \<Rightarrow> Inr k | None \<Rightarrow> Inl (ForeignError ''bad key'')),
     ssh_of_seed = hd\<rparr>"

lemma hex_digit_inj: "a < 16 \<Longrightarrow> b < 16 \<Longrightarrow> hex_digit a = hex_digit b \<Longrightarrow> a = b"
  using nth_eq_iff_index_eq [of "''0123456789abcdef''" a b] by (simp add: hex_digit_def)

lemma hex_of_byte_inj: "hex_of_bytes [a] = hex_of_bytes [b] \<Longrightarrow> a = b"
proof -
  assume h: "hex_of_bytes [a] = hex_of_bytes [b]"
  have lt: "unat x < 256" for x :: u8 using unsigned_less [of x, where 'a = nat] by simp
  then have "unat x div 16 < 16" for x :: u8 by (simp add: less_mult_imp_div_less)
  then have "unat a div 16 = unat b div 16" "unat a mod 16 = unat b mod 16"
    using h hex_digit_inj by (simp_all add: hex_of_bytes_def)
  then have "unat a = unat b" by (metis div_mult_mod_eq)
  then show "a = b" by (simp add: word_unat_eq_iff)
qed

lemma sample_secrets_reparse: "keys_reparse sample_secrets"
  unfolding keys_reparse_def
proof
  fix k :: u8
  have "unat k \<in> set [0..<256]" using unsigned_less [of k, where 'a = nat] by simp
  moreover have "k = word_of_nat (unat k)" by simp
  ultimately have "k \<in> set (map word_of_nat [0..<256])" unfolding list.set_map by (rule rev_image_eqI)
  then obtain k' where "find (\<lambda>j. hex_of_bytes [j] = hex_of_bytes [k]) (map word_of_nat [0..<256]) = Some k'"
    by (cases "find (\<lambda>j. hex_of_bytes [j] = hex_of_bytes [k]) (map word_of_nat [0..<256])") (auto simp: find_None_iff)
  moreover from this have "k' = k" using hex_of_byte_inj by (auto simp: find_Some_iff)
  ultimately show "key_of_str sample_secrets (hex_of_bytes (key_bytes sample_secrets k)) = Inr k"
    by (simp add: sample_secrets_def)
qed

lemma sample_identity:
  "fst (load_or_generate_identity sample_secrets sample_state 7 sample_disk) = Inr (identity_of sample_secrets 7)"
  by code_simp

lemma sample_identity_again:
  "\<not> isl (fst (load_or_generate_identity sample_secrets sample_state 9
      (snd (load_or_generate_identity sample_secrets sample_state 7 sample_disk))))"
  by code_simp

theorem identity_is_stable_witness:
  "fst (load_or_generate_identity sample_secrets sample_state 9
      (snd (load_or_generate_identity sample_secrets sample_state 7 sample_disk))) = Inr (identity_of sample_secrets 7)"
proof -
  let ?d = "snd (load_or_generate_identity sample_secrets sample_state 7 sample_disk)"
  have first: "load_or_generate_identity sample_secrets sample_state 7 sample_disk = (Inr (identity_of sample_secrets 7), ?d)"
    using sample_identity by (metis prod.collapse)
  obtain ident d'' where "load_or_generate_identity sample_secrets sample_state 9 ?d = (Inr ident, d'')"
    using sample_identity_again by (metis prod.collapse sum.collapse(2))
  with identity_is_stable [OF first sample_secrets_reparse sample_disk_reads(1) this] show ?thesis by simp
qed

text \<open>
  Rotation is safe: when it returns, the identity is the new key's and the new key is on disk;
  and whichever step fails, a node that had a readable identity still has one, the old or the new.
\<close>

theorem rotate_identity_keeps_an_identity:
  assumes "rotate_identity K st new_key fresh d = (r, d')" and "keys_reparse K" and "reads_ok d"
    and "load_secret_key K st d = Inr k"
  shows "(load_secret_key K st d' = Inr k \<or> load_secret_key K st d' = Inr new_key)
    \<and> (\<forall>ident. r = Inr ident \<longrightarrow> ident = identity_of K new_key \<and> load_secret_key K st d' = Inr new_key)"
proof -
  consider e where "save_secret_key K st new_key d = (Inl e, d')" "r = Inl e"
    | d1 where "save_secret_key K st new_key d = (Inr (), d1)" "load_or_generate_identity K st fresh d1 = (r, d')"
    using assms(1) by (auto simp: rotate_identity_def bindS_eq_iff)
  then show ?thesis
  proof cases
    case 1
    then show ?thesis using save_secret_key_result [OF 1(1) assms(2,3)] assms(4) by simp
  next
    case (2 d1)
    note s = save_secret_key_result [OF 2(1) assms(2,3)]
    have r1: "reads_ok d1" using s assms(3) by (simp add: reads_ok_def)
    show ?thesis
    proof (cases r)
      case (Inr ident)
      then show ?thesis using load_or_generate_result [OF 2(2) [unfolded Inr] assms(2) r1] s by auto
    next
      case (Inl e)
      obtain d2 where d2: "(\<exists>x. ensure_key_dir st d1 = (x, d2))" "d' = d2 \<or> (\<not> path_exists d2 (secret_path st))"
        using 2(2) by (auto simp: load_or_generate_identity_def bindS_eq_iff Let_def split: if_splits)
      have l: "load_secret_key K st d2 = Inr new_key"
        using d2(1) ensure_key_dir_facts [of st d1 _ d2] load_secret_local [of d2 st d1 K] s by auto
      then have "path_exists d2 (secret_path st)" by (auto simp: load_secret_key_def Let_def split: if_splits)
      then show ?thesis using l d2(2) Inl by simp
    qed
  qed
qed

lemma sample_saved:
  "load_secret_key sample_secrets sample_state
     (snd (load_or_generate_identity sample_secrets sample_state 7 sample_disk)) = Inr 7"
  by code_simp

theorem rotate_identity_keeps_an_identity_witness:
  "\<exists>r d'. rotate_identity sample_secrets sample_state 9 3
        ((snd (load_or_generate_identity sample_secrets sample_state 7 sample_disk))) = (r, d')
     \<and> (load_secret_key sample_secrets sample_state d' = Inr 7 \<or> load_secret_key sample_secrets sample_state d' = Inr 9)"
proof -
  let ?d = "snd (load_or_generate_identity sample_secrets sample_state 7 sample_disk)"
  obtain r d' where run: "rotate_identity sample_secrets sample_state 9 3 ?d = (r, d')" by (rule prod.exhaust)
  have "load_or_generate_identity sample_secrets sample_state 7 sample_disk = (Inr (identity_of sample_secrets 7), ?d)"
    using sample_identity by (metis prod.collapse)
  then have "reads_ok ?d"
    using load_or_generate_result(1) [OF _ sample_secrets_reparse sample_disk_reads(1)] sample_disk_reads
    by (metis reads_ok_def)
  then show ?thesis
    using rotate_identity_keeps_an_identity [OF run sample_secrets_reparse _ sample_saved] run by blast
qed

text \<open>The tree of a file system: whatever lies below a path that does not exist does not exist.\<close>

definition parents_exist :: "disk \<Rightarrow> bool" where
  "parents_exist d \<longleftrightarrow> (\<forall>p q. p \<noteq> [] \<and> lookup d p = None \<longrightarrow> lookup d (p @ q) = None)"

lemma remove_tree_gone:
  assumes "fs_remove_dir_all p d = (x, d')" and "x = Inr () \<or> x = Inl EntryNotFound" and "parents_exist d" and "p \<noteq> []"
  shows "lookup d' (p @ q) = None"
  using assms(2)
proof
  assume "x = Inr ()"
  then show ?thesis using fs_remove_dir_all_gone assms(1) by (metis append_eq_conv_conj below_def)
next
  assume "x = Inl EntryNotFound"
  then have "d' = d" "lookup d p = None"
    using assms(1) by (auto simp: fs_remove_dir_all_def Let_def split: option.splits node.splits if_splits)
  then show ?thesis using assms(3,4) by (simp add: parents_exist_def)
qed

text \<open>
  After a reset that returned \<^verbatim>\<open>Ok\<close> there is no trust left: no authorized client, no pinned
  server, an empty listing and no password hash; every peer profile is as before.
\<close>

theorem reset_vault_forgets:
  assumes "reset_vault st d = (Inr (), d')" and "reads_ok d" and "parents_exist d"
  shows "load_authorized_client ks st d' i = Inr None \<and> load_known_server ks st d' i = Inr None
    \<and> load_all_authorized_clients ks st d' = Inr [] \<and> load_shadow_file st d' = Inr None
    \<and> (valid_peer n \<longrightarrow> load_peer J st d' n = load_peer J st d n)"
proof -
  let ?t = "root st @ [Normal ''trust'']"
  have j: "join_name (root st) ''trust'' = ?t" by (simp add: join_proper)
  obtain x d1 b where rm: "fs_remove_dir_all ?t d = (x, d1)" and x: "x = Inr () \<or> x = Inl EntryNotFound"
    and sh: "delete_shadow_file st d1 = (Inr b, d')"
    using assms(1) unfolding reset_vault_def Let_def j
    by (auto simp: bindS_eq_iff split: prod.splits sum.splits if_splits)
  have f1: "faults d1 = faults d" using onlyD(2) [OF only_remove_dir_all rm] .
  have r1: "reads_ok d1" using f1 assms(2) by (simp add: reads_ok_def)
  have only_sh: "lookup d' q = lookup d1 q" if "q \<noteq> shadow_file_path st" for q
    using sh that onlyD(1) [OF only_fs_calls(7) [of "shadow_file_path st"], of d1 _ d' q]
    by (auto simp: delete_shadow_file_def Let_def bindS_eq_iff errS_result_iffs split: if_splits)
  have f: "faults d' = faults d"
    using sh f1 onlyD(2) [OF only_fs_calls(7) [of "shadow_file_path st"], of d1 _ d']
    by (auto simp: delete_shadow_file_def Let_def bindS_eq_iff errS_result_iffs split: if_splits)
  have gone: "lookup d' (?t @ q) = None" for q
    using only_sh [of "?t @ q"] remove_tree_gone [OF rm x assms(3), of q] by (simp add: shadow_path_eq)
  have "lookup d' (client_key_path st i) = None" "lookup d' (server_key_path st i) = None"
    using gone [of "[Normal ''clients'', Normal (safe_id i @ ''.pub'')]"]
      gone [of "[Normal ''servers'', Normal (safe_id i @ ''.pub'')]"] by (simp_all add: key_paths_eq)
  then have "load_authorized_client ks st d' i = Inr None" "load_known_server ks st d' i = Inr None"
    by (simp_all add: load_authorized_client_def load_known_server_def load_key_at_absent)
  moreover have "load_all_authorized_clients ks st d' = Inr []"
    using gone [of "[Normal ''clients'']"] unfolding load_all_authorized_clients_def Let_def trust_dirs_eq
    by (simp add: path_exists_def)
  moreover have "lookup d' (shadow_file_path st) = None"
    using sh r1 by (auto simp: delete_shadow_file_def Let_def bindS_eq_iff errS_result_iffs path_exists_def reads_ok_def
        fs_remove_file_def split: if_splits option.splits node.splits)
  then have "load_shadow_file st d' = Inr None" by (simp add: load_shadow_file_def path_exists_def)
  moreover have "load_peer J st d' n = load_peer J st d n" if v: "valid_peer n"
  proof (rule load_peer_local)
    show "lookup d' (peer_path st n) = lookup d (peer_path st n)"
      using only_sh [of "peer_path st n"] onlyD(1) [OF only_remove_dir_all rm, of "peer_path st n"]
      by (simp add: peer_path_eq [OF v] shadow_path_eq below_def)
  qed (rule f)
  ultimately show ?thesis by blast
qed

lemma sample_reset: "fst (reset_vault sample_state sample_disk) = Inr ()"
  by code_simp

theorem reset_vault_forgets_witness:
  "load_authorized_client sample_keys sample_state (snd (reset_vault sample_state sample_disk)) ''x'' = Inr None
   \<and> load_shadow_file sample_state (snd (reset_vault sample_state sample_disk)) = Inr None"
proof -
  have run: "reset_vault sample_state sample_disk = (Inr (), snd (reset_vault sample_state sample_disk))"
    using sample_reset by (metis prod.collapse)
  have "parents_exist sample_disk"
    unfolding parents_exist_def
  proof (intro allI impI, elim conjE)
    fix p q :: path
    assume "p \<noteq> []" and "lookup sample_disk p = None"
    then show "lookup sample_disk (p @ q) = None"
      by (cases p; cases "tl p"; cases "tl (tl p)") (auto simp: lookup_def sample_disk_def split: if_splits)
  qed
  from reset_vault_forgets [OF run sample_disk_reads(1) this] show ?thesis by blast
qed

end
