(* ===== verification/Auth_Interface.thy ===== *)
theory Auth_Interface
  imports State_Store
begin

text \<open>
  What the authentication backends share: the trait \<^verbatim>\<open>Authenticator\<close> of \<^verbatim>\<open>src/auth/mod.rs\<close> as a
  locale, and the decaying failure counter that \<^verbatim>\<open>password.rs\<close> and \<^verbatim>\<open>unified.rs\<close> both contain,
  as another.  Time is the monotonic clock in nanoseconds.
\<close>

datatype auth_method = PublicKey | Password

datatype auth_mode = KeyMode | PasswordMode | CombinedMode | UnifiedMode

datatype host_key_policy = Strict | Tofu | AcceptAll

text \<open>The answer of \<^verbatim>\<open>Argon2::verify_password\<close> on a password and a hash text.\<close>

datatype verify_result = Verified | PasswordInvalid | VerifyError foreign_error

text \<open>The errors of \<^verbatim>\<open>IroshError\<close> that the checks return.\<close>

datatype irosh_error =
    StorageFailed storage_error
  | VerificationFailed foreign_error
  | ServerKeyMismatch string string

type_synonym verifier = "string \<Rightarrow> string \<Rightarrow> verify_result"

definition LOCKOUT_WINDOW :: nat where "LOCKOUT_WINDOW = 60 * 10 ^ 9"

section \<open>The rate limiter\<close>

text \<open>How many of the attempts at the given times get past the limiter, when all of them fail.\<close>

fun evaluated :: "(nat \<Rightarrow> 's \<Rightarrow> bool \<times> 's) \<Rightarrow> (nat \<Rightarrow> 's \<Rightarrow> 's) \<Rightarrow> nat list \<Rightarrow> 's \<Rightarrow> nat" where
  "evaluated lck rec [] s = 0"
| "evaluated lck rec (t # ts) s =
     (let (l, s1) = lck t s in if l then evaluated lck rec ts s1 else Suc (evaluated lck rec ts (rec t s1)))"

locale rate_limiter =
  fixes attempts :: "'s \<Rightarrow> u32"
    and last_fail :: "'s \<Rightarrow> nat option"
    and lck :: "nat \<Rightarrow> 's \<Rightarrow> bool \<times> 's"
    and rst :: "'s \<Rightarrow> 's"
    and rec :: "nat \<Rightarrow> 's \<Rightarrow> 's"
  assumes lck_iff: "fst (lck now s) \<longleftrightarrow>
      3 \<le> attempts s \<and> (case last_fail s of None \<Rightarrow> True | Some t \<Rightarrow> now - t \<le> LOCKOUT_WINDOW)"
    and lck_attempts: "attempts (snd (lck now s)) = (if fst (lck now s) \<or> attempts s < 3 then attempts s else 0)"
    and lck_last: "last_fail (snd (lck now s)) = last_fail s"
    and rst_attempts: "attempts (rst s) = 0"
    and rst_last: "last_fail (rst s) = last_fail s"
    and rec_attempts: "attempts (rec now s) = attempts s + 1"
    and rec_last: "last_fail (rec now s) = Some now"
begin

lemma small_add: "attempts s < 3 \<Longrightarrow> unat (attempts s + 1) = Suc (unat (attempts s))"
proof -
  assume "attempts s < 3"
  then have "unat (attempts s) < 3" by (simp add: word_less_nat_alt)
  then show ?thesis by (simp add: unat_word_ariths)
qed

lemma unlocked_attempts: "\<not> fst (lck now s) \<Longrightarrow> attempts (snd (lck now s)) < 3"
  using lck_attempts [of now s] by (auto split: if_splits)

lemma bounded_after_failure: "\<not> fst (lck now s) \<Longrightarrow> attempts (rec now (snd (lck now s))) \<le> 3"
  using unlocked_attempts [of now s] small_add [of "snd (lck now s)"]
  by (simp add: rec_attempts word_le_nat_alt word_less_nat_alt)

lemma stays_locked:
  assumes "3 \<le> attempts s" and "last_fail s = Some t" and "\<forall>t' \<in> set ts. t' - t \<le> LOCKOUT_WINDOW"
  shows "evaluated lck rec ts s = 0"
  using assms
proof (induction ts arbitrary: s)
  case (Cons u ts)
  obtain l s1 where l: "lck u s = (l, s1)" by (rule prod.exhaust)
  have "fst (lck u s)" using Cons.prems lck_iff [of u s] by simp
  moreover have "3 \<le> attempts s1" "last_fail s1 = Some t"
    using calculation lck_attempts [of u s] lck_last [of u s] Cons.prems l by simp_all
  ultimately show ?case using Cons.IH [of s1] Cons.prems l by simp
qed simp

text \<open>Within one window, from a state that is not locked, at most three failing attempts are evaluated.\<close>

theorem evaluated_bound:
  assumes "\<forall>t \<in> set ts. t0 \<le> t \<and> t \<le> t0 + LOCKOUT_WINDOW" and "attempts s < 3"
  shows "evaluated lck rec ts s \<le> 3 - unat (attempts s)"
  using assms
proof (induction ts arbitrary: s)
  case (Cons u ts)
  obtain l s1 where l: "lck u s = (l, s1)" by (rule prod.exhaust)
  have nl: "\<not> l" using lck_iff [of u s] Cons.prems l by auto
  have s1: "attempts s1 = attempts s" using lck_attempts [of u s] Cons.prems l by simp
  let ?s2 = "rec u s1"
  have a2: "unat (attempts ?s2) = Suc (unat (attempts s))"
    using small_add [of s1] s1 Cons.prems by (simp add: rec_attempts)
  have "evaluated lck rec ts ?s2 \<le> 3 - unat (attempts ?s2)"
  proof (cases "attempts ?s2 < 3")
    case True
    then show ?thesis using Cons by auto
  next
    case False
    have "evaluated lck rec ts ?s2 = 0"
      by (rule stays_locked [OF _ rec_last]) (use False Cons.prems in \<open>auto simp: not_less\<close>)
    then show ?thesis by simp
  qed
  moreover have "unat (attempts s) < 3" using Cons.prems(2) by (simp add: word_less_nat_alt)
  ultimately show ?case using l nl a2 by simp
qed simp

lemma decays:
  assumes "last_fail s = Some t" and "t + LOCKOUT_WINDOW < now"
  shows "\<not> fst (lck now s)"
  using assms lck_iff [of now s] by auto

end

section \<open>The authenticator interface\<close>

text \<open>
  A backend has its own state (with the disk), the methods it advertises and the two checks.
  Its promise: a method it does not advertise is not accepted.
\<close>

locale authenticator =
  fixes supported_methods :: "'w \<Rightarrow> auth_method list"
    and check_public_key :: "nat \<Rightarrow> 'k \<Rightarrow> 'w \<Rightarrow> (irosh_error + bool) \<times> 'w"
    and check_password :: "nat \<Rightarrow> string \<Rightarrow> 'w \<Rightarrow> (irosh_error + bool) \<times> 'w"
  assumes unlisted_key: "PublicKey \<notin> set (supported_methods w) \<Longrightarrow> fst (check_public_key now k w) \<noteq> Inr True"
    and unlisted_password: "Password \<notin> set (supported_methods w) \<Longrightarrow> fst (check_password now p w) \<noteq> Inr True"

datatype 'k credential = Key 'k | Pass string

fun method_of :: "'k credential \<Rightarrow> auth_method" where
  "method_of (Key k) = PublicKey"
| "method_of (Pass p) = Password"

fun attempt ::
  "(nat \<Rightarrow> 'k \<Rightarrow> 'w \<Rightarrow> (irosh_error + bool) \<times> 'w) \<Rightarrow> (nat \<Rightarrow> string \<Rightarrow> 'w \<Rightarrow> (irosh_error + bool) \<times> 'w)
    \<Rightarrow> nat \<Rightarrow> 'k credential \<Rightarrow> 'w \<Rightarrow> (irosh_error + bool) \<times> 'w" where
  "attempt ck cp now (Key k) w = ck now k w"
| "attempt ck cp now (Pass p) w = cp now p w"

text \<open>A handshake: credentials are tried until one is accepted; the state before each, and whether it won.\<close>

fun handshake ::
  "(nat \<Rightarrow> 'k \<Rightarrow> 'w \<Rightarrow> (irosh_error + bool) \<times> 'w) \<Rightarrow> (nat \<Rightarrow> string \<Rightarrow> 'w \<Rightarrow> (irosh_error + bool) \<times> 'w)
    \<Rightarrow> (nat \<times> 'k credential) list \<Rightarrow> 'w \<Rightarrow> ('w \<times> 'k credential) option" where
  "handshake ck cp [] w = None"
| "handshake ck cp ((t, c) # cs) w =
     (case attempt ck cp t c w of
        (Inr True, w') \<Rightarrow> Some (w, c)
      | (_, w') \<Rightarrow> handshake ck cp cs w')"

context authenticator
begin

lemma accepted_is_listed:
  "fst (attempt check_public_key check_password now c w) = Inr True \<Longrightarrow> method_of c \<in> set (supported_methods w)"
  using unlisted_key [of w now] unlisted_password [of w now] by (cases c) (simp, blast)+

theorem handshake_listed:
  "handshake check_public_key check_password cs w = Some (w', c) \<Longrightarrow> method_of c \<in> set (supported_methods w')"
proof (induction cs arbitrary: w)
  case (Cons tc cs)
  obtain t d where tc: "tc = (t, d)" by (rule prod.exhaust)
  obtain r w1 where run: "attempt check_public_key check_password t d w = (r, w1)" by (rule prod.exhaust)
  show ?case
  proof (cases "r = Inr True")
    case True
    then show ?thesis using Cons.prems tc run accepted_is_listed [of t d w] by simp
  next
    case False
    then have "handshake check_public_key check_password cs w1 = Some (w', c)"
      using Cons.prems tc run by (auto split: sum.splits bool.splits)
    then show ?thesis by (rule Cons.IH)
  qed
qed simp

end

end
