(* ===== verification/Auth_Backends.thy ===== *)
theory Auth_Backends
  imports Auth_Interface
begin

text \<open>
  The backends \<^verbatim>\<open>KeyOnlyAuth\<close> and \<^verbatim>\<open>CombinedAuth\<close> (\<^verbatim>\<open>src/auth/key.rs\<close>) and \<^verbatim>\<open>PasswordAuth\<close>
  (\<^verbatim>\<open>password.rs\<close>).  The shared cells of the Rust values (key list, counters) are fields of the state; a
  check runs as one step.  A poisoned mutex and a failed blocking task are not modelled.
\<close>

section \<open>Keys only\<close>

record 'k key_only_auth =
  ko_policy :: host_key_policy
  ko_authorized_keys :: "'k list"
  ko_state :: state_config

definition key_only_new :: "host_key_policy \<Rightarrow> 'k list \<Rightarrow> state_config \<Rightarrow> 'k key_only_auth" where
  "key_only_new p keys st = \<lparr>ko_policy = p, ko_authorized_keys = keys, ko_state = st\<rparr>"

definition key_only_supported_methods :: "'k key_only_auth \<times> disk \<Rightarrow> auth_method list" where
  "key_only_supported_methods w = [PublicKey]"

definition key_only_check_public_key ::
  "'k ssh_keys \<Rightarrow> nat \<Rightarrow> 'k \<Rightarrow> 'k key_only_auth \<times> disk \<Rightarrow> (irosh_error + bool) \<times> ('k key_only_auth \<times> disk)" where
  "key_only_check_public_key ks now key w =
     (case w of (a, d) \<Rightarrow>
      if ko_policy a = AcceptAll then (Inr True, (a, d))
      else if ko_authorized_keys a \<noteq> [] then (Inr (key \<in> set (ko_authorized_keys a)), (a, d))
      else case ko_policy a of
          Strict \<Rightarrow> (Inr False, (a, d))
        | Tofu \<Rightarrow>
            (case write_authorized_client ks (ko_state a) (fingerprint ks key) key d of
               (Inl e, d') \<Rightarrow> (Inl (StorageFailed e), (a, d'))
             | (Inr _, d') \<Rightarrow> (Inr True, (a\<lparr>ko_authorized_keys := ko_authorized_keys a @ [key]\<rparr>, d')))
        | AcceptAll \<Rightarrow> (Inr True, (a, d)))"

definition key_only_check_password ::
  "nat \<Rightarrow> string \<Rightarrow> 'k key_only_auth \<times> disk \<Rightarrow> (irosh_error + bool) \<times> ('k key_only_auth \<times> disk)" where
  "key_only_check_password now password w = (Inr False, w)"

section \<open>One password\<close>

record password_auth =
  pa_password_hash :: string
  pa_failed_attempts :: u32
  pa_last_failure :: "nat option"

definition password_auth_new :: "string \<Rightarrow> password_auth" where
  "password_auth_new h = \<lparr>pa_password_hash = h, pa_failed_attempts = 0, pa_last_failure = None\<rparr>"

definition pa_is_locked_out :: "nat \<Rightarrow> password_auth \<Rightarrow> bool \<times> password_auth" where
  "pa_is_locked_out now a =
     (if pa_failed_attempts a < 3 then (False, a)
      else case pa_last_failure a of
          None \<Rightarrow> (True, a)
        | Some t \<Rightarrow> if now - t > LOCKOUT_WINDOW then (False, a\<lparr>pa_failed_attempts := 0\<rparr>) else (True, a))"

definition pa_reset_failures :: "password_auth \<Rightarrow> password_auth" where
  "pa_reset_failures a = a\<lparr>pa_failed_attempts := 0\<rparr>"

definition pa_record_failure :: "nat \<Rightarrow> password_auth \<Rightarrow> password_auth" where
  "pa_record_failure now a = a\<lparr>pa_last_failure := Some now, pa_failed_attempts := pa_failed_attempts a + 1\<rparr>"

definition pa_supported_methods :: "password_auth \<Rightarrow> auth_method list" where
  "pa_supported_methods a = [Password]"

definition pa_check_public_key :: "nat \<Rightarrow> 'k \<Rightarrow> password_auth \<Rightarrow> (irosh_error + bool) \<times> password_auth" where
  "pa_check_public_key now key a = (Inr False, a)"

definition pa_check_password ::
  "verifier \<Rightarrow> nat \<Rightarrow> string \<Rightarrow> password_auth \<Rightarrow> (irosh_error + bool) \<times> password_auth" where
  "pa_check_password V now password a =
     (case pa_is_locked_out now a of
        (True, a1) \<Rightarrow> (Inr False, a1)
      | (False, a1) \<Rightarrow>
          (case V password (pa_password_hash a1) of
             Verified \<Rightarrow> (Inr True, pa_reset_failures a1)
           | PasswordInvalid \<Rightarrow> (Inr False, pa_record_failure now a1)
           | VerifyError e \<Rightarrow> (Inl (VerificationFailed e), a1)))"

section \<open>Either\<close>

record 'k combined_auth =
  key_auth :: "'k key_only_auth"
  password_auth :: password_auth

definition combined_supported_methods :: "'k combined_auth \<times> disk \<Rightarrow> auth_method list" where
  "combined_supported_methods w = [PublicKey, Password]"

definition combined_check_public_key ::
  "'k ssh_keys \<Rightarrow> nat \<Rightarrow> 'k \<Rightarrow> 'k combined_auth \<times> disk \<Rightarrow> (irosh_error + bool) \<times> ('k combined_auth \<times> disk)" where
  "combined_check_public_key ks now key w =
     (case w of (a, d) \<Rightarrow>
      case key_only_check_public_key ks now key (key_auth a, d) of
        (r, (ka, d')) \<Rightarrow> (r, (a\<lparr>key_auth := ka\<rparr>, d')))"

definition combined_check_password ::
  "verifier \<Rightarrow> nat \<Rightarrow> string \<Rightarrow> 'k combined_auth \<times> disk \<Rightarrow> (irosh_error + bool) \<times> ('k combined_auth \<times> disk)" where
  "combined_check_password V now password w =
     (case w of (a, d) \<Rightarrow>
      case pa_check_password V now password (password_auth a) of
        (r, pa) \<Rightarrow> (r, (a\<lparr>password_auth := pa\<rparr>, d)))"

section \<open>The contracts\<close>

interpretation pa_limit: rate_limiter pa_failed_attempts pa_last_failure pa_is_locked_out pa_reset_failures
  pa_record_failure
proof (unfold_locales, goal_cases)
  case (1 now s)
  then show ?case by (cases "pa_last_failure s") (auto simp: pa_is_locked_out_def not_less)
next
  case (2 now s)
  then show ?case by (cases "pa_last_failure s") (auto simp: pa_is_locked_out_def)
next
  case (3 now s)
  then show ?case by (cases "pa_last_failure s") (auto simp: pa_is_locked_out_def)
qed (simp_all add: pa_reset_failures_def pa_record_failure_def)

interpretation key_only: authenticator key_only_supported_methods "key_only_check_public_key ks" key_only_check_password
  for ks
  by unfold_locales (simp_all add: key_only_supported_methods_def key_only_check_password_def)

interpretation pa: authenticator pa_supported_methods pa_check_public_key "pa_check_password V" for V
  by unfold_locales (simp_all add: pa_supported_methods_def pa_check_public_key_def)

interpretation combined: authenticator combined_supported_methods "combined_check_public_key ks"
  "combined_check_password V" for ks V
  by unfold_locales (simp_all add: combined_supported_methods_def)

end
