(* ===== verification/Unified_Auth.thy ===== *)
theory Unified_Auth
  imports Auth_Backends
begin

text \<open>
  \<^verbatim>\<open>src/auth/unified.rs\<close>: the authenticator of the server, with the precedence of vault, node
  password, pairing password and trust on first use.  Its state is the record; the vault and the
  password file are on the disk beside it.  \<^verbatim>\<open>success_tx\<close> and \<^verbatim>\<open>failure_tx\<close> count the
  notifications given to a channel, if there is one.
\<close>

section \<open>State\<close>

record pairing_monitor =
  pm_success_flag :: bool
  pm_failed_attempts :: u32
  pm_success_tx :: "nat option"
  pm_failure_tx :: "nat option"

record 'k unified =
  ua_state :: state_config
  policy :: host_key_policy
  authorized_keys :: "'k list"
  temp_password_hash :: "string option"
  success_flag :: bool
  failed_attempts :: u32
  last_failure :: "nat option"
  cached_key :: "'k option"
  success_tx :: "nat option"
  failure_tx :: "nat option"

definition unified_new :: "state_config \<Rightarrow> host_key_policy \<Rightarrow> 'k list \<Rightarrow> string option \<Rightarrow> 'k unified" where
  "unified_new st p keys temp =
     \<lparr>ua_state = st, policy = p, authorized_keys = keys, temp_password_hash = temp, success_flag = False,
      failed_attempts = 0, last_failure = None, cached_key = None, success_tx = None, failure_tx = None\<rparr>"

definition with_tracking ::
  "state_config \<Rightarrow> host_key_policy \<Rightarrow> 'k list \<Rightarrow> string option \<Rightarrow> pairing_monitor \<Rightarrow> 'k unified" where
  "with_tracking st p keys temp m =
     \<lparr>ua_state = st, policy = p, authorized_keys = keys, temp_password_hash = temp,
      success_flag = pm_success_flag m, failed_attempts = pm_failed_attempts m, last_failure = None,
      cached_key = None, success_tx = pm_success_tx m, failure_tx = pm_failure_tx m\<rparr>"

definition for_new_session :: "'k unified \<Rightarrow> 'k unified" where
  "for_new_session a = a\<lparr>cached_key := None\<rparr>"

section \<open>The rate limiter\<close>

definition is_locked_out :: "nat \<Rightarrow> 'k unified \<Rightarrow> bool \<times> 'k unified" where
  "is_locked_out now a =
     (if failed_attempts a < 3 then (False, a)
      else case last_failure a of
          None \<Rightarrow> (True, a)
        | Some t \<Rightarrow> if now - t > LOCKOUT_WINDOW then (False, a\<lparr>failed_attempts := 0\<rparr>) else (True, a))"

definition reset_failures :: "'k unified \<Rightarrow> 'k unified" where
  "reset_failures a = a\<lparr>failed_attempts := 0\<rparr>"

definition record_failure :: "nat \<Rightarrow> 'k unified \<Rightarrow> 'k unified" where
  "record_failure now a =
     (let fails = failed_attempts a + 1;
          a1 = a\<lparr>last_failure := Some now, failed_attempts := fails\<rparr>
      in if fails \<ge> 3 then a1\<lparr>failure_tx := map_option Suc (failure_tx a)\<rparr> else a1)"

section \<open>Checks\<close>

definition refresh_keys :: "'k ssh_keys \<Rightarrow> disk \<Rightarrow> 'k unified \<Rightarrow> (storage_error + unit) \<times> 'k unified" where
  "refresh_keys ks d a =
     (case load_all_authorized_clients ks (ua_state a) d of
        Inl e \<Rightarrow> (Inl e, a)
      | Inr vault \<Rightarrow> (Inr (), a\<lparr>authorized_keys := map snd vault\<rparr>))"

definition check_password_match :: "verifier \<Rightarrow> disk \<Rightarrow> 'k unified \<Rightarrow> string \<Rightarrow> bool option" where
  "check_password_match V d a password =
     (let temp = (case temp_password_hash a of
                    Some hash \<Rightarrow> if V password hash = Verified then Some True else None
                  | None \<Rightarrow> None)
      in case load_shadow_file (ua_state a) d of
           Inr (Some hash) \<Rightarrow> if V password hash = Verified then Some False else temp
         | Inr None \<Rightarrow> temp
         | Inl _ \<Rightarrow> None)"

definition notify_success :: "'k unified \<Rightarrow> 'k unified" where
  "notify_success a = a\<lparr>success_tx := map_option Suc (success_tx a)\<rparr>"

definition node_pw_exists :: "disk \<Rightarrow> 'k unified \<Rightarrow> bool" where
  "node_pw_exists d a = (case load_shadow_file (ua_state a) d of Inr hash \<Rightarrow> hash \<noteq> None | Inl _ \<Rightarrow> True)"

definition unified_supported_methods :: "'k unified \<times> disk \<Rightarrow> auth_method list" where
  "unified_supported_methods w =
     (case w of (a, d) \<Rightarrow>
      [PublicKey] @ (if node_pw_exists d a \<or> temp_password_hash a \<noteq> None then [Password] else []))"

definition unified_check_public_key ::
  "'k ssh_keys \<Rightarrow> nat \<Rightarrow> 'k \<Rightarrow> 'k unified \<times> disk \<Rightarrow> (irosh_error + bool) \<times> ('k unified \<times> disk)" where
  "unified_check_public_key ks now key w =
     (let (locked, a) = is_locked_out now (fst w); d = snd w in
      if locked then (Inr False, (a, d))
      else if policy a = AcceptAll then (Inr True, (a, d))
      else if key \<in> set (authorized_keys a) then (Inr True, (reset_failures a, d))
      else
        let a1 = snd (refresh_keys ks d a) in
        if key \<in> set (authorized_keys a1) then (Inr True, (reset_failures a1, d))
        else if policy a1 = Strict then (Inr False, (record_failure now a1, d))
        else if node_pw_exists d a1 \<or> temp_password_hash a1 \<noteq> None
        then (Inr False, (a1\<lparr>cached_key := Some key\<rparr>, d))
        else if authorized_keys a1 = []
        then (case write_authorized_client ks (ua_state a1) (fingerprint ks key) key d of
                (Inl e, d') \<Rightarrow> (Inl (StorageFailed e), (a1, d'))
              | (Inr _, d') \<Rightarrow>
                  (Inr True, (notify_success (reset_failures
                     (a1\<lparr>authorized_keys := authorized_keys a1 @ [key], success_flag := True\<rparr>)), d')))
        else (Inr False, (record_failure now a1, d)))"

definition unified_check_password ::
  "verifier \<Rightarrow> 'k ssh_keys \<Rightarrow> nat \<Rightarrow> string \<Rightarrow> 'k unified \<times> disk \<Rightarrow> (irosh_error + bool) \<times> ('k unified \<times> disk)" where
  "unified_check_password V ks now password w =
     (let (locked, a) = is_locked_out now (fst w); d = snd w in
      if locked then (Inr False, (a, d))
      else case check_password_match V d a password of
          Some True \<Rightarrow>
            (let a1 = a\<lparr>cached_key := None\<rparr> in
             case cached_key a of
               None \<Rightarrow> (Inr True, (reset_failures a1, d))
             | Some key \<Rightarrow>
                 if key \<in> set (authorized_keys a1) then (Inr True, (reset_failures a1, d))
                 else (case write_authorized_client ks (ua_state a1) (fingerprint ks key) key d of
                         (Inl e, d') \<Rightarrow> (Inl (StorageFailed e), (a1, d'))
                       | (Inr _, d') \<Rightarrow>
                           (Inr True, (reset_failures (notify_success
                              (a1\<lparr>authorized_keys := authorized_keys a1 @ [key], success_flag := True\<rparr>)), d'))))
        | Some False \<Rightarrow> (Inr True, (reset_failures (a\<lparr>cached_key := None\<rparr>), d))
        | None \<Rightarrow> (Inr False, (record_failure now (a\<lparr>cached_key := None\<rparr>), d)))"

section \<open>The contracts\<close>

lemma is_locked_out_cases:
  obtains "is_locked_out now a = (True, a)" "3 \<le> failed_attempts a"
    | "is_locked_out now a = (False, a)" "failed_attempts a < 3"
    | "is_locked_out now a = (False, a\<lparr>failed_attempts := 0\<rparr>)"
proof (cases "failed_attempts a < 3")
  case False
  then show thesis
    using that(1,3) by (cases "last_failure a"; cases "LOCKOUT_WINDOW < now - the (last_failure a)")
      (simp_all add: is_locked_out_def not_less)
qed (simp add: that(2) is_locked_out_def)

interpretation limit: rate_limiter failed_attempts last_failure is_locked_out reset_failures record_failure
proof (unfold_locales, goal_cases)
  case (1 now s)
  then show ?case by (cases "last_failure s") (auto simp: is_locked_out_def not_less)
next
  case (2 now s)
  then show ?case by (cases "last_failure s") (auto simp: is_locked_out_def)
next
  case (3 now s)
  then show ?case by (cases "last_failure s") (auto simp: is_locked_out_def)
qed (simp_all add: reset_failures_def record_failure_def Let_def)

text \<open>Fields the helpers leave alone.\<close>

lemma is_locked_out_fields [simp]:
  "policy (snd (is_locked_out now a)) = policy a"
  "ua_state (snd (is_locked_out now a)) = ua_state a"
  "authorized_keys (snd (is_locked_out now a)) = authorized_keys a"
  "temp_password_hash (snd (is_locked_out now a)) = temp_password_hash a"
  "cached_key (snd (is_locked_out now a)) = cached_key a"
  "success_flag (snd (is_locked_out now a)) = success_flag a"
  by (cases rule: is_locked_out_cases [of now a]; simp)+

lemma limiter_fields [simp]:
  "policy (reset_failures a) = policy a" "policy (record_failure now a) = policy a"
  "ua_state (reset_failures a) = ua_state a" "ua_state (record_failure now a) = ua_state a"
  "authorized_keys (reset_failures a) = authorized_keys a" "authorized_keys (record_failure now a) = authorized_keys a"
  "temp_password_hash (reset_failures a) = temp_password_hash a"
  "temp_password_hash (record_failure now a) = temp_password_hash a"
  "cached_key (reset_failures a) = cached_key a" "cached_key (record_failure now a) = cached_key a"
  by (simp_all add: reset_failures_def record_failure_def Let_def)

lemma notify_fields [simp]:
  "policy (notify_success a) = policy a" "ua_state (notify_success a) = ua_state a"
  "authorized_keys (notify_success a) = authorized_keys a"
  "temp_password_hash (notify_success a) = temp_password_hash a" "cached_key (notify_success a) = cached_key a"
  "failed_attempts (notify_success a) = failed_attempts a" "last_failure (notify_success a) = last_failure a"
  by (simp_all add: notify_success_def)

lemma refresh_fields [simp]:
  "policy (snd (refresh_keys ks d a)) = policy a" "ua_state (snd (refresh_keys ks d a)) = ua_state a"
  "temp_password_hash (snd (refresh_keys ks d a)) = temp_password_hash a"
  "cached_key (snd (refresh_keys ks d a)) = cached_key a"
  "failed_attempts (snd (refresh_keys ks d a)) = failed_attempts a"
  "last_failure (snd (refresh_keys ks d a)) = last_failure a"
  by (auto simp: refresh_keys_def split: sum.splits)

lemma password_facts_local:
  "ua_state a' = ua_state a \<Longrightarrow> temp_password_hash a' = temp_password_hash a \<Longrightarrow>
     check_password_match V d a' pw = check_password_match V d a pw"
  "ua_state a' = ua_state a \<Longrightarrow> node_pw_exists d a' = node_pw_exists d a"
  by (simp_all add: check_password_match_def node_pw_exists_def)

lemma no_password_no_match:
  "\<not> node_pw_exists d a \<Longrightarrow> temp_password_hash a = None \<Longrightarrow> check_password_match V d a pw = None"
  by (auto simp: check_password_match_def node_pw_exists_def split: sum.splits)

interpretation unified: authenticator unified_supported_methods "unified_check_public_key ks"
  "unified_check_password V ks" for ks V
proof (unfold_locales, goal_cases)
  case (1 w now k)
  then show ?case by (simp add: unified_supported_methods_def case_prod_beta)
next
  case (2 w now p)
  let ?a = "snd (is_locked_out now (fst w))"
  have n: "\<not> node_pw_exists (snd w) (fst w)" "temp_password_hash (fst w) = None"
    using 2 by (auto simp: unified_supported_methods_def case_prod_beta split: if_splits)
  have "check_password_match V (snd w) ?a p = None"
    using no_password_no_match [OF n] password_facts_local(1) [of ?a "fst w"] by simp
  then show ?case by (simp add: unified_check_password_def case_prod_beta Let_def)
qed

section \<open>The outcome of the checks\<close>

text \<open>The key check once the limiter has let it pass.\<close>

lemma check_public_key_unlocked:
  assumes "is_locked_out now a = (False, b)"
  shows "unified_check_public_key ks now key (a, d) =
     (let b1 = snd (refresh_keys ks d b) in
      if policy b = AcceptAll then (Inr True, (b, d))
      else if key \<in> set (authorized_keys b) then (Inr True, (reset_failures b, d))
      else if key \<in> set (authorized_keys b1) then (Inr True, (reset_failures b1, d))
      else if policy b = Strict then (Inr False, (record_failure now b1, d))
      else if node_pw_exists d b \<or> temp_password_hash b \<noteq> None then (Inr False, (b1\<lparr>cached_key := Some key\<rparr>, d))
      else if authorized_keys b1 = []
      then (case write_authorized_client ks (ua_state b) (fingerprint ks key) key d of
                (Inl e, d') \<Rightarrow> (Inl (StorageFailed e), (b1, d'))
              | (Inr _, d') \<Rightarrow>
                  (Inr True, (notify_success (reset_failures
                     (b1\<lparr>authorized_keys := authorized_keys b1 @ [key], success_flag := True\<rparr>)), d')))
      else (Inr False, (record_failure now b1, d)))"
  using assms password_facts_local(2) [of "snd (refresh_keys ks d b)" b d]
  by (simp add: unified_check_public_key_def Let_def)

lemma check_password_unlocked:
  assumes "is_locked_out now a = (False, b)"
  shows "unified_check_password V ks now password (a, d) =
     (let b1 = b\<lparr>cached_key := None\<rparr> in
      case check_password_match V d a password of
          Some True \<Rightarrow>
            (case cached_key a of
               None \<Rightarrow> (Inr True, (reset_failures b1, d))
             | Some key \<Rightarrow>
                 if key \<in> set (authorized_keys a) then (Inr True, (reset_failures b1, d))
                 else (case write_authorized_client ks (ua_state a) (fingerprint ks key) key d of
                         (Inl e, d') \<Rightarrow> (Inl (StorageFailed e), (b1, d'))
                       | (Inr _, d') \<Rightarrow>
                           (Inr True, (reset_failures (notify_success
                              (b1\<lparr>authorized_keys := authorized_keys a @ [key], success_flag := True\<rparr>)), d'))))
        | Some False \<Rightarrow> (Inr True, (reset_failures b1, d))
        | None \<Rightarrow> (Inr False, (record_failure now b1, d)))"
proof -
  have "ua_state b = ua_state a" "temp_password_hash b = temp_password_hash a" "authorized_keys b = authorized_keys a"
    "cached_key b = cached_key a"
    using is_locked_out_fields [of now a] assms by simp_all
  then show ?thesis
    using assms password_facts_local(1) [of b a V d password]
    by (cases "check_password_match V d a password"; cases "the (check_password_match V d a password)"; cases "cached_key a")
      (simp_all add: unified_check_password_def Let_def split: prod.splits sum.splits)
qed

lemma checks_locked:
  assumes "fst (is_locked_out now a)"
  shows "unified_check_public_key ks now key (a, d) = (Inr False, (a, d))"
    and "unified_check_password V ks now password (a, d) = (Inr False, (a, d))"
  by (cases rule: is_locked_out_cases [of now a];
      use assms in \<open>simp add: unified_check_public_key_def unified_check_password_def Let_def\<close>)+

text \<open>Everything a password check can do.\<close>

lemma password_check_effect:
  assumes "unified_check_password V ks now pw (a, d) = (r, (a', d'))"
  shows "(d' = d \<and> authorized_keys a' = authorized_keys a
          \<or> (\<exists>key. cached_key a = Some key \<and> key \<notin> set (authorized_keys a) \<and> check_password_match V d a pw = Some True
              \<and> d' = snd (write_authorized_client ks (ua_state a) (fingerprint ks key) key d)
              \<and> (authorized_keys a' = authorized_keys a @ [key] \<or> authorized_keys a' = authorized_keys a \<and> isl r)))
     \<and> (\<not> fst (is_locked_out now a) \<longrightarrow> cached_key a' = None)
     \<and> (r = Inr True \<longrightarrow> check_password_match V d a pw \<noteq> None)"
proof (cases "fst (is_locked_out now a)")
  case True
  then show ?thesis using assms checks_locked(2) [of now a V ks pw d] by auto
next
  case False
  obtain b where b: "is_locked_out now a = (False, b)" using False by (cases "is_locked_out now a") auto
  have f: "authorized_keys b = authorized_keys a" "cached_key b = cached_key a"
    using is_locked_out_fields [of now a] b by simp_all
  have run: "unified_check_password V ks now pw (a, d) = (r, (a', d'))" by (rule assms)
  consider "check_password_match V d a pw = None" | "check_password_match V d a pw = Some False"
    | "check_password_match V d a pw = Some True" "cached_key a = None"
    | key where "check_password_match V d a pw = Some True" "cached_key a = Some key" "key \<in> set (authorized_keys a)"
    | key x d2 where "check_password_match V d a pw = Some True" "cached_key a = Some key" "key \<notin> set (authorized_keys a)"
        "write_authorized_client ks (ua_state a) (fingerprint ks key) key d = (x, d2)"
    by (metis (full_types) not_None_eq surj_pair)
  then show ?thesis
  proof cases
    case (5 key x d2)
    then show ?thesis using run b f by (cases x) (auto simp: check_password_unlocked [OF b] Let_def)
  qed (use run b f in \<open>auto simp: check_password_unlocked [OF b] Let_def\<close>)
qed

section \<open>Guessing passwords\<close>

text \<open>How many of the attempts of a client reach the comparison with a hash.\<close>

fun guesses :: "verifier \<Rightarrow> 'k ssh_keys \<Rightarrow> (nat \<times> string) list \<Rightarrow> 'k unified \<times> disk \<Rightarrow> nat" where
  "guesses V ks [] w = 0"
| "guesses V ks ((t, pw) # xs) w =
     (if fst (is_locked_out t (fst w)) then 0 else 1) + guesses V ks xs (snd (unified_check_password V ks t pw w))"

interpretation wrong: rate_limiter failed_attempts last_failure is_locked_out reset_failures
  "\<lambda>t a. record_failure t (a\<lparr>cached_key := None\<rparr>)"
  by unfold_locales
    (simp_all add: limit.lck_iff limit.lck_attempts limit.lck_last limit.rst_attempts limit.rst_last limit.rec_attempts
      limit.rec_last)

lemma guesses_evaluated:
  assumes "\<forall>(t, pw) \<in> set xs. check_password_match V d a pw = None"
  shows "guesses V ks xs (a, d) = evaluated is_locked_out (\<lambda>t a. record_failure t (a\<lparr>cached_key := None\<rparr>)) (map fst xs) a"
  using assms
proof (induction xs arbitrary: a)
  case (Cons x xs)
  obtain t pw where x: "x = (t, pw)" by (rule prod.exhaust)
  obtain l b where l: "is_locked_out t a = (l, b)" by (rule prod.exhaust)
  have b: "ua_state b = ua_state a" "temp_password_hash b = temp_password_hash a"
    using is_locked_out_fields [of t a] l by simp_all
  show ?case
  proof (cases l)
    case True
    then have "b = a" using is_locked_out_cases [of t a thesis] l by (metis Pair_inject is_locked_out_cases)
    then show ?thesis using True l x Cons checks_locked(2) [of t a V ks pw d] by simp
  next
    case False
    let ?c = "record_failure t (b\<lparr>cached_key := None\<rparr>)"
    have "snd (unified_check_password V ks t pw (a, d)) = (?c, d)"
      using check_password_unlocked [of t a b V ks pw d] Cons.prems l x False by simp
    moreover have "\<forall>(t, pw) \<in> set xs. check_password_match V d ?c pw = None"
      using Cons.prems password_facts_local(1) [of ?c a V d] b by auto
    ultimately show ?thesis using Cons.IH [of ?c] False l x by simp
  qed
qed simp

section \<open>Properties\<close>


definition sample_auth :: "string unified" where
  "sample_auth = unified_new sample_state Tofu [] (Some ''secret'')"

definition sample_verifier :: verifier where
  "sample_verifier pw h = (if pw = h then Verified else PasswordInvalid)"


text \<open>
  C33. Which public keys are accepted: never one while locked out; otherwise exactly every key under
  AcceptAll, a key of the vault in memory or on disk, and, under Tofu only, the first key ever, when
  the vault is empty, no password of either kind exists and the key could be written to the vault.
\<close>

theorem unified_key_accepted_iff:
  "fst (unified_check_public_key ks now key (a, d)) = Inr True \<longleftrightarrow>
     \<not> fst (is_locked_out now a)
     \<and> (policy a = AcceptAll
        \<or> key \<in> set (authorized_keys a)
        \<or> (\<exists>vault. load_all_authorized_clients ks (ua_state a) d = Inr vault \<and> key \<in> snd ` set vault)
        \<or> (policy a = Tofu \<and> \<not> node_pw_exists d a \<and> temp_password_hash a = None
            \<and> (case load_all_authorized_clients ks (ua_state a) d of
                  Inr vault \<Rightarrow> vault = [] | Inl _ \<Rightarrow> authorized_keys a = [])
            \<and> \<not> isl (fst (write_authorized_client ks (ua_state a) (fingerprint ks key) key d))))"
proof (cases "fst (is_locked_out now a)")
  case True
  then show ?thesis by (simp add: checks_locked)
next
  case False
  obtain b where b: "is_locked_out now a = (False, b)" using False by (cases "is_locked_out now a") auto
  have f: "policy b = policy a" "ua_state b = ua_state a" "authorized_keys b = authorized_keys a"
    "temp_password_hash b = temp_password_hash a" "node_pw_exists d b = node_pw_exists d a"
    using is_locked_out_fields [of now a] b password_facts_local(2) [of b a d] by simp_all
  show ?thesis
    unfolding check_public_key_unlocked [OF b] Let_def f
    by (cases "policy a"; cases "load_all_authorized_clients ks (ua_state a) d";
        cases "write_authorized_client ks (ua_state a) (fingerprint ks key) key d";
        cases "fst (write_authorized_client ks (ua_state a) (fingerprint ks key) key d)")
      (auto simp: refresh_keys_def f b image_iff)
qed

text \<open>
  What a password check may do to the vault: nothing, except that the pairing password writes the
  one key cached in this session, if it was not authorized yet.  The node password and a wrong
  password change neither the disk nor the key list, and every evaluated attempt, right or wrong,
  empties the cache.
\<close>

theorem password_vaults_only_the_cached_key:
  assumes "unified_check_password V ks now pw (a, d) = (r, (a', d'))"
  shows "(d' = d \<and> authorized_keys a' = authorized_keys a
          \<or> (\<exists>key. cached_key a = Some key \<and> key \<notin> set (authorized_keys a) \<and> check_password_match V d a pw = Some True
              \<and> d' = snd (write_authorized_client ks (ua_state a) (fingerprint ks key) key d)
              \<and> (authorized_keys a' = authorized_keys a @ [key] \<or> authorized_keys a' = authorized_keys a \<and> isl r)))
     \<and> (\<not> fst (is_locked_out now a) \<longrightarrow> cached_key a' = None)
     \<and> (r = Inr True \<longrightarrow> check_password_match V d a pw \<noteq> None)"
  using assms by (rule password_check_effect)

theorem password_vaults_only_the_cached_key_witness:
  "\<exists>r a' d'. unified_check_password sample_verifier sample_keys 5 ''secret''
       (sample_auth\<lparr>cached_key := Some ''k''\<rparr>, sample_disk) = (r, (a', d')) \<and> cached_key a' = None"
proof -
  obtain r a' d' where run: "unified_check_password sample_verifier sample_keys 5 ''secret''
       (sample_auth\<lparr>cached_key := Some ''k''\<rparr>, sample_disk) = (r, (a', d'))" by (metis surj_pair)
  have "\<not> fst (is_locked_out 5 (sample_auth\<lparr>cached_key := Some ''k''\<rparr>))" by code_simp
  then show ?thesis using password_vaults_only_the_cached_key [OF run] run by blast
qed

text \<open>
  The lockout: after three failures nothing is accepted within a minute of the last one, not even
  a key of the vault or the right password, and nothing changes; once the minute has passed both are
  accepted again.
\<close>

theorem lockout_window:
  assumes "failed_attempts a \<ge> 3" and "last_failure a = Some t"
  shows "(now - t \<le> LOCKOUT_WINDOW \<longrightarrow>
           unified_check_public_key ks now key (a, d) = (Inr False, (a, d))
           \<and> unified_check_password V ks now pw (a, d) = (Inr False, (a, d)))
       \<and> (now > t + LOCKOUT_WINDOW \<longrightarrow>
           (key \<in> set (authorized_keys a) \<longrightarrow> fst (unified_check_public_key ks now key (a, d)) = Inr True)
           \<and> (check_password_match V d a pw = Some False \<longrightarrow> fst (unified_check_password V ks now pw (a, d)) = Inr True))"
proof (intro conjI impI)
  assume "now - t \<le> LOCKOUT_WINDOW"
  then have "fst (is_locked_out now a)" using assms by (simp add: limit.lck_iff)
  then show "unified_check_public_key ks now key (a, d) = (Inr False, (a, d))"
    "unified_check_password V ks now pw (a, d) = (Inr False, (a, d))" by (rule checks_locked)+
next
  assume "t + LOCKOUT_WINDOW < now"
  then have "\<not> fst (is_locked_out now a)" using limit.decays assms(2) by blast
  then obtain b where b: "is_locked_out now a = (False, b)" by (cases "is_locked_out now a") auto
  have f: "authorized_keys b = authorized_keys a" using is_locked_out_fields [of now a] b by simp
  show "key \<in> set (authorized_keys a) \<Longrightarrow> fst (unified_check_public_key ks now key (a, d)) = Inr True"
    by (simp add: check_public_key_unlocked [OF b] Let_def f)
  show "check_password_match V d a pw = Some False \<Longrightarrow> fst (unified_check_password V ks now pw (a, d)) = Inr True"
    by (simp add: check_password_unlocked [OF b] Let_def)
qed

theorem lockout_window_witness:
  "unified_check_public_key sample_keys 100 ''k''
     (sample_auth\<lparr>authorized_keys := [''k''], failed_attempts := 3, last_failure := Some 90\<rparr>, sample_disk)
   = (Inr False, (sample_auth\<lparr>authorized_keys := [''k''], failed_attempts := 3, last_failure := Some 90\<rparr>, sample_disk))"
  using lockout_window [of "sample_auth\<lparr>authorized_keys := [''k''], failed_attempts := 3, last_failure := Some 90\<rparr>" 90 100]
  by (simp add: LOCKOUT_WINDOW_def)

text \<open>
  A handshake with the unified authenticator succeeds only with a method it advertises at
  that moment.
\<close>

theorem unified_handshake_uses_advertised_method:
  assumes "handshake (unified_check_public_key ks) (unified_check_password V ks) cs w = Some (w', c)"
  shows "method_of c \<in> set (unified_supported_methods w')"
  using assms by (rule unified.handshake_listed)

theorem unified_handshake_uses_advertised_method_witness:
  "\<exists>w' c. handshake (unified_check_public_key sample_keys) (unified_check_password sample_verifier sample_keys)
      [(1, Key ''k''), (2, Pass ''secret'')] (sample_auth, sample_disk) = Some (w', c)
     \<and> method_of c \<in> set (unified_supported_methods w')"
proof -
  have "handshake (unified_check_public_key sample_keys) (unified_check_password sample_verifier sample_keys)
      [(1, Key ''k''), (2, Pass ''secret'')] (sample_auth, sample_disk) \<noteq> None" by code_simp
  then obtain w' c where "handshake (unified_check_public_key sample_keys) (unified_check_password sample_verifier sample_keys)
      [(1, Key ''k''), (2, Pass ''secret'')] (sample_auth, sample_disk) = Some (w', c)" by auto
  then show ?thesis using unified_handshake_uses_advertised_method by blast
qed

end
