(* ===== verification/Auth_Sessions.thy ===== *)
theory Auth_Sessions
  imports Unified_Auth
begin

text \<open>
  The unified authenticator under several connections at once.  The server calls
  \<^verbatim>\<open>session_scoped\<close> for every accepted connection: the views share everything but the cached key.  The
  system is a step relation over the checks of all sessions in any order, with other programs
  changing the disk in between; each check is one step.
\<close>

record 'k auth_system =
  shared :: "'k unified"
  vault_disk :: disk
  caches :: "nat \<Rightarrow> 'k option"

datatype 'k auth_event =
    OpenSession nat
  | OfferKey nat nat 'k
  | TryPassword nat nat string

text \<open>The view of a session: the shared cells and its own cache.\<close>

definition view :: "'k auth_system \<Rightarrow> nat \<Rightarrow> 'k unified" where
  "view S s = (shared S)\<lparr>cached_key := caches S s\<rparr>"

definition store_view :: "'k auth_system \<Rightarrow> nat \<Rightarrow> 'k unified \<times> disk \<Rightarrow> 'k auth_system" where
  "store_view S s w = S\<lparr>shared := (fst w)\<lparr>cached_key := None\<rparr>, vault_disk := snd w,
     caches := (caches S)(s := cached_key (fst w))\<rparr>"

fun sys_step ::
  "verifier \<Rightarrow> 'k ssh_keys \<Rightarrow> 'k auth_event \<Rightarrow> 'k auth_system \<Rightarrow> (irosh_error + bool) option \<times> 'k auth_system" where
  "sys_step V ks (OpenSession s) S =
     (None, S\<lparr>caches := (caches S)(s := cached_key (for_new_session (shared S)))\<rparr>)"
| "sys_step V ks (OfferKey s now k) S =
     (case unified_check_public_key ks now k (view S s, vault_disk S) of (r, w) \<Rightarrow> (Some r, store_view S s w))"
| "sys_step V ks (TryPassword s now pw) S =
     (case unified_check_password V ks now pw (view S s, vault_disk S) of (r, w) \<Rightarrow> (Some r, store_view S s w))"

text \<open>The runs of the system, with the history of its events, the latest first.\<close>

inductive auth_run :: "verifier \<Rightarrow> 'k ssh_keys \<Rightarrow> 'k unified \<Rightarrow> disk \<Rightarrow> 'k auth_event list \<Rightarrow> 'k auth_system \<Rightarrow> bool"
  for V ks a0 d0 where
  start: "auth_run V ks a0 d0 [] \<lparr>shared = a0, vault_disk = d0, caches = (\<lambda>_. None)\<rparr>"
| event: "auth_run V ks a0 d0 h S \<Longrightarrow> sys_step V ks e S = (r, S') \<Longrightarrow> auth_run V ks a0 d0 (e # h) S'"
| other: "auth_run V ks a0 d0 h S \<Longrightarrow> auth_run V ks a0 d0 h (S\<lparr>vault_disk := d\<rparr>)"

inductive_cases auth_run_consE: "auth_run V ks a0 d0 (e # h) S"

text \<open>Whether the session offered the key since it was opened.\<close>

fun offered :: "'k auth_event list \<Rightarrow> nat \<Rightarrow> 'k \<Rightarrow> bool" where
  "offered [] s k = False"
| "offered (OpenSession s' # h) s k = (s' \<noteq> s \<and> offered h s k)"
| "offered (OfferKey s' t k' # h) s k = (s' = s \<and> k' = k \<or> offered h s k)"
| "offered (TryPassword s' t pw # h) s k = offered h s k"

section \<open>Invariants\<close>

lemma key_check_cache:
  assumes "unified_check_public_key ks now key (a, d) = (r, (a', d'))"
  shows "cached_key a' = cached_key a \<or> cached_key a' = Some key"
proof (cases "fst (is_locked_out now a)")
  case True
  then show ?thesis using assms checks_locked(1) [of now a ks key d] by simp
next
  case False
  obtain b where b: "is_locked_out now a = (False, b)" using False by (cases "is_locked_out now a") auto
  have "cached_key b = cached_key a" using is_locked_out_fields [of now a] b by simp
  then show ?thesis using assms unfolding check_public_key_unlocked [OF b] Let_def
    by (auto split: if_splits prod.splits sum.splits)
qed

lemma password_check_cache:
  assumes "unified_check_password V ks now pw (a, d) = (r, (a', d'))"
  shows "cached_key a' = cached_key a \<or> cached_key a' = None"
proof (cases "fst (is_locked_out now a)")
  case True
  then show ?thesis using assms checks_locked(2) [of now a V ks pw d] by simp
qed (use password_check_effect [OF assms] in simp)

lemma view_fields [simp]:
  "cached_key (view S s) = caches S s" "authorized_keys (view S s) = authorized_keys (shared S)"
  "ua_state (view S s) = ua_state (shared S)" "failed_attempts (view S s) = failed_attempts (shared S)"
  "temp_password_hash (view S s) = temp_password_hash (shared S)" "policy (view S s) = policy (shared S)"
  by (simp_all add: view_def)

lemma store_view_fields [simp]:
  "caches (store_view S s w) = (caches S)(s := cached_key (fst w))" "vault_disk (store_view S s w) = snd w"
  "authorized_keys (shared (store_view S s w)) = authorized_keys (fst w)"
  "failed_attempts (shared (store_view S s w)) = failed_attempts (fst w)"
  by (simp_all add: store_view_def)

lemma cached_was_offered:
  "auth_run V ks a0 d0 h S \<Longrightarrow> caches S s = Some k \<Longrightarrow> offered h s k"
proof (induction arbitrary: s k rule: auth_run.induct)
  case (event h S e r S')
  show ?case
  proof (cases e)
    case (OpenSession s')
    then show ?thesis using event by (auto simp: for_new_session_def split: if_splits)
  next
    case (OfferKey s' now key)
    obtain a' d' where w: "unified_check_public_key ks now key (view S s', vault_disk S) = (the r, (a', d'))"
      using event.hyps(2) OfferKey by (auto split: prod.splits)
    then have "caches S' = (caches S)(s' := cached_key a')" using event.hyps(2) OfferKey by auto
    then show ?thesis using key_check_cache [OF w] event.IH event.prems OfferKey by (auto split: if_splits)
  next
    case (TryPassword s' now pw)
    obtain a' d' where w: "unified_check_password V ks now pw (view S s', vault_disk S) = (the r, (a', d'))"
      using event.hyps(2) TryPassword by (auto split: prod.splits)
    then have "caches S' = (caches S)(s' := cached_key a')" using event.hyps(2) TryPassword by auto
    then show ?thesis using password_check_cache [OF w] event.IH event.prems TryPassword by (auto split: if_splits)
  qed
qed simp_all

text \<open>A check never lets the counter pass three.\<close>

lemma unlocked_counter: "is_locked_out now a = (False, b) \<Longrightarrow> failed_attempts b < 3"
  using limit.unlocked_attempts [of now a] by simp

lemma failure_counter: "failed_attempts b < 3 \<Longrightarrow> failed_attempts (record_failure now b) \<le> 3"
  using limit.small_add [of b] by (simp add: limit.rec_attempts word_le_nat_alt word_less_nat_alt)

lemma key_check_counter:
  assumes "unified_check_public_key ks now key (a, d) = (r, (a', d'))" and "failed_attempts a \<le> 3"
  shows "failed_attempts a' \<le> 3"
proof (cases "fst (is_locked_out now a)")
  case True
  then show ?thesis using assms checks_locked(1) [of now a ks key d] by simp
next
  case False
  obtain b where b: "is_locked_out now a = (False, b)" using False by (cases "is_locked_out now a") auto
  have lt: "failed_attempts b < 3" using unlocked_counter [OF b] .
  have "failed_attempts (record_failure now (snd (refresh_keys ks d b))) \<le> 3" by (rule failure_counter) (simp add: lt)
  then show ?thesis using assms(1) lt unfolding check_public_key_unlocked [OF b] Let_def
    by (auto simp: limit.rst_attempts split: if_splits prod.splits sum.splits)
qed

lemma password_check_counter:
  assumes "unified_check_password V ks now pw (a, d) = (r, (a', d'))" and "failed_attempts a \<le> 3"
  shows "failed_attempts a' \<le> 3"
proof (cases "fst (is_locked_out now a)")
  case True
  then show ?thesis using assms checks_locked(2) [of now a V ks pw d] by simp
next
  case False
  obtain b where b: "is_locked_out now a = (False, b)" using False by (cases "is_locked_out now a") auto
  have lt: "failed_attempts b < 3" using unlocked_counter [OF b] .
  have "failed_attempts (record_failure now (b\<lparr>cached_key := None\<rparr>)) \<le> 3" by (rule failure_counter) (simp add: lt)
  then show ?thesis using assms(1) lt unfolding check_password_unlocked [OF b] Let_def
    by (auto simp: limit.rst_attempts split: if_splits prod.splits sum.splits option.splits bool.splits)
qed

section \<open>Properties\<close>

text \<open>
  C13. Sessions cannot steal each other's pairing: in every run, whatever the order of the checks of
  all connections and whatever other programs do to the disk, a password entered in a session
  adds a key to the vault only if that session itself offered that key since it was opened, and
  the password is the pairing password.
\<close>

theorem pairing_stays_in_its_session:
  assumes "auth_run V ks a0 d0 h S" and "sys_step V ks (TryPassword s now pw) S = (r, S')"
    and "vault_disk S' \<noteq> vault_disk S \<or> authorized_keys (shared S') \<noteq> authorized_keys (shared S)"
  shows "\<exists>k. offered h s k \<and> check_password_match V (vault_disk S) (view S s) pw = Some True
     \<and> vault_disk S' = snd (write_authorized_client ks (ua_state (shared S)) (fingerprint ks k) k (vault_disk S))"
proof -
  obtain a' d' where w: "unified_check_password V ks now pw (view S s, vault_disk S) = (the r, (a', d'))"
    and S': "S' = store_view S s (a', d')"
    using assms(2) by (auto split: prod.splits)
  obtain k where "caches S s = Some k" "check_password_match V (vault_disk S) (view S s) pw = Some True"
    "d' = snd (write_authorized_client ks (ua_state (shared S)) (fingerprint ks k) k (vault_disk S))"
    using password_check_effect [OF w] assms(3) S' by auto
  then show ?thesis using cached_was_offered [OF assms(1)] S' by auto
qed

definition sample_system :: "string auth_system" where
  "sample_system = snd (sys_step sample_verifier sample_keys (OfferKey 1 10 ''k'')
     \<lparr>shared = sample_auth, vault_disk = sample_disk, caches = (\<lambda>_. None)\<rparr>)"

lemma sample_run: "auth_run sample_verifier sample_keys sample_auth sample_disk [OfferKey 1 10 ''k''] sample_system"
  unfolding sample_system_def by (rule auth_run.event [OF auth_run.start surjective_pairing])

lemma sample_pairing:
  "authorized_keys (shared (snd (sys_step sample_verifier sample_keys (TryPassword 1 11 ''secret'') sample_system)))
     \<noteq> authorized_keys (shared sample_system)"
  by code_simp

theorem pairing_stays_in_its_session_witness:
  "\<exists>k. offered [OfferKey 1 10 ''k''] 1 k
     \<and> vault_disk (snd (sys_step sample_verifier sample_keys (TryPassword 1 11 ''secret'') sample_system))
       = snd (write_authorized_client sample_keys (ua_state (shared sample_system)) (fingerprint sample_keys k) k
                (vault_disk sample_system))"
  using pairing_stays_in_its_session [OF sample_run surjective_pairing] sample_pairing by blast

text \<open>
  The failure counter never passes three in any run, so the 32-bit counter never wraps
  around, whatever the number of sessions and attempts.
\<close>

theorem failure_counter_bounded:
  assumes "auth_run V ks a0 d0 h S" and "failed_attempts a0 \<le> 3"
  shows "failed_attempts (shared S) \<le> 3"
  using assms
proof (induction rule: auth_run.induct)
  case (event h S e r S')
  show ?case
  proof (cases e)
    case (OpenSession s')
    then show ?thesis using event by auto
  next
    case (OfferKey s' now key)
    obtain a' d' where w: "unified_check_public_key ks now key (view S s', vault_disk S) = (the r, (a', d'))"
      and "S' = store_view S s' (a', d')"
      using event.hyps(2) OfferKey by (auto split: prod.splits)
    then show ?thesis using key_check_counter [OF w] event by simp
  next
    case (TryPassword s' now pw)
    obtain a' d' where w: "unified_check_password V ks now pw (view S s', vault_disk S) = (the r, (a', d'))"
      and "S' = store_view S s' (a', d')"
      using event.hyps(2) TryPassword by (auto split: prod.splits)
    then show ?thesis using password_check_counter [OF w] event by simp
  qed
qed simp_all

theorem failure_counter_bounded_witness: "failed_attempts (shared sample_system) \<le> 3"
  using failure_counter_bounded [OF sample_run] by (simp add: sample_auth_def unified_new_def)

end
