(* ===== verification/Host_Key.thy ===== *)
theory Host_Key
  imports Auth_Interface
begin

text \<open>
  \<^verbatim>\<open>src/client/handler.rs\<close>: how the client verifies the server's key, and its registry of remote
  port forwards.  A hash map is a list of its entries in iteration order.
\<close>

record 'k client_handler =
  node_id :: string
  known_server :: "'k option"
  last_disconnect :: "string option"
  ch_policy :: host_key_policy
  ch_state :: state_config
  remote_tunnels :: "((string \<times> u32) \<times> (string \<times> u16)) list"

definition client_handler_new :: "string \<Rightarrow> 'k option \<Rightarrow> host_key_policy \<Rightarrow> state_config \<Rightarrow> 'k client_handler" where
  "client_handler_new nid known p st =
     \<lparr>node_id = nid, known_server = known, last_disconnect = None, ch_policy = p, ch_state = st, remote_tunnels = []\<rparr>"

definition register_remote_tunnel ::
  "string \<Rightarrow> u32 \<Rightarrow> string \<Rightarrow> u16 \<Rightarrow> 'k client_handler \<Rightarrow> 'k client_handler" where
  "register_remote_tunnel rh rp lh lp h =
     h\<lparr>remote_tunnels := ((rh, rp), (lh, lp)) # filter (\<lambda>(key, _). key \<noteq> (rh, rp)) (remote_tunnels h)\<rparr>"

definition check_server_key ::
  "'k ssh_keys \<Rightarrow> 'k \<Rightarrow> 'k client_handler \<times> disk \<Rightarrow> (irosh_error + bool) \<times> ('k client_handler \<times> disk)" where
  "check_server_key ks key w =
     (case w of (h, d) \<Rightarrow>
      if ch_policy h = AcceptAll then (Inr True, (h, d))
      else case known_server h of
          Some known_key \<Rightarrow>
            if key = known_key then (Inr True, (h, d))
            else (Inl (ServerKeyMismatch (fingerprint ks known_key) (fingerprint ks key)), (h, d))
        | None \<Rightarrow>
            (case ch_policy h of
               Strict \<Rightarrow> (Inl (ServerKeyMismatch ''trusted key'' ''unknown key''), (h, d))
             | Tofu \<Rightarrow>
                 (case write_known_server ks (ch_state h) (node_id h) key d of
                    (Inl e, d') \<Rightarrow> (Inl (StorageFailed e), (h, d'))
                  | (Inr _, d') \<Rightarrow> (Inr True, (h\<lparr>known_server := Some key\<rparr>, d')))
             | AcceptAll \<Rightarrow> (Inr True, (h, d))))"

text \<open>The target of a forwarded connection: the exact entry, or the first one with the port.\<close>

definition forward_target :: "'k client_handler \<Rightarrow> string \<Rightarrow> u32 \<Rightarrow> (string \<times> u16) option" where
  "forward_target h addr p =
     (case map_of (remote_tunnels h) (addr, p) of
        Some t \<Rightarrow> Some t
      | None \<Rightarrow> map_option snd (find (\<lambda>((_, q), _). q = p) (remote_tunnels h)))"

lemma first_contact:
  assumes "check_server_key ks k (h, d) = (Inr True, (h', d'))" and "known_server h = None" and "ch_policy h \<noteq> AcceptAll"
  obtains x where "write_known_server ks (ch_state h) (node_id h) k d = (Inr x, d')" "h' = h\<lparr>known_server := Some k\<rparr>"
proof -
  obtain r d1 where w: "write_known_server ks (ch_state h) (node_id h) k d = (r, d1)" by (rule prod.exhaust)
  have "ch_policy h = Tofu" using assms by (cases "ch_policy h") (simp_all add: check_server_key_def)
  then show thesis using assms(1,2) w that by (cases r) (simp_all add: check_server_key_def)
qed

text \<open>
  C10. Host keys are pinned.  With a pinned key a connection is verified exactly when the key is that key
  and nothing is written; without one Strict refuses every key; and under Tofu an accepted first
  key is pinned in memory and on disk, so that a later connection, which reads it back, refuses
  every other key with a mismatch.
\<close>

theorem host_keys_are_pinned:
  assumes "ch_policy h \<noteq> AcceptAll" and "reads_ok d" and "key_storable ks k"
  shows "(\<forall>p. known_server h = Some p \<longrightarrow>
            snd (check_server_key ks k (h, d)) = (h, d) \<and> (fst (check_server_key ks k (h, d)) = Inr True \<longleftrightarrow> k = p))
     \<and> (known_server h = None \<and> ch_policy h = Strict \<longrightarrow>
            check_server_key ks k (h, d) = (Inl (ServerKeyMismatch ''trusted key'' ''unknown key''), (h, d)))
     \<and> (\<forall>h' d'. known_server h = None \<and> check_server_key ks k (h, d) = (Inr True, (h', d')) \<longrightarrow>
            known_server h' = Some k
            \<and> load_known_server ks (ch_state h) d' (node_id h) = Inr (Some k)
            \<and> (\<forall>k2 p. k2 \<noteq> k \<and> p \<noteq> AcceptAll \<longrightarrow>
                 check_server_key ks k2 (client_handler_new (node_id h) (Some k) p (ch_state h), d')
                 = (Inl (ServerKeyMismatch (fingerprint ks k) (fingerprint ks k2)),
                    (client_handler_new (node_id h) (Some k) p (ch_state h), d'))))"
proof (intro conjI allI impI)
  fix p
  assume "known_server h = Some p"
  then show "snd (check_server_key ks k (h, d)) = (h, d)" "fst (check_server_key ks k (h, d)) = Inr True \<longleftrightarrow> k = p"
    using assms(1) by (simp_all add: check_server_key_def)
next
  assume "known_server h = None \<and> ch_policy h = Strict"
  then show "check_server_key ks k (h, d) = (Inl (ServerKeyMismatch ''trusted key'' ''unknown key''), (h, d))"
    by (simp add: check_server_key_def)
next
  fix h' d' k2 p
  assume run: "known_server h = None \<and> check_server_key ks k (h, d) = (Inr True, (h', d'))"
  obtain x where w: "write_known_server ks (ch_state h) (node_id h) k d = (Inr x, d')"
    and h': "h' = h\<lparr>known_server := Some k\<rparr>"
    by (rule first_contact [OF conjunct2 [OF run] conjunct1 [OF run] assms(1)])
  show "known_server h' = Some k" using h' by simp
  show "load_known_server ks (ch_state h) d' (node_id h) = Inr (Some k)"
    using servers.save_ok [OF w TrueI assms(3,2)] .
  show "check_server_key ks k2 (client_handler_new (node_id h) (Some k) p (ch_state h), d')
      = (Inl (ServerKeyMismatch (fingerprint ks k) (fingerprint ks k2)),
         (client_handler_new (node_id h) (Some k) p (ch_state h), d'))"
    if "k2 \<noteq> k \<and> p \<noteq> AcceptAll"
    using that by (simp add: check_server_key_def client_handler_new_def)
qed

definition sample_handler :: "string client_handler" where
  "sample_handler = client_handler_new ''node1'' None Tofu sample_state"

lemma sample_first_contact: "fst (check_server_key sample_keys ''srv'' (sample_handler, sample_disk)) = Inr True"
  by code_simp

theorem host_keys_are_pinned_witness:
  "load_known_server sample_keys sample_state
     (snd (snd (check_server_key sample_keys ''srv'' (sample_handler, sample_disk)))) ''node1'' = Inr (Some ''srv'')"
proof -
  obtain h' d' where run: "check_server_key sample_keys ''srv'' (sample_handler, sample_disk) = (Inr True, (h', d'))"
    using sample_first_contact by (metis prod.collapse)
  have h: "ch_policy sample_handler \<noteq> AcceptAll" "known_server sample_handler = None"
    "ch_state sample_handler = sample_state" "node_id sample_handler = ''node1''"
    by (simp_all add: sample_handler_def client_handler_new_def)
  have "key_storable sample_keys ''srv''" by (simp add: key_storable_def sample_keys_def)
  from host_keys_are_pinned [OF h(1) sample_disk_reads(1) this] show ?thesis using run h by simp
qed

end
