(* ===== verification/Server_Context.thy ===== *)
theory Server_Context
  imports Storage_FS Remote_Path
begin

text \<open>
  The surroundings of the server's transfer handlers: \<^verbatim>\<open>src/server/transfer/state.rs\<close> (contexts and
  path resolution) and \<^verbatim>\<open>helpers.rs\<close> (the destination of an upload and its sink), for the context
  without a helper process, which is every context except an interactive shell on Linux.

  The state of a handler is the disk and the stream: what the client still has to say, what was sent, and which writes fail.
\<close>

section \<open>State\<close>

datatype server_error =
    TransferFailed transfer_failure
  | ShellError string
  | Transport transfer_error
  | ServerIo io_error

record srv =
  fsys :: disk
  inp :: bytes
  outp :: bytes
  write_fails :: "nat \<Rightarrow> bool"
  writes :: nat

definition on_disk :: "(disk, io_error, 'a) op \<Rightarrow> (srv, server_error, 'a) op" where
  "on_disk m s = (case m (fsys s) of (r, d) \<Rightarrow> (map_err ServerIo r, s\<lparr>fsys := d\<rparr>))"

text \<open>Sending an encoded frame; the encoder can refuse it and the stream can fail.\<close>

definition send :: "transfer_error + bytes \<Rightarrow> (srv, server_error, unit) op" where
  "send f s =
     (case f of
        Inl e \<Rightarrow> (Inl (Transport e), s)
      | Inr b \<Rightarrow>
          if write_fails s (writes s) then (Inl (Transport (Io IoOther)), s\<lparr>writes := Suc (writes s)\<rparr>)
          else (Inr (), s\<lparr>outp := outp s @ b, writes := Suc (writes s)\<rparr>))"

text \<open>\<^verbatim>\<open>let _ = ...\<close>: the operation runs and its result is dropped.\<close>

definition ignoreS :: "('s, 'e, 'a) op \<Rightarrow> ('s, 'f, unit) op" where
  "ignoreS m s = (Inr (), snd (m s))"

section \<open>Contexts and paths\<close>

datatype shell_context = Live nat | Stateless

text \<open>
  What the handlers take from outside: the environment, the working directory of a process, the texts of frames and
  errors, the lengths short reads deliver, and the walk of a tree by the library \<^verbatim>\<open>walkdir\<close>; its errors have a text and an I/O error.
\<close>

datatype walk_error = WalkError (walk_text: string) (walk_io: io_error)

datatype file_type = TypeFile | TypeDir | TypeSymlink

record dir_entry =
  de_path :: path
  de_type :: file_type
  de_metadata :: "walk_error + (u64 \<times> u32)"

record server_env =
  home_dir :: "path option"
  process_cwd :: "nat \<Rightarrow> server_error + path option"
  process_id :: nat
  show_frame :: "transfer_frame \<Rightarrow> string"
  show_error :: "server_error \<Rightarrow> string"
  show_io :: "io_error \<Rightarrow> string"
  read_len :: "path \<Rightarrow> nat \<Rightarrow> nat"
  walk_dir :: "disk \<Rightarrow> path \<Rightarrow> (walk_error + dir_entry) list"

definition io_text :: "server_env \<Rightarrow> server_error \<Rightarrow> string" where
  "io_text env e = (case e of ServerIo io \<Rightarrow> show_io env io | _ \<Rightarrow> show_error env e)"

definition context_from_state :: "nat option \<Rightarrow> shell_context" where
  "context_from_state shell_pid = (case shell_pid of Some pid \<Rightarrow> Live pid | None \<Rightarrow> Stateless)"

definition clear_shell_pid_if_matches :: "nat option \<Rightarrow> nat option \<Rightarrow> nat option" where
  "clear_shell_pid_if_matches pid current = (if current = pid then None else current)"

definition ok_or :: "'a option \<Rightarrow> 'e \<Rightarrow> 'e + 'a" where
  "ok_or x e = (case x of Some v \<Rightarrow> Inr v | None \<Rightarrow> Inl e)"

text \<open>Decimal numbers, as \<^verbatim>\<open>{}\<close> prints them.\<close>

fun nat_str :: "nat \<Rightarrow> string" where
  "nat_str n = (if n < 10 then [hex_digit n] else nat_str (n div 10) @ [hex_digit (n mod 10)])"

declare nat_str.simps [simp del]

definition cwd :: "server_env \<Rightarrow> shell_context \<Rightarrow> server_error + path" where
  "cwd env ctx =
     (case ctx of
        Live pid \<Rightarrow>
          and_then (process_cwd env pid) (\<lambda>p.
            ok_or p (ShellError (''could not determine the live shell's working directory (PID '' @ nat_str pid
               @ ''); use an absolute remote path'')))
      | Stateless \<Rightarrow> ok_or (home_dir env) (ShellError ''could not determine server home directory''))"

definition strip_prefix :: "string \<Rightarrow> string \<Rightarrow> string option" where
  "strip_prefix pre s = (if take (length pre) s = pre then Some (drop (length pre) s) else None)"

abbreviation backslash :: char where "backslash \<equiv> CHR 0x5C"

definition path_invalid :: "string \<Rightarrow> server_error" where
  "path_invalid msg = TransferFailed (failure_new PathInvalid msg)"

definition resolve_path :: "server_env \<Rightarrow> shell_context \<Rightarrow> string \<Rightarrow> server_error + path" where
  "resolve_path env ctx raw =
     (if trim raw = [] then Inl (path_invalid ''transfer path is empty'')
      else if has_root raw then Inr (components raw)
      else if raw = ''~''
      then ok_or (home_dir env) (ShellError ''could not determine server home directory for ~ expansion'')
      else case (case strip_prefix ''~/'' raw of
                   Some r \<Rightarrow> Some r | None \<Rightarrow> strip_prefix [CHR ''~'', backslash] raw) of
          Some home_relative \<Rightarrow>
            if ''..'' \<in> set (split_on is_sep home_relative)
            then Inl (path_invalid ''path traversal detected in home-relative path'')
            else and_then (ok_or (home_dir env)
                     (ShellError ''could not determine server home directory for ~/ expansion''))
                   (\<lambda>home. Inr (path_join home (components home_relative)))
        | None \<Rightarrow>
            if ''..'' \<in> set (split_on is_sep raw) \<or> ''..'' \<in> set (split_on ((=) backslash) raw)
            then Inl (path_invalid ''path traversal detected in relative path'')
            else and_then (cwd env ctx) (\<lambda>base. Inr (path_join base (components raw))))"

section \<open>File operations of a context\<close>

definition path_missing_no_follow :: "path \<Rightarrow> (srv, server_error, bool) op" where
  "path_missing_no_follow p =
     on_disk (\<lambda>d. if faults d (CallStat p) then (Inl IoOther, d) else (Inr (lookup d p = None), d))"

definition ctx_path_exists :: "path \<Rightarrow> (srv, server_error, bool) op" where
  "ctx_path_exists p s = (Inr (path_exists (fsys s) p), s)"

definition ctx_is_dir :: "path \<Rightarrow> (srv, server_error, bool) op" where
  "ctx_is_dir p =
     on_disk (\<lambda>d. if faults d (CallStat p) then (Inl IoOther, d) else (Inr (is_dir_node (lookup d p)), d))"

definition ctx_create_dir_all :: "path \<Rightarrow> (srv, server_error, bool) op" where
  "ctx_create_dir_all p = bindS (on_disk (fs_create_dir_all p)) (\<lambda>_. retS True)"

definition remove_file_if_present :: "path \<Rightarrow> (srv, server_error, unit) op" where
  "remove_file_if_present p = ignoreS (on_disk (fs_remove_file p))"

definition ctx_rename :: "path \<Rightarrow> path \<Rightarrow> (srv, server_error, bool) op" where
  "ctx_rename p q = bindS (on_disk (fs_rename p q)) (\<lambda>_. retS True)"

definition ctx_chmod :: "path \<Rightarrow> u32 \<Rightarrow> (srv, server_error, unit) op" where
  "ctx_chmod p m = ignoreS (on_disk (fs_set_permissions p m))"

section \<open>The destination of an upload\<close>

record prepared_put_destination =
  final_arg :: path
  part_arg :: path

definition part_name :: "string \<Rightarrow> nat \<Rightarrow> nat \<Rightarrow> string" where
  "part_name n pid unique = ''.'' @ n @ ''.'' @ nat_str pid @ ''.'' @ nat_str unique @ ''.irosh_part''"

text \<open>
  The time stamp in the name of the part file is the next number of the disk's generator.  A path
  whose last component is not a name keeps it and the part file goes below.
\<close>

definition prepare_put_destination ::
  "server_env \<Rightarrow> shell_context \<Rightarrow> string \<Rightarrow> (srv, server_error, prepared_put_destination option) op" where
  "prepare_put_destination env ctx raw_path =
     (case resolve_path env ctx raw_path of
        Inl e \<Rightarrow> failS e
      | Inr dest \<Rightarrow>
          bindS (path_missing_no_follow dest) (\<lambda>missing.
          if \<not> missing then retS None
          else
            let parent = (case path_parent dest of Some p \<Rightarrow> p | None \<Rightarrow> [CurDir]) in
            bindS (ctx_create_dir_all parent) (\<lambda>created.
            if \<not> created
            then failS (TransferFailed (failure_new CreateDirectoryFailed
                   (''failed to create destination directory: '' @ path_display parent)))
            else (\<lambda>s.
              let (unique, d) = draw_u64 (fsys s);
                  n = (case path_file_name dest of Some n \<Rightarrow> n | None \<Rightarrow> ''transfer'')
              in (Inr (Some \<lparr>final_arg = dest,
                             part_arg = path_with_file_name dest (part_name n (process_id env) (unat unique))\<rparr>),
                  s\<lparr>fsys := d\<rparr>)))))"

definition target_exists_failure :: "path \<Rightarrow> transfer_failure" where
  "target_exists_failure p = failure_new TargetAlreadyExists (path_display p)"

definition atomic_rename_failure :: "path \<Rightarrow> transfer_failure" where
  "atomic_rename_failure p = failure_new AtomicRenameFailed (path_display p)"

text \<open>The file sink: opening it, and \<^verbatim>\<open>UploadSink::wait\<close>.\<close>

definition internal_failure :: "string \<Rightarrow> server_error" where
  "internal_failure msg = TransferFailed (failure_new Internal msg)"

definition spawn_upload_helper :: "server_env \<Rightarrow> path \<Rightarrow> (srv, server_error, unit) op" where
  "spawn_upload_helper env p =
     errS (\<lambda>e. internal_failure (''failed to create upload file: '' @ io_text env e)) (on_disk (fs_create p))"

definition sink_wait :: "server_env \<Rightarrow> path \<Rightarrow> (srv, server_error, unit) op" where
  "sink_wait env p =
     errS (\<lambda>e. internal_failure (''failed to flush upload file: '' @ io_text env e)) (on_disk (fs_sync p))"

end
