(* ===== verification/Server_Upload.thy ===== *)
theory Server_Upload
  imports Server_Context
begin

text \<open>
  \<^verbatim>\<open>src/server/transfer/files/upload.rs\<close>: receiving one file or a directory tree.  Data goes to a
  part file that is renamed to its target when everything has arrived.
\<close>

section \<open>One file\<close>

text \<open>The frames as the match of the receive loop distinguishes them.\<close>

datatype put_event = Chunk bytes | Complete transfer_complete | ClientError | StrayChunk | Stray transfer_frame

fun put_event_of :: "transfer_frame_borrowed \<Rightarrow> put_event" where
  "put_event_of (BPutChunk chunk) = Chunk chunk"
| "put_event_of (BGetChunk chunk) = StrayChunk"
| "put_event_of (Owned f) =
     (case f of PutComplete c \<Rightarrow> Complete c | FrameError e \<Rightarrow> ClientError | _ \<Rightarrow> Stray f)"

lemma read_next_frame_into_progress:
  "read_next_frame_into J buf s = Inr (b, rest) \<Longrightarrow> length rest < length s"
  unfolding read_next_frame_into_def read_frame_into_eq
  by (auto simp: and_then_eq_Inr_iff dest!: transfer.rd_progress split: if_splits prod.splits)

lemma on_disk_fields [simp]:
  "inp (snd (on_disk m s)) = inp s" "outp (snd (on_disk m s)) = outp s"
  "write_fails (snd (on_disk m s)) = write_fails s" "writes (snd (on_disk m s)) = writes s"
  "fsys (snd (on_disk m s)) = snd (m (fsys s))"
  by (auto simp: on_disk_def split: prod.splits)

text \<open>The receive loop: whether the transfer failed, and the bytes counted (in 64 bits).\<close>

function put_loop ::
  "serde_json \<Rightarrow> server_env \<Rightarrow> u64 \<Rightarrow> path \<Rightarrow> bytes \<Rightarrow> u64 \<Rightarrow> srv \<Rightarrow> (server_error + (bool \<times> u64)) \<times> srv" where
  "put_loop J env declared part frame_buf received s =
     (case read_next_frame_into J frame_buf (inp s) of
        Inl err \<Rightarrow> (Inr (True, received), s)
      | Inr (frame, rest) \<Rightarrow>
          (case put_event_of frame of
             Chunk chunk \<Rightarrow>
               (let received' = received + of_nat (length chunk) in
                if received' > declared
                then bindS (send (write_transfer_error J (failure_new SizeMismatch
                         (''received '' @ nat_str (unat received') @ '' bytes, exceeding the declared size of ''
                            @ nat_str (unat declared)))))
                       (\<lambda>_. retS (True, received')) (s\<lparr>inp := rest\<rparr>)
                else let w = on_disk (fs_append part (str_of_bytes chunk)) (s\<lparr>inp := rest\<rparr>) in
                     if isl (fst w) then (Inr (True, received'), snd w)
                     else put_loop J env declared part chunk received' (snd w))
           | Complete complete \<Rightarrow>
               if tc_size complete \<noteq> received \<or> received \<noteq> declared
               then bindS (send (write_transfer_error J (failure_new SizeMismatch
                        (''received '' @ nat_str (unat received) @ '' bytes, declared '' @ nat_str (unat declared)
                           @ '', client reported '' @ nat_str (unat (tc_size complete))))))
                      (\<lambda>_. retS (True, received)) (s\<lparr>inp := rest\<rparr>)
               else (Inr (False, received), s\<lparr>inp := rest\<rparr>)
           | ClientError \<Rightarrow> (Inr (True, received), s\<lparr>inp := rest\<rparr>)
           | StrayChunk \<Rightarrow>
               (Inr (True, received), snd (send (write_transfer_error J (failure_new UnexpectedFrame
                  ''unexpected get chunk frame during upload'')) (s\<lparr>inp := rest\<rparr>)))
           | Stray other \<Rightarrow>
               (Inr (True, received), snd (send (write_transfer_error J (failure_new UnexpectedFrame
                  (show_frame env other))) (s\<lparr>inp := rest\<rparr>)))))"
  by pat_completeness auto
termination
  by (relation "measure (\<lambda>(J, env, declared, part, frame_buf, received, s). length (inp s))")
    (auto dest: read_next_frame_into_progress)

declare put_loop.simps [simp del]

text \<open>After the loop: the sink is closed, then the part file is renamed or removed.\<close>

definition finish_put ::
  "serde_json \<Rightarrow> server_env \<Rightarrow> put_request \<Rightarrow> prepared_put_destination \<Rightarrow> bool \<Rightarrow> u64 \<Rightarrow> (srv, server_error, unit) op" where
  "finish_put J env request dst transfer_failed received s =
     (case sink_wait env (part_arg dst) s of (helper_res, s1) \<Rightarrow>
      if transfer_failed \<or> isl helper_res
      then let s2 = snd (remove_file_if_present (part_arg dst) s1) in
           (case helper_res of
              Inl err \<Rightarrow>
                if \<not> transfer_failed
                then send (write_transfer_error J (failure_new HelperFailed (show_error env err))) s2
                else (Inr (), s2)
            | Inr _ \<Rightarrow> (Inr (), s2))
      else case ctx_rename (part_arg dst) (final_arg dst) s1 of
          (Inl e, s2) \<Rightarrow> (Inl e, snd (remove_file_if_present (part_arg dst) s2))
        | (Inr renamed, s2) \<Rightarrow>
            if \<not> renamed
            then send (write_transfer_error J (atomic_rename_failure (final_arg dst)))
                   (snd (remove_file_if_present (part_arg dst) s2))
            else bindS (case pr_mode request of Some m \<Rightarrow> ctx_chmod (final_arg dst) m | None \<Rightarrow> retS ()) (\<lambda>_.
                   send (write_put_complete J \<lparr>tc_size = received\<rparr>)) s2)"

text \<open>Receiving the file once its destination is prepared.\<close>

definition receive_put ::
  "serde_json \<Rightarrow> server_env \<Rightarrow> put_request \<Rightarrow> prepared_put_destination \<Rightarrow> (srv, server_error, unit) op" where
  "receive_put J env request dst =
     bindS (spawn_upload_helper env (part_arg dst)) (\<lambda>_ s.
       case send (write_put_ready J \<lparr>tr_size = pr_size request, tr_mode = pr_mode request\<rparr>) s of
         (Inl e, s1) \<Rightarrow> (Inl e, snd (remove_file_if_present (part_arg dst) s1))
       | (Inr _, s1) \<Rightarrow>
           bindS (put_loop J env (pr_size request) (part_arg dst) [] 0) (\<lambda>(transfer_failed, received).
             finish_put J env request dst transfer_failed received) s1)"

definition handle_single_put ::
  "serde_json \<Rightarrow> server_env \<Rightarrow> shell_context \<Rightarrow> put_request \<Rightarrow> (srv, server_error, unit) op" where
  "handle_single_put J env ctx request =
     bindS (prepare_put_destination env ctx (pr_path request)) (\<lambda>prepared.
     case prepared of
       None \<Rightarrow>
         (case resolve_path env ctx (pr_path request) of
            Inl e \<Rightarrow> failS e
          | Inr dest \<Rightarrow> send (write_transfer_error J (target_exists_failure dest)))
     | Some dst \<Rightarrow> receive_put J env request dst)"

section \<open>A tree\<close>

datatype entry_event = EntryChunk bytes | EntryDone | EntryStray

fun entry_event_of :: "transfer_frame_borrowed \<Rightarrow> entry_event" where
  "entry_event_of (BPutChunk chunk) = EntryChunk chunk"
| "entry_event_of (BGetChunk chunk) = EntryStray"
| "entry_event_of (Owned f) = (case f of EntryComplete c \<Rightarrow> EntryDone | _ \<Rightarrow> EntryStray)"

text \<open>The receive loop of one entry: \<^verbatim>\<open>entry_failed\<close>, \<^verbatim>\<open>size_mismatch\<close> and the count.\<close>

function entry_loop :: "serde_json \<Rightarrow> u64 \<Rightarrow> path \<Rightarrow> bytes \<Rightarrow> u64 \<Rightarrow> srv \<Rightarrow> (bool \<times> bool \<times> u64) \<times> srv" where
  "entry_loop J declared part frame_buf received s =
     (case read_next_frame_into J frame_buf (inp s) of
        Inl e \<Rightarrow> ((True, False, received), s)
      | Inr (frame, rest) \<Rightarrow>
          (case entry_event_of frame of
             EntryChunk chunk \<Rightarrow>
               (let received' = received + of_nat (length chunk) in
                if received' > declared then ((True, True, received'), s\<lparr>inp := rest\<rparr>)
                else let w = on_disk (fs_append part (str_of_bytes chunk)) (s\<lparr>inp := rest\<rparr>) in
                     if isl (fst w) then ((True, False, received'), snd w)
                     else entry_loop J declared part chunk received' (snd w))
           | EntryDone \<Rightarrow> ((received \<noteq> declared, received \<noteq> declared, received), s\<lparr>inp := rest\<rparr>)
           | EntryStray \<Rightarrow> ((True, False, received), s\<lparr>inp := rest\<rparr>)))"
  by pat_completeness auto
termination
  by (relation "measure (\<lambda>(J, declared, part, frame_buf, received, s). length (inp s))")
    (auto dest: read_next_frame_into_progress)

declare entry_loop.simps [simp del]

text \<open>After the receive loop of an entry: the part file is removed, or renamed to its target.\<close>

definition close_entry ::
  "serde_json \<Rightarrow> server_env \<Rightarrow> entry_header \<Rightarrow> prepared_put_destination \<Rightarrow> bool \<times> bool \<times> u64 \<Rightarrow> server_error + unit
     \<Rightarrow> (srv, server_error, u64 option) op" where
  "close_entry J env header dst received helper_res =
     (case received of (entry_failed, size_mismatch, file_received) \<Rightarrow>
        if size_mismatch
        then bindS (remove_file_if_present (part_arg dst)) (\<lambda>_.
             bindS (send (write_transfer_error J (failure_new SizeMismatch
               (''entry '' @ [CHR 0x27] @ eh_path header @ [CHR 0x27] @ '' declared ''
                  @ nat_str (unat (eh_size header)) @ '' bytes, received '' @ nat_str (unat file_received)))))
               (\<lambda>_. retS None))
        else if entry_failed \<or> isl helper_res
        then bindS (remove_file_if_present (part_arg dst)) (\<lambda>_.
             failS (TransferFailed (failure_new HelperFailed (''recursive entry upload failed: ''
               @ (case helper_res of Inl e \<Rightarrow> show_error env e | Inr _ \<Rightarrow> [])))))
        else bindS (ctx_rename (part_arg dst) (final_arg dst)) (\<lambda>renamed.
             if \<not> renamed
             then failS (TransferFailed (failure_new AtomicRenameFailed
                    (''atomic rename failed for '' @ path_display (final_arg dst))))
             else bindS (case eh_mode header of Some m \<Rightarrow> ctx_chmod (final_arg dst) m | None \<Rightarrow> retS ())
                    (\<lambda>_. retS (Some file_received))))"

definition receive_entry ::
  "serde_json \<Rightarrow> server_env \<Rightarrow> entry_header \<Rightarrow> prepared_put_destination \<Rightarrow> (srv, server_error, u64 option) op" where
  "receive_entry J env header dst =
     bindS (spawn_upload_helper env (part_arg dst)) (\<lambda>_ s.
       case entry_loop J (eh_size header) (part_arg dst) [] 0 s of (received, s1) \<Rightarrow>
       case sink_wait env (part_arg dst) s1 of (helper_res, s2) \<Rightarrow>
       close_entry J env header dst received helper_res s2)"

text \<open>One entry of the tree; \<open>None\<close> means that the whole transfer is over, \<open>Some n\<close> that \<open>n\<close> bytes were stored.\<close>

definition handle_entry ::
  "serde_json \<Rightarrow> server_env \<Rightarrow> shell_context \<Rightarrow> path \<Rightarrow> entry_header \<Rightarrow> (srv, server_error, u64 option) op" where
  "handle_entry J env ctx dest_root header =
     (case sanitize_relative_path (eh_path header) of
        Inl reason \<Rightarrow>
          failS (path_invalid (''unsafe entry path '' @ [CHR 0x27] @ eh_path header @ [CHR 0x27] @ '': '' @ reason))
      | Inr entry_path \<Rightarrow>
          let full_path = path_join dest_root (components entry_path) in
          if eh_is_dir header
          then bindS (ctx_create_dir_all full_path) (\<lambda>_.
               bindS (case eh_mode header of Some m \<Rightarrow> ctx_chmod full_path m | None \<Rightarrow> retS ()) (\<lambda>_. retS (Some 0)))
          else bindS (prepare_put_destination env ctx (path_display full_path)) (\<lambda>prepared.
               case prepared of
                 None \<Rightarrow>
                   bindS (send (write_transfer_error J (target_exists_failure full_path))) (\<lambda>_. retS None)
               | Some dst \<Rightarrow> receive_entry J env header dst))"

datatype tree_event = Entry entry_header | TreeDone | TreeError transfer_failure | TreeChunk | TreeStray transfer_frame

fun tree_event_of :: "transfer_frame_borrowed \<Rightarrow> tree_event" where
  "tree_event_of (BPutChunk chunk) = TreeChunk"
| "tree_event_of (BGetChunk chunk) = TreeChunk"
| "tree_event_of (Owned f) =
     (case f of NewEntry h \<Rightarrow> Entry h | PutComplete c \<Rightarrow> TreeDone | FrameError e \<Rightarrow> TreeError e | _ \<Rightarrow> TreeStray f)"

text \<open>The loop over the entries, at most \<open>fuel\<close> of them; a stream of \<open>n\<close> bytes has fewer than \<open>n\<close> frames.\<close>

fun tree_loop ::
  "nat \<Rightarrow> serde_json \<Rightarrow> server_env \<Rightarrow> shell_context \<Rightarrow> path \<Rightarrow> u64 \<Rightarrow> (srv, server_error, unit) op" where
  "tree_loop 0 J env ctx dest_root total_received s = (Inl (Transport (Io UnexpectedEof)), s)"
| "tree_loop (Suc fuel) J env ctx dest_root total_received s =
     (case read_next_frame_into J [] (inp s) of
        Inl e \<Rightarrow> (Inl (Transport e), s)
      | Inr (frame, rest) \<Rightarrow>
          (case tree_event_of frame of
             Entry header \<Rightarrow>
               bindS (handle_entry J env ctx dest_root header) (\<lambda>stored.
                 case stored of
                   None \<Rightarrow> retS ()
                 | Some n \<Rightarrow> tree_loop fuel J env ctx dest_root (total_received + n)) (s\<lparr>inp := rest\<rparr>)
           | TreeDone \<Rightarrow> send (write_put_complete J \<lparr>tc_size = total_received\<rparr>) (s\<lparr>inp := rest\<rparr>)
           | TreeError e \<Rightarrow> (Inl (TransferFailed e), s\<lparr>inp := rest\<rparr>)
           | TreeChunk \<Rightarrow>
               (Inl (TransferFailed (failure_new UnexpectedFrame
                  ''unexpected chunk frame at recursive upload top level'')), s\<lparr>inp := rest\<rparr>)
           | TreeStray other \<Rightarrow>
               (Inl (TransferFailed (failure_new UnexpectedFrame
                  (''unexpected frame during recursive upload: '' @ show_frame env other))), s\<lparr>inp := rest\<rparr>)))"

definition tree_run ::
  "serde_json \<Rightarrow> server_env \<Rightarrow> shell_context \<Rightarrow> path \<Rightarrow> u64 \<Rightarrow> (srv, server_error, unit) op" where
  "tree_run J env ctx dest_root total_received s = tree_loop (length (inp s)) J env ctx dest_root total_received s"

definition handle_recursive_put_request ::
  "serde_json \<Rightarrow> server_env \<Rightarrow> shell_context \<Rightarrow> put_request \<Rightarrow> (srv, server_error, unit) op" where
  "handle_recursive_put_request J env ctx request =
     (case resolve_path env ctx (pr_path request) of
        Inl e \<Rightarrow> failS e
      | Inr dest_root \<Rightarrow>
          bindS (ctx_create_dir_all dest_root) (\<lambda>_.
          bindS (send (write_put_ready J \<lparr>tr_size = 0, tr_mode = None\<rparr>)) (\<lambda>_.
          tree_run J env ctx dest_root 0)))"

definition handle_put_request ::
  "serde_json \<Rightarrow> server_env \<Rightarrow> shell_context \<Rightarrow> put_request \<Rightarrow> (srv, server_error, unit) op" where
  "handle_put_request J env ctx request =
     (if pr_recursive request then handle_recursive_put_request J env ctx request
      else handle_single_put J env ctx request)"

section \<open>What the operations may change\<close>

definition onlyS :: "path set \<Rightarrow> (srv \<Rightarrow> 'r \<times> srv) \<Rightarrow> bool" where
  "onlyS S m \<longleftrightarrow> (\<forall>s r s'. m s = (r, s') \<longrightarrow>
     (\<forall>q. q \<notin> S \<longrightarrow> lookup (fsys s') q = lookup (fsys s) q) \<and> faults (fsys s') = faults (fsys s)
     \<and> length (inp s') \<le> length (inp s))"

lemma onlySD:
  "onlyS S m \<Longrightarrow> m s = (r, s') \<Longrightarrow> q \<notin> S \<Longrightarrow> lookup (fsys s') q = lookup (fsys s) q"
  "onlyS S m \<Longrightarrow> m s = (r, s') \<Longrightarrow> faults (fsys s') = faults (fsys s)"
  "onlyS S m \<Longrightarrow> m s = (r, s') \<Longrightarrow> length (inp s') \<le> length (inp s)"
  by (auto simp: onlyS_def)

lemma onlyS_mono: "onlyS S m \<Longrightarrow> S \<subseteq> T \<Longrightarrow> onlyS T m"
  unfolding onlyS_def by blast

lemma onlyS_bindS: "onlyS S m \<Longrightarrow> (\<And>v. onlyS S (f v)) \<Longrightarrow> onlyS S (bindS m f)"
proof -
  assume m: "onlyS S m" and f: "\<And>v. onlyS S (f v)"
  show "onlyS S (bindS m f)"
    unfolding onlyS_def
  proof (intro allI impI)
    fix s r s'
    assume "bindS m f s = (r, s')"
    then consider e where "m s = (Inl e, s')" | v s1 where "m s = (Inr v, s1)" "f v s1 = (r, s')"
      unfolding bindS_eq_iff by blast
    then show "(\<forall>q. q \<notin> S \<longrightarrow> lookup (fsys s') q = lookup (fsys s) q) \<and> faults (fsys s') = faults (fsys s)
        \<and> length (inp s') \<le> length (inp s)"
    proof cases
      case 1
      then show ?thesis using onlySD [OF m 1] by blast
    next
      case (2 v s1)
      then show ?thesis using onlySD [OF m 2(1)] onlySD [OF f 2(2)] by (metis le_trans)
    qed
  qed
qed

lemma onlyS_errS: "onlyS S m \<Longrightarrow> onlyS S (errS g m)"
  unfolding onlyS_def errS_eq_iff by metis

lemma onlyS_ret: "onlyS S (retS v)" "onlyS S (failS e)"
  by (simp_all add: onlyS_def)

lemma onlyS_send: "onlyS S (send f)"
  by (auto simp: onlyS_def send_def split: sum.splits if_splits)

lemma onlyS_on_disk: "only S m \<Longrightarrow> onlyS S (on_disk m)"
proof -
  assume m: "only S m"
  show "onlyS S (on_disk m)"
    unfolding onlyS_def
  proof (intro allI impI)
    fix s r s'
    assume run: "on_disk m s = (r, s')"
    obtain r0 d where d: "m (fsys s) = (r0, d)" by (rule prod.exhaust)
    then have "s' = s\<lparr>fsys := d\<rparr>" using run by (simp add: on_disk_def)
    then show "(\<forall>q. q \<notin> S \<longrightarrow> lookup (fsys s') q = lookup (fsys s) q) \<and> faults (fsys s') = faults (fsys s)
        \<and> length (inp s') \<le> length (inp s)"
      using onlyD [OF m d] by simp
  qed
qed

lemma onlyS_ignore: "onlyS S m \<Longrightarrow> onlyS S (ignoreS m)"
  unfolding onlyS_def ignoreS_def by (metis prod.collapse prod.inject)

lemma only_stat: "only S (\<lambda>d. if faults d c then (Inl e, d) else (Inr (f d), d))"
  by (auto simp: only_def split: if_splits)

lemmas onlyS_rules = onlyS_bindS onlyS_errS onlyS_ret onlyS_send onlyS_on_disk onlyS_ignore

lemma onlyS_context:
  "onlyS {p} (path_missing_no_follow p)" "onlyS (set (ancestors p)) (ctx_create_dir_all p)"
  "onlyS {p} (remove_file_if_present p)" "onlyS {p, q} (ctx_rename p q)" "onlyS {p} (ctx_chmod p m)"
  "onlyS {p} (spawn_upload_helper env p)" "onlyS {p} (sink_wait env p)"
  unfolding path_missing_no_follow_def ctx_create_dir_all_def remove_file_if_present_def ctx_rename_def ctx_chmod_def
    spawn_upload_helper_def sink_wait_def
  by (intro onlyS_rules only_stat only_create_dir_all only_fs_calls)+

text \<open>The receive loops touch only the part file.\<close>

lemma send_keeps:
  assumes "bindS (send f) (\<lambda>_. retS v) s = (r, s')"
  shows "fsys s' = fsys s" "inp s' = inp s"
  using assms by (auto simp: bindS_eq_iff send_def split: sum.splits if_splits)

lemma send_fields [simp]: "fsys (snd (send f s)) = fsys s" "inp (snd (send f s)) = inp s"
  by (auto simp: send_def split: sum.splits if_splits)

lemma put_loop_only:
  "put_loop J env declared part buf received s = (r, s') \<Longrightarrow>
     (\<forall>q. q \<noteq> part \<longrightarrow> lookup (fsys s') q = lookup (fsys s) q) \<and> faults (fsys s') = faults (fsys s)
     \<and> length (inp s') \<le> length (inp s)"
proof (induction J env declared part buf received s rule: put_loop.induct)
  case (1 J env declared part buf received s)
  show ?case
  proof (cases "read_next_frame_into J buf (inp s)")
    case (Inl e)
    then show ?thesis using 1(2) by (simp add: put_loop.simps)
  next
    case (Inr fr)
    obtain frame rest where fr: "fr = (frame, rest)" by (rule prod.exhaust)
    have less: "length rest < length (inp s)" using read_next_frame_into_progress Inr fr by simp
    show ?thesis
    proof (cases "put_event_of frame")
      case (Chunk chunk)
      let ?n = "received + of_nat (length chunk)"
      let ?w = "on_disk (fs_append part (str_of_bytes chunk)) (s\<lparr>inp := rest\<rparr>)"
      have w: "(\<forall>q. q \<noteq> part \<longrightarrow> lookup (fsys (snd ?w)) q = lookup (fsys s) q) \<and> faults (fsys (snd ?w)) = faults (fsys s)"
        using onlyD [OF only_fs_calls(8) [of part "str_of_bytes chunk"] surjective_pairing] by simp
      show ?thesis
      proof (cases "?n > declared")
        case True
        then show ?thesis using 1(2) Inr fr Chunk less send_keeps
          by (fastforce simp: put_loop.simps [of J env declared part buf received s] Let_def)
      next
        case False
        show ?thesis
        proof (cases "isl (fst ?w)")
          case True
          then show ?thesis using 1(2) Inr fr Chunk False less w
            by (auto simp: put_loop.simps [of J env declared part buf received s] Let_def)
        next
          case f2: False
          then have "put_loop J env declared part chunk ?n (snd ?w) = (r, s')"
            using 1(2) Inr fr Chunk False by (simp add: put_loop.simps [of J env declared part buf received s] Let_def)
          from 1(1) [OF Inr fr [symmetric] Chunk refl False refl f2 this] show ?thesis
            using w less by simp
        qed
      qed
    next
      case (Complete c)
      then show ?thesis using 1(2) Inr fr less send_keeps
        by (fastforce simp: put_loop.simps [of J env declared part buf received s] split: if_splits)
    qed (use 1(2) Inr fr less in \<open>auto simp: put_loop.simps [of J env declared part buf received s]\<close>)
  qed
qed

section \<open>What the part file holds\<close>

lemma read_next_frame_of_into:
  "read_next_frame_into J buf s = Inr (b, rest) \<Longrightarrow> read_next_frame J s = Inr (own_frame b, rest)"
  using read_next_frame_into_own [of J buf s] by (simp add: read_next_frame_eq)

lemma put_event_frames:
  "put_event_of b = Chunk chunk \<Longrightarrow> own_frame b = PutChunk chunk"
  "put_event_of b = Complete c \<Longrightarrow> own_frame b = PutComplete c"
  by (cases b; auto split: transfer_frame.splits)+

lemma length_str_of_bytes [simp]: "length (str_of_bytes b) = length b"
  by (simp add: str_of_bytes_def)

lemma str_of_bytes_append: "str_of_bytes (a @ b) = str_of_bytes a @ str_of_bytes b"
  by (simp add: str_of_bytes_def)

lemma append_result:
  assumes "\<not> isl (fst (on_disk (fs_append p data) s))" and "lookup (fsys s) p = Some (File c m)"
  shows "lookup (fsys (snd (on_disk (fs_append p data) s))) p = Some (File (c @ data) m)"
  using assms by (auto simp: on_disk_def fs_append_def split: if_splits)

text \<open>The stream of a complete upload: chunks, then the completion frame.\<close>

definition upload_stream :: "serde_json \<Rightarrow> bytes \<Rightarrow> bytes list \<Rightarrow> transfer_complete \<Rightarrow> bytes \<Rightarrow> bool" where
  "upload_stream J stream chunks complete rest \<longleftrightarrow>
     read_n (read_next_frame J) (Suc (length chunks)) stream = Inr (map PutChunk chunks @ [PutComplete complete], rest)"

lemma upload_stream_done:
  "read_next_frame J s = Inr (PutComplete c, rest) \<Longrightarrow> upload_stream J s [] c rest"
  by (simp add: upload_stream_def)

lemma upload_stream_chunk:
  "read_next_frame J s = Inr (PutChunk chunk, s1) \<Longrightarrow> upload_stream J s1 chunks c rest \<Longrightarrow>
     upload_stream J s (chunk # chunks) c rest"
  by (simp add: upload_stream_def)

lemma put_loop_content:
  "put_loop J env declared part buf received s = (Inr (False, n), s') \<Longrightarrow> lookup (fsys s) part = Some (File c m) \<Longrightarrow>
     received = of_nat (length c) \<Longrightarrow>
     \<exists>chunks comp. upload_stream J (inp s) chunks comp (inp s')
       \<and> lookup (fsys s') part = Some (File (c @ str_of_bytes (concat chunks)) m)
       \<and> n = of_nat (length (c @ str_of_bytes (concat chunks))) \<and> n = declared \<and> tc_size comp = declared"
proof (induction J env declared part buf received s arbitrary: c rule: put_loop.induct)
  case (1 J env declared part buf received s)
  note unfold = put_loop.simps [of J env declared part buf received s]
  obtain frame rest where fr: "read_next_frame_into J buf (inp s) = Inr (frame, rest)"
    using 1(2) by (cases "read_next_frame_into J buf (inp s)") (auto simp: unfold)
  note rd = read_next_frame_of_into [OF fr]
  show ?case
  proof (cases "put_event_of frame")
    case (Chunk chunk)
    let ?n = "received + of_nat (length chunk)"
    let ?w = "on_disk (fs_append part (str_of_bytes chunk)) (s\<lparr>inp := rest\<rparr>)"
    have nd: "\<not> ?n > declared" and nf: "\<not> isl (fst ?w)"
      and rec: "put_loop J env declared part chunk ?n (snd ?w) = (Inr (False, n), s')"
      using 1(2) fr Chunk by (auto simp: unfold Let_def bindS_eq_iff split: if_splits)
    have "lookup (fsys (snd ?w)) part = Some (File (c @ str_of_bytes chunk) m)"
      using append_result [OF nf] 1(3) by simp
    moreover have "?n = of_nat (length (c @ str_of_bytes chunk))" using 1(4) by simp
    ultimately obtain chunks comp where ih: "upload_stream J rest chunks comp (inp s')"
      "lookup (fsys s') part = Some (File ((c @ str_of_bytes chunk) @ str_of_bytes (concat chunks)) m)"
      "n = of_nat (length ((c @ str_of_bytes chunk) @ str_of_bytes (concat chunks)))" "n = declared" "tc_size comp = declared"
      using 1(1) [OF fr refl Chunk refl nd refl nf rec] by auto
    then show ?thesis
      using upload_stream_chunk [OF _ ih(1)] rd put_event_frames(1) [OF Chunk]
      by (intro exI [of _ "chunk # chunks"] exI [of _ comp]) (simp add: str_of_bytes_append)
  next
    case (Complete comp)
    then have "tc_size comp = received" "received = declared" "n = received" "s' = s\<lparr>inp := rest\<rparr>"
      using 1(2) fr by (auto simp: unfold bindS_eq_iff split: if_splits)
    then show ?thesis using upload_stream_done rd put_event_frames(2) [OF Complete] 1(3,4)
      by (intro exI [of _ "[]"] exI [of _ comp]) (simp add: str_of_bytes_def)
  qed (use 1(2) fr in \<open>simp_all add: unfold\<close>)
qed

end
