(* ===== verification/Upload_Safety.thy ===== *)
theory Upload_Safety
  imports Server_Upload
begin

text \<open>
  What a single upload guarantees: the target appears complete or not at all, nothing is left behind,
  and a well-formed upload is stored.
\<close>

section \<open>The part file\<close>

lemma nat_str_chars: "CHR ''/'' \<notin> set (nat_str n)"
proof (induction n rule: nat_str.induct)
  case (1 n)
  have "n mod 10 < 16" using mod_less_divisor [of 10 n] by linarith
  then show ?case using 1 hex_digit_neq [of n] hex_digit_neq [of "n mod 10"] by (subst nat_str.simps) auto
qed

lemma proper_part_name: "proper_name n \<Longrightarrow> proper_name (part_name n pid u)"
  using nat_str_chars [of pid] nat_str_chars [of u] by (auto simp: proper_name_def part_name_def)

lemma part_name_neq: "part_name n pid u \<noteq> n"
proof
  assume "part_name n pid u = n"
  then have "length (part_name n pid u) = length n" by simp
  then show False by (simp add: part_name_def)
qed

lemma part_path_eq:
  "proper_name n \<Longrightarrow> path_with_file_name (dir @ [Normal n]) (part_name n pid u) = dir @ [Normal (part_name n pid u)]"
  using components_proper [OF proper_part_name]
  by (simp add: path_with_file_name_def path_file_name_def path_join_def)

lemma not_own_ancestor: "dir @ [c] \<notin> set (ancestors dir)"
  by (auto simp: ancestors_iff)

lemma path_missing_result:
  "path_missing_no_follow p s = (Inr b, s') \<longleftrightarrow> \<not> faults (fsys s) (CallStat p) \<and> b = (lookup (fsys s) p = None) \<and> s' = s"
  by (auto simp: path_missing_no_follow_def on_disk_def map_err_def split: if_splits)

lemma path_missing_fails: "path_missing_no_follow p s = (Inl e, s') \<Longrightarrow> s' = s"
  by (auto simp: path_missing_no_follow_def on_disk_def map_err_def split: if_splits)

lemma ctx_create_dir_all_result:
  "ctx_create_dir_all p s = (Inr b, s') \<longleftrightarrow> b \<and> (\<exists>d. fs_create_dir_all p (fsys s) = (Inr (), d) \<and> s' = s\<lparr>fsys := d\<rparr>)"
  by (auto simp: ctx_create_dir_all_def bindS_eq_iff on_disk_def map_err_def split: sum.splits prod.splits)

text \<open>Preparing the destination \<open>dir/n\<close>: nothing but missing directories on the way to \<open>dir\<close> changes.\<close>

lemma prepare_put_cases:
  assumes "prepare_put_destination env ctx raw s = (r, s')"
    and "resolve_path env ctx raw = Inr (dir @ [Normal n])" and "proper_name n"
  obtains e where "r = Inl e" "s' = s \<or> ctx_create_dir_all dir s = (Inl e, s')"
  | "r = Inr None" "s' = s"
  | u s1 where "r = Inr (Some \<lparr>final_arg = dir @ [Normal n], part_arg = dir @ [Normal (part_name n (process_id env) u)]\<rparr>)"
      "lookup (fsys s) (dir @ [Normal n]) = None" "ctx_create_dir_all dir s = (Inr True, s1)"
      "s' = s1\<lparr>fsys := snd (draw_u64 (fsys s1))\<rparr>"
proof -
  let ?p = "dir @ [Normal n]"
  have parent: "path_parent ?p = Some dir" and name: "path_file_name ?p = Some n"
    by (simp_all add: path_parent_def path_file_name_def)
  note unfold = prepare_put_destination_def [of env ctx raw] assms(2) parent name part_path_eq [OF assms(3)]
  consider e where "path_missing_no_follow ?p s = (Inl e, s')" "r = Inl e"
    | "path_missing_no_follow ?p s = (Inr False, s)" "r = Inr None" "s' = s"
    | e where "path_missing_no_follow ?p s = (Inr True, s)" "ctx_create_dir_all dir s = (Inl e, s')" "r = Inl e"
    | s1 where "path_missing_no_follow ?p s = (Inr True, s)" "ctx_create_dir_all dir s = (Inr True, s1)"
       "r = Inr (Some \<lparr>final_arg = ?p, part_arg = dir @ [Normal (part_name n (process_id env) (unat (fst (draw_u64 (fsys s1)))))]\<rparr>)"
       "s' = s1\<lparr>fsys := snd (draw_u64 (fsys s1))\<rparr>"
    using assms(1)
    by (auto simp: unfold bindS_eq_iff path_missing_result ctx_create_dir_all_result draw_u64_def Let_def split: if_splits)
  then show thesis
  proof cases
    case 1
    then show thesis using that(1) path_missing_fails by blast
  next
    case 3
    then show thesis using that(1) by blast
  next
    case 4
    then show thesis using that(3) by (simp add: path_missing_result)
  qed (use that in blast)
qed

lemma draw_keeps [simp]: "lookup (snd (draw_u64 d)) p = lookup d p" "faults (snd (draw_u64 d)) = faults d"
  by (simp_all add: draw_u64_def)

lemma spawn_upload_helper_file:
  "spawn_upload_helper env p s = (Inr (), s') \<Longrightarrow> (\<exists>m. lookup (fsys s') p = Some (File [] m)) \<and> inp s' = inp s"
  by (auto simp: spawn_upload_helper_def errS_result_iffs on_disk_def map_err_def fs_create_def
      split: prod.splits sum.splits if_splits option.splits node.splits)

lemma append_keeps_file:
  "is_file_node (lookup (fsys s) p) \<Longrightarrow> is_file_node (lookup (fsys (snd (on_disk (fs_append p data) s))) p)"
  by (cases "lookup (fsys s) p"; cases "the (lookup (fsys s) p)") (auto simp: fs_append_def)

lemma put_loop_file:
  "put_loop J env declared part buf received s = (r, s') \<Longrightarrow> is_file_node (lookup (fsys s) part) \<Longrightarrow>
     is_file_node (lookup (fsys s') part)"
proof (induction J env declared part buf received s rule: put_loop.induct)
  case (1 J env declared part buf received s)
  note run = 1(2) and isfile = 1(3) and unfold = put_loop.simps [of J env declared part buf received s]
  show ?case
  proof (cases "read_next_frame_into J buf (inp s)")
    case (Inr fr)
    obtain frame rest where fr: "fr = (frame, rest)" by (rule prod.exhaust)
    show ?thesis
    proof (cases "put_event_of frame")
      case (Chunk chunk)
      let ?n = "received + of_nat (length chunk)"
      let ?w = "on_disk (fs_append part (str_of_bytes chunk)) (s\<lparr>inp := rest\<rparr>)"
      have isf: "is_file_node (lookup (fsys (snd ?w)) part)" using 1(3) by (intro append_keeps_file) simp
      consider "?n > declared" | "\<not> ?n > declared" "isl (fst ?w)" | "\<not> ?n > declared" "\<not> isl (fst ?w)" by blast
      then show ?thesis
      proof cases
        case 1
        then show ?thesis using run isfile Inr fr Chunk send_keeps
          by (fastforce simp: unfold Let_def)
      next
        case 2
        then show ?thesis using run isf Inr fr Chunk by (auto simp: unfold Let_def)
      next
        case 3
        then have "put_loop J env declared part chunk ?n (snd ?w) = (r, s')"
          using run Inr fr Chunk by (simp add: unfold Let_def)
        from 1(1) [OF Inr fr [symmetric] Chunk refl 3(1) refl 3(2) this isf] show ?thesis .
      qed
    next
      case (Complete c)
      then show ?thesis using 1(2,3) Inr fr send_keeps by (fastforce simp: unfold split: if_splits)
    qed (use 1(2,3) Inr fr in \<open>auto simp: unfold\<close>)
  qed (use 1(2,3) in \<open>simp add: unfold\<close>)
qed


lemma remove_file_if_present_gone:
  "is_file_node (lookup (fsys s) p) \<Longrightarrow> \<not> faults (fsys s) (CallRemove p) \<Longrightarrow>
     lookup (fsys (snd (remove_file_if_present p s))) p = None"
  using fs_remove_file_gone [of "fsys s" p]
  by (cases "lookup (fsys s) p"; cases "the (lookup (fsys s) p)") (auto simp: remove_file_if_present_def ignoreS_def)

lemma sink_wait_keeps: "sink_wait env p s = (r, s') \<Longrightarrow> fsys s' = fsys s"
  by (auto simp: sink_wait_def errS_eq_iff on_disk_def fs_sync_def split: if_splits)

lemma ctx_rename_result:
  "ctx_rename p q s = (Inr b, s') \<longleftrightarrow> b \<and> (\<exists>d. fs_rename p q (fsys s) = (Inr (), d) \<and> s' = s\<lparr>fsys := d\<rparr>)"
  by (auto simp: ctx_rename_def bindS_eq_iff on_disk_def map_err_def split: sum.splits prod.splits)

lemma ctx_rename_fails: "ctx_rename p q s = (Inl e, s') \<Longrightarrow> fsys s' = fsys s"
  by (auto simp: ctx_rename_def bindS_eq_iff on_disk_def map_err_def split: sum.splits prod.splits dest: fs_rename_fails)

lemma ctx_chmod_file:
  "lookup (fsys s) p = Some (File c m) \<Longrightarrow> \<exists>m'. lookup (fsys (snd (ctx_chmod p k s))) p = Some (File c m')"
  by (auto simp: ctx_chmod_def ignoreS_def fs_set_permissions_def)

lemma optional_chmod_file:
  assumes "(case mo of Some m \<Rightarrow> ctx_chmod p m | None \<Rightarrow> retS ()) s = (r, s')" and "lookup (fsys s) p = Some (File c m)"
  shows "\<exists>m'. lookup (fsys s') p = Some (File c m')"
  using assms ctx_chmod_file [OF assms(2)] by (cases mo) (auto, metis snd_conv)

lemma optional_chmod_ok:
  "(case mo of Some m \<Rightarrow> ctx_chmod p m | None \<Rightarrow> retS ()) s \<noteq> (Inl e, s')"
  by (cases mo) (auto simp: ctx_chmod_def ignoreS_def)

lemma onlyS_optional_chmod: "onlyS {p} (case mo of Some m \<Rightarrow> ctx_chmod p m | None \<Rightarrow> retS ())"
  by (cases mo) (auto intro: onlyS_ret onlyS_context)

lemma send_result: "send f s = (r, s') \<Longrightarrow> fsys s' = fsys s \<and> inp s' = inp s"
  using send_fields [of f s] by simp

text \<open>Closing an upload: the part file is gone, and the target is as it was or has what the part file held.\<close>

lemma finish_put_cases:
  assumes "finish_put J env request dst failed n s = (r, s')"
  obtains s1 where "fsys s1 = fsys s" "fsys s' = fsys (snd (remove_file_if_present (part_arg dst) s1))"
  | d s2 where "\<not> failed" "fs_rename (part_arg dst) (final_arg dst) (fsys s) = (Inr (), d)" "fsys s2 = d"
      "bindS (case pr_mode request of Some m \<Rightarrow> ctx_chmod (final_arg dst) m | None \<Rightarrow> retS ()) (\<lambda>_.
         send (write_put_complete J \<lparr>tc_size = n\<rparr>)) s2 = (r, s')"
proof -
  obtain hr s1 where w: "sink_wait env (part_arg dst) s = (hr, s1)" by (rule prod.exhaust)
  note s1 = sink_wait_keeps [OF w]
  show thesis
  proof (cases "failed \<or> isl hr")
    case True
    let ?s2 = "snd (remove_file_if_present (part_arg dst) s1)"
    have "s' = ?s2 \<or> (\<exists>f. send f ?s2 = (r, s'))"
      using assms w True by (auto simp: finish_put_def Let_def split: sum.splits if_splits)
    then have "fsys s' = fsys ?s2" using send_fields(1) [of _ ?s2] by (metis snd_conv)
    then show thesis using that(1) s1 by blast
  next
    case False
    obtain rr s2 where rn: "ctx_rename (part_arg dst) (final_arg dst) s1 = (rr, s2)" by (rule prod.exhaust)
    show thesis
    proof (cases rr)
      case (Inl e)
      then show thesis using that(1) [of s2] ctx_rename_fails rn s1 assms w False by (auto simp: finish_put_def)
    next
      case (Inr b)
      with rn have b: "b" and d: "fs_rename (part_arg dst) (final_arg dst) (fsys s) = (Inr (), fsys s2)"
        using s1 by (auto simp: ctx_rename_result)
      then show thesis using that(2) assms w False rn Inr by (auto simp: finish_put_def)
    qed
  qed
qed

lemma finish_put_result:
  assumes "finish_put J env request dst failed n s = (r, s')" and "part_arg dst \<noteq> final_arg dst"
    and part: "lookup (fsys s) (part_arg dst) = Some (File c m)"
  shows "lookup (fsys s') (final_arg dst) = lookup (fsys s) (final_arg dst)
      \<or> \<not> failed \<and> (\<exists>m'. lookup (fsys s') (final_arg dst) = Some (File c m'))"
    and "\<not> faults (fsys s) (CallRemove (part_arg dst)) \<Longrightarrow> lookup (fsys s') (part_arg dst) = None"
    and "q \<noteq> part_arg dst \<Longrightarrow> q \<noteq> final_arg dst \<Longrightarrow> lookup (fsys s') q = lookup (fsys s) q"
proof -
  let ?p = "part_arg dst" and ?t = "final_arg dst"
  have "(lookup (fsys s') ?t = lookup (fsys s) ?t \<or> \<not> failed \<and> (\<exists>m'. lookup (fsys s') ?t = Some (File c m')))
      \<and> (\<not> faults (fsys s) (CallRemove ?p) \<longrightarrow> lookup (fsys s') ?p = None)
      \<and> (\<forall>q. q \<noteq> ?p \<and> q \<noteq> ?t \<longrightarrow> lookup (fsys s') q = lookup (fsys s) q)"
    using assms(1)
  proof (cases rule: finish_put_cases)
    case (1 s1)
    then show ?thesis using onlySD(1) [OF onlyS_context(3) surjective_pairing, of _ ?p s1]
        remove_file_if_present_gone [of s1 ?p] part assms(2) by auto
  next
    case (2 d s2)
    then obtain s3 where ch: "(case pr_mode request of Some m \<Rightarrow> ctx_chmod ?t m | None \<Rightarrow> retS ()) s2 = (Inr (), s3)"
        "fsys s' = fsys s3"
      using optional_chmod_ok by (auto simp: bindS_eq_iff dest: send_result)
    have "lookup d ?t = Some (File c m)" "lookup d ?p = None" "\<forall>q. q \<noteq> ?p \<and> q \<noteq> ?t \<longrightarrow> lookup d q = lookup (fsys s) q"
      using 2(2) fs_rename_moves [OF 2(2) assms(2)] part onlyD(1) [OF only_fs_calls(6) 2(2)] by auto
    then show ?thesis using onlySD(1) [OF onlyS_optional_chmod ch(1)] optional_chmod_file [OF ch(1)] ch(2) 2(1,3) assms(2)
      by auto
  qed
  then show "lookup (fsys s') ?t = lookup (fsys s) ?t \<or> \<not> failed \<and> (\<exists>m'. lookup (fsys s') ?t = Some (File c m'))"
    "\<not> faults (fsys s) (CallRemove ?p) \<Longrightarrow> lookup (fsys s') ?p = None"
    "q \<noteq> ?p \<Longrightarrow> q \<noteq> ?t \<Longrightarrow> lookup (fsys s') q = lookup (fsys s) q"
    by blast+
qed


lemma put_loop_error:
  "put_loop J env declared part buf received s = (Inl e, s') \<Longrightarrow> \<exists>t. e = Transport t"
proof (induction J env declared part buf received s rule: put_loop.induct)
  case (1 J env declared part buf received s)
  note run = 1(2) and unfold = put_loop.simps [of J env declared part buf received s]
  obtain frame rest where fr: "read_next_frame_into J buf (inp s) = Inr (frame, rest)"
    using run by (cases "read_next_frame_into J buf (inp s)") (auto simp: unfold)
  show ?case
  proof (cases "put_event_of frame")
    case (Chunk chunk)
    let ?n = "received + of_nat (length chunk)"
    let ?w = "on_disk (fs_append part (str_of_bytes chunk)) (s\<lparr>inp := rest\<rparr>)"
    show ?thesis
    proof (cases "\<not> ?n > declared \<and> \<not> isl (fst ?w)")
      case True
      then have "put_loop J env declared part chunk ?n (snd ?w) = (Inl e, s')"
        using run fr Chunk by (simp add: unfold Let_def)
      then show ?thesis using 1(1) [OF fr refl Chunk refl] True by blast
    next
      case False
      then show ?thesis using run fr Chunk
        by (auto simp: unfold Let_def bindS_eq_iff send_def split: if_splits sum.splits)
    qed
  qed (use run fr in \<open>auto simp: unfold bindS_eq_iff send_def split: if_splits sum.splits\<close>)
qed

lemma receive_put_cases:
  assumes "receive_put J env request dst s = (r, s')"
  obtains e where "r = Inl e" "fsys s' = fsys s"
  | s1 s2 e where "spawn_upload_helper env (part_arg dst) s = (Inr (), s1)" "r = Inl (Transport e)"
      "fsys s2 = fsys s1" "fsys s' = fsys (snd (remove_file_if_present (part_arg dst) s2))"
  | s1 s2 e where "spawn_upload_helper env (part_arg dst) s = (Inr (), s1)" "r = Inl (Transport e)" "fsys s2 = fsys s1"
      "put_loop J env (pr_size request) (part_arg dst) [] 0 s2 = (Inl (Transport e), s')"
  | s1 s2 s3 failed n where "spawn_upload_helper env (part_arg dst) s = (Inr (), s1)" "fsys s2 = fsys s1" "inp s2 = inp s1"
      "put_loop J env (pr_size request) (part_arg dst) [] 0 s2 = (Inr (failed, n), s3)"
      "finish_put J env request dst failed n s3 = (r, s')"
proof -
  let ?f = "write_put_ready J \<lparr>tr_size = pr_size request, tr_mode = pr_mode request\<rparr>"
  obtain hr s1 where sp: "spawn_upload_helper env (part_arg dst) s = (hr, s1)" by (rule prod.exhaust)
  show thesis
  proof (cases hr)
    case (Inl e)
    then have "fsys s1 = fsys s"
      using sp by (auto simp: spawn_upload_helper_def errS_result_iffs on_disk_def map_err_def fs_create_def
          split: prod.splits sum.splits if_splits option.splits node.splits)
    then show thesis using that(1) assms sp Inl by (auto simp: receive_put_def bindS_eq_iff)
  next
    case (Inr x)
    obtain sr s2 where sd: "send ?f s1 = (sr, s2)" by (rule prod.exhaust)
    note s2 = send_result [OF sd]
    show thesis
    proof (cases sr)
      case (Inl e)
      then have "\<exists>t. e = Transport t" using sd by (auto simp: send_def split: sum.splits if_splits)
      then show thesis using that(2) assms sp sd Inr Inl s2 by (auto simp: receive_put_def bindS_def)
    next
      case Inr2: (Inr y)
      have "bindS (put_loop J env (pr_size request) (part_arg dst) [] 0) (\<lambda>(transfer_failed, received).
             finish_put J env request dst transfer_failed received) s2 = (r, s')"
        using assms sp sd Inr Inr2 by (simp add: receive_put_def bindS_def)
      then consider e where "put_loop J env (pr_size request) (part_arg dst) [] 0 s2 = (Inl e, s')" "r = Inl e"
        | failed n s3 where "put_loop J env (pr_size request) (part_arg dst) [] 0 s2 = (Inr (failed, n), s3)"
          "finish_put J env request dst failed n s3 = (r, s')"
        by (auto simp: bindS_eq_iff)
      then show thesis
        using that(3,4) s2 put_loop_error sp Inr by cases (auto, metis)
    qed
  qed
qed


text \<open>A complete upload of a given size.\<close>

definition complete_upload :: "serde_json \<Rightarrow> bytes \<Rightarrow> u64 \<Rightarrow> string \<Rightarrow> bool" where
  "complete_upload J stream declared content \<longleftrightarrow>
     (\<exists>chunks comp rest. upload_stream J stream chunks comp rest \<and> content = str_of_bytes (concat chunks)
        \<and> of_nat (length content) = declared \<and> tc_size comp = declared)"

lemma receive_put_result:
  assumes "receive_put J env request dst s = (r, s')" and neq: "part_arg dst \<noteq> final_arg dst"
  shows "lookup (fsys s') (final_arg dst) = lookup (fsys s) (final_arg dst)
      \<or> (\<exists>c m. complete_upload J (inp s) (pr_size request) c \<and> lookup (fsys s') (final_arg dst) = Some (File c m))"
    and "\<forall>q. q \<noteq> part_arg dst \<and> q \<noteq> final_arg dst \<longrightarrow> lookup (fsys s') q = lookup (fsys s) q"
    and "\<not> faults (fsys s) (CallRemove (part_arg dst)) \<Longrightarrow> \<forall>e. r \<noteq> Inl (Transport e) \<Longrightarrow>
      lookup (fsys s') (part_arg dst) \<in> {None, lookup (fsys s) (part_arg dst)}"
proof -
  let ?p = "part_arg dst" and ?t = "final_arg dst"
  have "(lookup (fsys s') ?t = lookup (fsys s) ?t
        \<or> (\<exists>c m. complete_upload J (inp s) (pr_size request) c \<and> lookup (fsys s') ?t = Some (File c m)))
      \<and> (\<forall>q. q \<noteq> ?p \<and> q \<noteq> ?t \<longrightarrow> lookup (fsys s') q = lookup (fsys s) q)
      \<and> (\<not> faults (fsys s) (CallRemove ?p) \<and> (\<forall>e. r \<noteq> Inl (Transport e)) \<longrightarrow>
          lookup (fsys s') ?p \<in> {None, lookup (fsys s) ?p})"
    using assms(1)
  proof (cases rule: receive_put_cases)
    case (2 s1 s2 e)
    then show ?thesis using onlySD(1) [OF onlyS_context(6) 2(1)] onlySD(1) [OF onlyS_context(3) surjective_pairing, of _ ?p s2]
        neq by auto
  next
    case (3 s1 s2 e)
    then show ?thesis using onlySD(1) [OF onlyS_context(6) 3(1)] put_loop_only [OF 3(4)] neq by auto
  next
    case (4 s1 s2 s3 failed n)
    obtain m where empty: "lookup (fsys s2) ?p = Some (File [] m)" "inp s2 = inp s"
      using spawn_upload_helper_file [OF 4(1)] 4(2,3) by auto
    then obtain c m' where c: "lookup (fsys s3) ?p = Some (File c m')"
      using put_loop_file [OF 4(4)] by (auto elim!: is_file_node.elims)
    have same: "\<forall>q. q \<noteq> ?p \<longrightarrow> lookup (fsys s3) q = lookup (fsys s) q" "faults (fsys s3) = faults (fsys s)"
      using onlySD(1,2) [OF onlyS_context(6) 4(1)] put_loop_only [OF 4(4)] 4(2) by auto
    have "complete_upload J (inp s) (pr_size request) c" if "\<not> failed"
      using put_loop_content [of J env "pr_size request" ?p "[]" 0 s2 n s3 "[]" m] 4(4) that empty c
      by (auto simp: complete_upload_def) blast
    then show ?thesis using finish_put_result [OF 4(5) neq c] same neq by auto
  qed auto
  then show "lookup (fsys s') ?t = lookup (fsys s) ?t
        \<or> (\<exists>c m. complete_upload J (inp s) (pr_size request) c \<and> lookup (fsys s') ?t = Some (File c m))"
    "\<forall>q. q \<noteq> ?p \<and> q \<noteq> ?t \<longrightarrow> lookup (fsys s') q = lookup (fsys s) q"
    "\<not> faults (fsys s) (CallRemove ?p) \<Longrightarrow> \<forall>e. r \<noteq> Inl (Transport e) \<Longrightarrow> lookup (fsys s') ?p \<in> {None, lookup (fsys s) ?p}"
    by blast+
qed

lemma handle_single_put_cases:
  assumes "handle_single_put J env ctx request s = (r, s')"
    and "resolve_path env ctx (pr_path request) = Inr (dir @ [Normal n])" and "proper_name n"
  obtains "\<forall>q. q \<notin> set (ancestors dir) \<longrightarrow> lookup (fsys s') q = lookup (fsys s) q"
  | u s1 where "lookup (fsys s) (dir @ [Normal n]) = None" "faults (fsys s1) = faults (fsys s)" "inp s1 = inp s"
      "\<forall>q. q \<notin> set (ancestors dir) \<longrightarrow> lookup (fsys s1) q = lookup (fsys s) q"
      "receive_put J env request \<lparr>final_arg = dir @ [Normal n], part_arg = dir @ [Normal (part_name n (process_id env) u)]\<rparr> s1
         = (r, s')"
proof -
  obtain pr s1 where p: "prepare_put_destination env ctx (pr_path request) s = (pr, s1)" by (rule prod.exhaust)
  from p assms(2,3) show thesis
  proof (cases rule: prepare_put_cases)
    case (1 e)
    then have "s' = s1" using p assms(1) by (simp add: handle_single_put_def bindS_def)
    then show thesis using that(1) 1(2) onlySD(1) [OF onlyS_context(2)] by blast
  next
    case 2
    then have "send (write_transfer_error J (target_exists_failure (dir @ [Normal n]))) s = (r, s')"
      using p assms(1,2) by (simp add: handle_single_put_def bindS_def)
    then show thesis using that(1) send_result by fastforce
  next
    case (3 u s2)
    have "receive_put J env request
        \<lparr>final_arg = dir @ [Normal n], part_arg = dir @ [Normal (part_name n (process_id env) u)]\<rparr> s1 = (r, s')"
      using p assms(1) 3(1) by (simp add: handle_single_put_def bindS_def)
    from that(2) [OF 3(2) _ _ _ this] show thesis
      using 3(3,4) onlySD(1,2) [OF onlyS_context(2) 3(3)] by (auto simp: ctx_create_dir_all_result)
  qed
qed

section \<open>A well-formed upload goes through\<close>

lemma decode_frame_no_chunk: "decode_frame J k p \<noteq> Inr (PutChunk x)"
  by (auto simp: decode_frame_def decode_as_def and_then_eq_Inr_iff split: if_splits)

lemma frame_events:
  assumes "read_next_frame J s = Inr (f, rest)"
  shows "f = PutChunk chunk \<Longrightarrow> \<exists>b. read_next_frame_into J buf s = Inr (b, rest) \<and> put_event_of b = Chunk chunk"
    and "f = PutComplete c \<Longrightarrow> \<exists>b. read_next_frame_into J buf s = Inr (b, rest) \<and> put_event_of b = Complete c"
proof -
  from assms obtain b where b: "read_next_frame_into J buf s = Inr (b, rest)" "own_frame b = f"
    using read_next_frame_into_own [of J buf s] by (auto simp: read_next_frame_eq and_then_eq_Inr_iff)
  have "b = Owned g \<Longrightarrow> g \<noteq> PutChunk x" for g x
    using b(1) decode_frame_no_chunk by (auto simp: read_next_frame_into_def and_then_eq_Inr_iff split: prod.splits if_splits)
  with b show "f = PutChunk chunk \<Longrightarrow> \<exists>b. read_next_frame_into J buf s = Inr (b, rest) \<and> put_event_of b = Chunk chunk"
    "f = PutComplete c \<Longrightarrow> \<exists>b. read_next_frame_into J buf s = Inr (b, rest) \<and> put_event_of b = Complete c"
    by (cases b; auto)+
qed


lemma upload_stream_cases:
  "upload_stream J s [] c rest \<longleftrightarrow> read_next_frame J s = Inr (PutComplete c, rest)"
  "upload_stream J s (x # xs) c rest \<longleftrightarrow>
     (\<exists>s1. read_next_frame J s = Inr (PutChunk x, s1) \<and> upload_stream J s1 xs c rest)"
  by (auto simp: upload_stream_def and_then_eq_Inr_iff split: prod.splits)

lemma append_healthy:
  assumes "healthy (fsys s)" and "lookup (fsys s) p = Some (File c m)"
  shows "on_disk (fs_append p data) s = (Inr (), s\<lparr>fsys := put_node p (File (c @ data) m) (fsys s)\<rparr>)"
  using assms by (simp add: on_disk_def fs_append_def healthy_def map_err_def)

lemma healthy_put_node [simp]: "healthy (put_node p n d) = healthy d" "healthy (del_node p d) = healthy d"
  by (simp_all add: healthy_def)

lemma of_nat_le_word: "n \<le> unat w \<Longrightarrow> of_nat n \<le> (w :: u64)"
  using le_trans [OF take_bit_nat_less_eq_self [of 64 n]] by (simp add: word_le_nat_alt unsigned_of_nat)

lemma put_loop_completes:
  assumes "upload_stream J (inp s) chunks fin rest" and "lookup (fsys s) part = Some (File c m)"
    and "length c + length (concat chunks) = unat declared" and "tc_size fin = declared" and "healthy (fsys s)"
  shows "\<exists>d. put_loop J env declared part buf (of_nat (length c)) s = (Inr (False, declared), s\<lparr>inp := rest, fsys := d\<rparr>)
      \<and> healthy d \<and> lookup d part = Some (File (c @ str_of_bytes (concat chunks)) m)
      \<and> (\<forall>q. q \<noteq> part \<longrightarrow> lookup d q = lookup (fsys s) q)"
  using assms
proof (induction chunks arbitrary: s c buf)
  case Nil
  then obtain b where b: "read_next_frame_into J buf (inp s) = Inr (b, rest)" "put_event_of b = Complete fin"
    using frame_events(2) by (fastforce simp: upload_stream_cases)
  have "of_nat (length c) = declared" using Nil(3) by simp
  moreover have "s\<lparr>inp := rest, fsys := fsys s\<rparr> = s\<lparr>inp := rest\<rparr>" by (cases s) simp
  ultimately show ?case using b Nil
    by (intro exI [of _ "fsys s"]) (simp add: put_loop.simps [of J env declared part buf _ s] str_of_bytes_def)
next
  case (Cons x xs)
  then obtain s1 where s1: "read_next_frame J (inp s) = Inr (PutChunk x, s1)" "upload_stream J s1 xs fin rest"
    by (auto simp: upload_stream_cases)
  then obtain b where b: "read_next_frame_into J buf (inp s) = Inr (b, s1)" "put_event_of b = Chunk x"
    using frame_events(1) by blast
  let ?c = "c @ str_of_bytes x"
  let ?s = "s\<lparr>inp := s1, fsys := put_node part (File ?c m) (fsys s)\<rparr>"
  have w: "on_disk (fs_append part (str_of_bytes x)) (s\<lparr>inp := s1\<rparr>) = (Inr (), ?s)"
    using append_healthy [of "s\<lparr>inp := s1\<rparr>"] Cons.prems by simp
  have "length ?c \<le> unat declared" using Cons.prems(3) by simp
  then have le: "\<not> of_nat (length c) + of_nat (length x) > declared"
    using of_nat_le_word [of "length ?c" declared] by (simp add: linorder_not_less)
  have "put_loop J env declared part buf (of_nat (length c)) s = put_loop J env declared part x (of_nat (length ?c)) ?s"
    using b le w by (simp add: put_loop.simps [of J env declared part buf _ s] Let_def)
  then show ?case
    using Cons.IH [of ?s ?c x] s1(2) Cons.prems by (simp add: str_of_bytes_append)
qed


lemma create_dir_all_healthy:
  assumes "healthy d" and "dir_free d p"
  obtains d' where "fs_create_dir_all p d = (Inr (), d')" "healthy d'" "is_dir_node (lookup d' p)"
    "\<And>q. q \<notin> set (ancestors p) \<Longrightarrow> lookup d' q = lookup d q"
proof -
  let ?d = "fold make_dir (ancestors p) d"
  have "fs_create_dir_all p d = (Inr (), ?d)" using assms by (simp add: fs_create_dir_all_def healthy_def dir_free_def)
  moreover have "healthy ?d" using assms by (simp add: healthy_def)
  ultimately show thesis using that created_is_dir [OF assms(2)] fold_make_dir_frame by metis
qed

lemma prepare_healthy:
  assumes "healthy (fsys s)" and "dir_free (fsys s) dir" and "resolve_path env ctx raw = Inr (dir @ [Normal n])"
    and "proper_name n" and "lookup (fsys s) (dir @ [Normal n]) = None"
    and "\<forall>u. \<not> is_dir_node (lookup (fsys s) (dir @ [Normal (part_name n (process_id env) u)]))"
  obtains s1 u where "prepare_put_destination env ctx raw s =
      (Inr (Some \<lparr>final_arg = dir @ [Normal n], part_arg = dir @ [Normal (part_name n (process_id env) u)]\<rparr>), s1)"
    "healthy (fsys s1)" "is_dir_node (lookup (fsys s1) dir)" "lookup (fsys s1) (dir @ [Normal n]) = None"
    "\<not> is_dir_node (lookup (fsys s1) (dir @ [Normal (part_name n (process_id env) u)]))"
    "write_fails s1 = write_fails s" "inp s1 = inp s" "outp s1 = outp s"
proof -
  obtain d where d: "fs_create_dir_all dir (fsys s) = (Inr (), d)" "healthy d" "is_dir_node (lookup d dir)"
    "\<And>q. q \<notin> set (ancestors dir) \<Longrightarrow> lookup d q = lookup (fsys s) q"
    using create_dir_all_healthy [OF assms(1,2)] by metis
  have m: "path_missing_no_follow (dir @ [Normal n]) s = (Inr True, s)"
    using assms(1,5) by (simp add: path_missing_result healthy_def)
  have c: "ctx_create_dir_all dir s = (Inr True, s\<lparr>fsys := d\<rparr>)" using d(1) by (simp add: ctx_create_dir_all_result)
  let ?u = "unat (fst (draw_u64 d))" and ?s = "s\<lparr>fsys := snd (draw_u64 d)\<rparr>"
  have "prepare_put_destination env ctx raw s = (Inr (Some \<lparr>final_arg = dir @ [Normal n],
      part_arg = dir @ [Normal (part_name n (process_id env) ?u)]\<rparr>), ?s)"
    using m c assms(3) part_path_eq [OF assms(4)]
    by (simp add: prepare_put_destination_def bindS_def path_parent_def path_file_name_def draw_u64_def)
  then show thesis using that d assms(5,6) not_own_ancestor by (simp add: healthy_def)
qed

lemma spawn_healthy:
  assumes "healthy (fsys s)" and "is_dir_node (lookup (fsys s) (butlast p))" and "\<not> is_dir_node (lookup (fsys s) p)"
  obtains m where "spawn_upload_helper env p s = (Inr (), s\<lparr>fsys := put_node p (File [] m) (fsys s)\<rparr>)"
  using assms by (cases "lookup (fsys s) p"; cases "the (lookup (fsys s) p)")
    (auto simp: spawn_upload_helper_def errS_def on_disk_def map_err_def fs_create_def healthy_def)

lemma finish_healthy:
  assumes "healthy (fsys s)" and "lookup (fsys s) (part_arg dst) = Some (File c m)" and "part_arg dst \<noteq> final_arg dst"
    and "lookup (fsys s) (final_arg dst) = None" and "write_fails s = (\<lambda>_. False)"
    and "is_dir_node (lookup (fsys s) (butlast (final_arg dst)))" and "write_put_complete J \<lparr>tc_size = n\<rparr> = Inr reply"
  shows "\<exists>s' m. finish_put J env request dst False n s = (Inr (), s') \<and> lookup (fsys s') (final_arg dst) = Some (File c m)
      \<and> outp s' = outp s @ reply \<and> inp s' = inp s"
proof -
  let ?d = "put_node (final_arg dst) (File c m) (del_node (part_arg dst) (fsys s))"
  have "s\<lparr>fsys := fsys s\<rparr> = s" by (cases s) simp
  then have y: "sink_wait env (part_arg dst) s = (Inr (), s)"
    using assms(1) by (simp add: sink_wait_def errS_def on_disk_def fs_sync_def healthy_def map_err_def)
  have r: "ctx_rename (part_arg dst) (final_arg dst) s = (Inr True, s\<lparr>fsys := ?d\<rparr>)"
    using assms(1-4,6) by (simp add: ctx_rename_result fs_rename_def healthy_def)
  show ?thesis
  proof (cases "pr_mode request")
    case None
    then show ?thesis using y r assms(5,7) by (simp add: finish_put_def bindS_def send_def)
  next
    case (Some k)
    then show ?thesis using y r assms(1,5,7)
      by (simp add: finish_put_def bindS_def send_def ctx_chmod_def ignoreS_def on_disk_def fs_set_permissions_def healthy_def)
  qed
qed

lemma receive_healthy:
  assumes "healthy (fsys s)" and "is_dir_node (lookup (fsys s) (butlast (part_arg dst)))"
    and "\<not> is_dir_node (lookup (fsys s) (part_arg dst))" and "part_arg dst \<noteq> final_arg dst"
    and "lookup (fsys s) (final_arg dst) = None" and "write_fails s = (\<lambda>_. False)"
    and "butlast (final_arg dst) = butlast (part_arg dst)" and "upload_stream J (inp s) chunks fin rest" and "length (concat chunks) = unat (pr_size request)"
    and "tc_size fin = pr_size request"
    and "write_put_ready J \<lparr>tr_size = pr_size request, tr_mode = pr_mode request\<rparr> = Inr ready"
    and "write_put_complete J \<lparr>tc_size = pr_size request\<rparr> = Inr reply"
  shows "\<exists>s' m. receive_put J env request dst s = (Inr (), s')
      \<and> lookup (fsys s') (final_arg dst) = Some (File (str_of_bytes (concat chunks)) m)
      \<and> outp s' = outp s @ ready @ reply \<and> inp s' = rest"
proof -
  obtain m where sp: "spawn_upload_helper env (part_arg dst) s =
      (Inr (), s\<lparr>fsys := put_node (part_arg dst) (File [] m) (fsys s)\<rparr>)"
    using spawn_healthy [OF assms(1-3)] by metis
  define s1 where "s1 = s\<lparr>fsys := put_node (part_arg dst) (File [] m) (fsys s), outp := outp s @ ready, writes := Suc (writes s)\<rparr>"
  obtain d where loop: "put_loop J env (pr_size request) (part_arg dst) [] 0 s1
      = (Inr (False, pr_size request), s1\<lparr>inp := rest, fsys := d\<rparr>)"
    and d: "healthy d" "lookup d (part_arg dst) = Some (File (str_of_bytes (concat chunks)) m)"
      "\<forall>q. q \<noteq> part_arg dst \<longrightarrow> lookup d q = lookup (fsys s1) q"
    using put_loop_completes [of J s1 chunks fin rest "part_arg dst" "[]" m "pr_size request" env "[]"] assms(1,8-10)
    by (auto simp: s1_def)
  have parent: "butlast (part_arg dst) \<noteq> part_arg dst" using assms(2,3) by auto
  have "receive_put J env request dst s = finish_put J env request dst False (pr_size request) (s1\<lparr>inp := rest, fsys := d\<rparr>)"
    using sp loop assms(6,11) by (simp add: receive_put_def bindS_def send_def s1_def)
  then show ?thesis
    using finish_healthy [of "s1\<lparr>inp := rest, fsys := d\<rparr>" dst "str_of_bytes (concat chunks)" m J "pr_size request" reply env request]
      d assms(2,4-7,12) parent by (auto simp: s1_def)
qed

section \<open>Properties\<close>


definition sample_env :: server_env where
  "sample_env = \<lparr>home_dir = Some [RootDir, Normal ''s''], process_cwd = (\<lambda>_. Inr None), process_id = 4,
     show_frame = (\<lambda>_. ''frame''), show_error = (\<lambda>_. ''error''), show_io = (\<lambda>_. ''io error''),
     read_len = (\<lambda>_ _. 100), walk_dir = (\<lambda>_ _. [])\<rparr>"

definition sample_srv :: "bytes \<Rightarrow> srv" where
  "sample_srv stream = \<lparr>fsys = sample_disk, inp = stream, outp = [], write_fails = (\<lambda>_. False), writes = 0\<rparr>"

definition sample_put :: put_request where
  "sample_put = \<lparr>pr_path = ''a'', pr_size = 2, pr_mode = None, pr_recursive = False\<rparr>"

definition sample_upload :: bytes where
  "sample_upload = [73, 82, 70, 84, 2, 3, 0, 0, 0, 2, 7, 8, 73, 82, 70, 84, 2, 4, 0, 0, 0, 2, 1, 2]"

lemma sample_target: "resolve_path sample_env Stateless (pr_path sample_put) = Inr ([RootDir, Normal ''s''] @ [Normal ''a''])"
  by code_simp

lemma sample_upload_stream: "upload_stream sample_json sample_upload [[7, 8]] \<lparr>tc_size = 2\<rparr> []"
proof -
  have chunk: "encode_frame sample_json (PutChunk [7, 8]) = Inr [73, 82, 70, 84, 2, 3, 0, 0, 0, 2, 7, 8]"
    and fin: "encode_frame sample_json (PutComplete \<lparr>tc_size = 2\<rparr>) = Inr [73, 82, 70, 84, 2, 4, 0, 0, 0, 2, 1, 2]"
    by code_simp+
  have "json_ok sample_json (PutComplete \<lparr>tc_size = 2\<rparr>)" by (simp add: sample_json_def sample_serde_def roundtrips_def)
  then show ?thesis
    using read_next_frame_encode [OF chunk, of "[73, 82, 70, 84, 2, 4, 0, 0, 0, 2, 1, 2]"] read_next_frame_encode [OF fin, of "[]"]
    by (auto simp: upload_stream_cases sample_upload_def)
qed


text \<open>
  C14. A single upload leaves no debris.  Besides the target and missing directories above it, only the
  part file next to the target can change, and unless the reply channel broke (or the removal itself
  fails) that file is gone or untouched at the end, also when the upload failed.
\<close>

theorem single_put_cleans_up:
  assumes "handle_single_put J env ctx request s = (r, s')"
    and "resolve_path env ctx (pr_path request) = Inr (dir @ [Normal n])" and "proper_name n"
    and "\<forall>p. \<not> faults (fsys s) (CallRemove p)" and "\<forall>e. r \<noteq> Inl (Transport e)"
  shows "\<exists>u. (\<forall>q. q \<noteq> dir @ [Normal (part_name n (process_id env) u)] \<and> q \<noteq> dir @ [Normal n] \<and> q \<notin> set (ancestors dir) \<longrightarrow>
           lookup (fsys s') q = lookup (fsys s) q)
      \<and> lookup (fsys s') (dir @ [Normal (part_name n (process_id env) u)])
          \<in> {None, lookup (fsys s) (dir @ [Normal (part_name n (process_id env) u)])}"
  using assms(1-3)
proof (cases rule: handle_single_put_cases)
  case 1
  then show ?thesis using not_own_ancestor by (intro exI [of _ 0]) auto
next
  case (2 u s1)
  then show ?thesis using receive_put_result(2,3) [OF 2(5)] part_name_neq not_own_ancestor assms(4,5)
    by (intro exI [of _ u]) auto
qed

theorem single_put_cleans_up_witness:
  "\<exists>s' u. handle_single_put sample_json sample_env Stateless sample_put (sample_srv []) = (Inr (), s')
     \<and> lookup (fsys s') [RootDir, Normal ''s'', Normal ''f''] = Some (File ''old'' 0x1A4)
     \<and> lookup (fsys s') [RootDir, Normal ''s'', Normal (part_name ''a'' 4 u)] = None"
proof -
  obtain r s' where run: "handle_single_put sample_json sample_env Stateless sample_put (sample_srv []) = (r, s')"
    by (rule prod.exhaust)
  have "fst (handle_single_put sample_json sample_env Stateless sample_put (sample_srv [])) = Inr ()" by code_simp
  then have ok: "r = Inr ()" using run by simp
  have a: "proper_name ''a''" by (simp add: proper_name_def)
  have nofault: "\<forall>p. \<not> faults (fsys (sample_srv [])) (CallRemove p)" by (simp add: sample_srv_def sample_disk_def)
  have before: "lookup (fsys (sample_srv [])) [RootDir, Normal ''s'', Normal ''f''] = Some (File ''old'' 0x1A4)"
    "lookup (fsys (sample_srv [])) [RootDir, Normal ''s'', Normal (part_name ''a'' 4 u)] = None" for u
    by (simp_all add: sample_srv_def sample_disk_def lookup_def part_name_def)
  have "[RootDir, Normal ''s'', Normal ''f''] \<noteq> [RootDir, Normal ''s'', Normal (part_name ''a'' 4 u)]
      \<and> [RootDir, Normal ''s'', Normal ''f''] \<notin> set (ancestors [RootDir, Normal ''s''])" for u
    by (simp add: part_name_def ancestors_def upt_rec)
  with single_put_cleans_up [OF run sample_target a nofault] ok run before show ?thesis
    by (auto simp: sample_env_def)
qed

text \<open>When nothing fails, the target is free and the client sends what it declared, the upload is stored and confirmed.\<close>

lemma single_put_healthy:
  assumes "healthy (fsys s)" and "write_fails s = (\<lambda>_. False)" and "dir_free (fsys s) dir"
    and "resolve_path env ctx (pr_path request) = Inr (dir @ [Normal n])" and "proper_name n"
    and "lookup (fsys s) (dir @ [Normal n]) = None"
    and "\<forall>u. \<not> is_dir_node (lookup (fsys s) (dir @ [Normal (part_name n (process_id env) u)]))"
    and "upload_stream J (inp s) chunks fin rest" and "length (concat chunks) = unat (pr_size request)"
    and "tc_size fin = pr_size request"
    and "write_put_ready J \<lparr>tr_size = pr_size request, tr_mode = pr_mode request\<rparr> = Inr ready"
    and "write_put_complete J \<lparr>tc_size = pr_size request\<rparr> = Inr reply"
  shows "\<exists>s' m. handle_single_put J env ctx request s = (Inr (), s')
      \<and> lookup (fsys s') (dir @ [Normal n]) = Some (File (str_of_bytes (concat chunks)) m)
      \<and> outp s' = outp s @ ready @ reply \<and> inp s' = rest"
proof -
  let ?p = "dir @ [Normal n]"
  obtain s1 u where pr: "prepare_put_destination env ctx (pr_path request) s =
      (Inr (Some \<lparr>final_arg = ?p, part_arg = dir @ [Normal (part_name n (process_id env) u)]\<rparr>), s1)"
    and s1: "healthy (fsys s1)" "is_dir_node (lookup (fsys s1) dir)" "lookup (fsys s1) ?p = None"
      "\<not> is_dir_node (lookup (fsys s1) (dir @ [Normal (part_name n (process_id env) u)]))"
      "write_fails s1 = (\<lambda>_. False)" "inp s1 = inp s" "outp s1 = outp s"
    using prepare_healthy [OF assms(1,3-7)] assms(2) by metis
  have "\<exists>s' m. receive_put J env request \<lparr>final_arg = ?p, part_arg = dir @ [Normal (part_name n (process_id env) u)]\<rparr> s1
      = (Inr (), s') \<and> lookup (fsys s') ?p = Some (File (str_of_bytes (concat chunks)) m)
      \<and> outp s' = outp s @ ready @ reply \<and> inp s' = rest"
    using receive_healthy [of s1 "\<lparr>final_arg = ?p, part_arg = dir @ [Normal (part_name n (process_id env) u)]\<rparr>" J chunks fin rest request ready reply] s1 assms(8-12) part_name_neq by simp
  then show ?thesis using pr by (simp add: handle_single_put_def bindS_def)
qed

end
