(* ===== verification/Upload_Tree.thy ===== *)
theory Upload_Tree
  imports Upload_Safety
begin

text \<open>
  What a recursive upload guarantees: it stays below its destination and it never touches a file
  that was there before.  The fuel of the loop over the entries is always enough.
\<close>

section \<open>The entry loop\<close>

lemma entry_loop_only:
  "entry_loop J declared part buf received s = (r, s') \<Longrightarrow>
     (\<forall>q. q \<noteq> part \<longrightarrow> lookup (fsys s') q = lookup (fsys s) q) \<and> faults (fsys s') = faults (fsys s)
     \<and> length (inp s') \<le> length (inp s)"
proof (induction J declared part buf received s rule: entry_loop.induct)
  case (1 J declared part buf received s)
  note run = 1(2) and unfold = entry_loop.simps [of J declared part buf received s]
  show ?case
  proof (cases "read_next_frame_into J buf (inp s)")
    case (Inl e)
    then show ?thesis using run by (simp add: unfold)
  next
    case (Inr fr)
    obtain frame rest where fr: "fr = (frame, rest)" by (rule prod.exhaust)
    have less: "length rest < length (inp s)" using read_next_frame_into_progress Inr fr by simp
    show ?thesis
    proof (cases "entry_event_of frame")
      case (EntryChunk chunk)
      let ?n = "received + of_nat (length chunk)"
      let ?w = "on_disk (fs_append part (str_of_bytes chunk)) (s\<lparr>inp := rest\<rparr>)"
      have w: "(\<forall>q. q \<noteq> part \<longrightarrow> lookup (fsys (snd ?w)) q = lookup (fsys s) q) \<and> faults (fsys (snd ?w)) = faults (fsys s)"
        using onlyD [OF only_fs_calls(8) [of part "str_of_bytes chunk"] surjective_pairing] by simp
      show ?thesis
      proof (cases "\<not> ?n > declared \<and> \<not> isl (fst ?w)")
        case True
        then have "entry_loop J declared part chunk ?n (snd ?w) = (r, s')"
          using run Inr fr EntryChunk by (simp add: unfold Let_def)
        with 1(1) [OF Inr fr [symmetric] EntryChunk refl] True show ?thesis using w less by auto
      next
        case False
        then show ?thesis using run Inr fr EntryChunk less w by (auto simp: unfold Let_def split: if_splits)
      qed
    qed (use run Inr fr less in \<open>auto simp: unfold\<close>)
  qed
qed

text \<open>Going on with the result of an operation, whatever it is.\<close>

lemma onlyS_then:
  assumes "onlyS S m" and "\<And>r. onlyS S (f r)"
  shows "onlyS S (\<lambda>s. case m s of (r, s1) \<Rightarrow> f r s1)"
  unfolding onlyS_def
proof (intro allI impI)
  fix s r s'
  assume run: "(case m s of (r, s1) \<Rightarrow> f r s1) = (r, s')"
  obtain r1 s1 where m: "m s = (r1, s1)" by (rule prod.exhaust)
  then have f: "f r1 s1 = (r, s')" using run by simp
  show "(\<forall>q. q \<notin> S \<longrightarrow> lookup (fsys s') q = lookup (fsys s) q) \<and> faults (fsys s') = faults (fsys s)
      \<and> length (inp s') \<le> length (inp s)"
    using onlySD [OF assms(1) m] onlySD [OF assms(2) f] by (metis le_trans)
qed

lemma onlyS_part_and_target:
  "onlyS {p, t} (spawn_upload_helper env p)" "onlyS {p, t} (sink_wait env p)" "onlyS {p, t} (remove_file_if_present p)"
  "onlyS {p, t} (ctx_rename p t)" "onlyS {p, t} (case mo of Some m \<Rightarrow> ctx_chmod t m | None \<Rightarrow> retS ())"
  by (auto intro: onlyS_context onlyS_mono [OF onlyS_context(6)] onlyS_mono [OF onlyS_context(7)]
      onlyS_mono [OF onlyS_context(3)] onlyS_mono [OF onlyS_optional_chmod])

lemma onlyS_close_entry: "onlyS {part_arg dst, final_arg dst} (close_entry J env header dst received h)"
  unfolding close_entry_def
  by (auto split: prod.splits intro!: onlyS_bindS onlyS_ret onlyS_send onlyS_part_and_target)

lemma onlyS_receive_entry: "onlyS {part_arg dst, final_arg dst} (receive_entry J env header dst)"
proof -
  have "onlyS {part_arg dst, final_arg dst} (entry_loop J (eh_size header) (part_arg dst) [] 0)"
    unfolding onlyS_def using entry_loop_only by auto
  then show ?thesis unfolding receive_entry_def
    by (intro onlyS_bindS onlyS_part_and_target onlyS_then onlyS_close_entry)
qed

section \<open>Confinement\<close>

definition part_file :: "path \<Rightarrow> bool" where
  "part_file q \<longleftrightarrow>
     (case path_file_name q of Some f \<Rightarrow> take 1 f = ''.'' \<and> drop (length f - 11) f = ''.irosh_part'' | None \<Rightarrow> False)"

text \<open>The changes an upload to \<open>root\<close> may make at \<open>q\<close>.\<close>

definition change_ok :: "path \<Rightarrow> path \<Rightarrow> node option \<Rightarrow> node option \<Rightarrow> bool" where
  "change_ok root q before after \<longleftrightarrow>
     after = before
     \<or> below root q \<and> q \<noteq> root \<and> part_file q
     \<or> below root q \<and> (before = None \<or> is_dir_node before \<and> is_dir_node after)
     \<or> q \<in> set (ancestors root) \<and> before = None \<and> is_dir_node after"

lemma change_ok_refl [simp]: "change_ok root q n n"
  by (simp add: change_ok_def)

lemma change_ok_trans: "change_ok root q a b \<Longrightarrow> change_ok root q b c \<Longrightarrow> change_ok root q a c"
  unfolding change_ok_def by (cases "is_dir_node b") auto

definition confined :: "path \<Rightarrow> (srv \<Rightarrow> 'r \<times> srv) \<Rightarrow> bool" where
  "confined root m \<longleftrightarrow>
     (\<forall>s r s'. m s = (r, s') \<longrightarrow> is_dir_node (lookup (fsys s) root) \<longrightarrow>
        (\<forall>q. change_ok root q (lookup (fsys s) q) (lookup (fsys s') q)) \<and> length (inp s') \<le> length (inp s))"

lemma confinedD:
  "confined root m \<Longrightarrow> m s = (r, s') \<Longrightarrow> is_dir_node (lookup (fsys s) root) \<Longrightarrow>
     change_ok root q (lookup (fsys s) q) (lookup (fsys s') q)"
  "confined root m \<Longrightarrow> m s = (r, s') \<Longrightarrow> is_dir_node (lookup (fsys s) root) \<Longrightarrow> length (inp s') \<le> length (inp s)"
  by (auto simp: confined_def)

lemma change_ok_root: "change_ok root root a b \<Longrightarrow> is_dir_node a \<Longrightarrow> is_dir_node b"
  by (auto simp: change_ok_def)

lemma part_file_part_name: "part_file (dir @ [Normal (part_name n pid u)])"
  by (simp add: part_file_def path_file_name_def part_name_def)


lemma ancestors_append: "q \<in> set (ancestors (root @ xs)) \<Longrightarrow> q \<in> set (ancestors root) \<or> below root q"
proof -
  assume "q \<in> set (ancestors (root @ xs))"
  then obtain r where r: "q \<noteq> []" "root @ xs = q @ r" by (auto simp: ancestors_iff)
  then consider us where "root = q @ us" | us where "q = root @ us" by (auto simp: append_eq_append_conv2)
  then show ?thesis using r(1) by cases (auto simp: ancestors_iff below_def)
qed

lemma fold_make_dir_change:
  "lookup (fold make_dir ps d) q = lookup d q
     \<or> q \<in> set ps \<and> lookup d q = None \<and> is_dir_node (lookup (fold make_dir ps d) q)"
  using fold_make_dir_frame [of d q ps] fold_make_dir_dir [of q ps d] by blast

lemma fs_create_dir_all_change:
  assumes "fs_create_dir_all p d = (r, d')"
  shows "lookup d' q = lookup d q \<or> q \<in> set (ancestors p) \<and> lookup d q = None \<and> is_dir_node (lookup d' q)"
  using assms fold_make_dir_change [of "ancestors p" d q] fold_make_dir_change [of "take k (ancestors p)" d q for k]
    in_set_takeD [of q _ "ancestors p"]
  by (auto simp: fs_create_dir_all_def split: if_splits)

lemma create_dir_all_changes:
  assumes "ctx_create_dir_all p s = (r, s')"
  shows "lookup (fsys s') q = lookup (fsys s) q
      \<or> q \<in> set (ancestors p) \<and> lookup (fsys s) q = None \<and> is_dir_node (lookup (fsys s') q)"
    and "r = Inr b \<Longrightarrow> p \<noteq> [] \<Longrightarrow> is_dir_node (lookup (fsys s') p)" and "inp s' = inp s"
proof -
  obtain r0 d where d: "fs_create_dir_all p (fsys s) = (r0, d)" by (rule prod.exhaust)
  then have s': "s' = s\<lparr>fsys := d\<rparr>" and r: "r = Inr b \<Longrightarrow> r0 = Inr ()" for b
    using assms by (auto simp: ctx_create_dir_all_def bindS_def on_disk_def map_err_def split: sum.splits)
  show "inp s' = inp s" using s' by simp
  show "lookup (fsys s') q = lookup (fsys s) q
      \<or> q \<in> set (ancestors p) \<and> lookup (fsys s) q = None \<and> is_dir_node (lookup (fsys s') q)"
    using fs_create_dir_all_change [OF d] s' by simp
  show "is_dir_node (lookup (fsys s') p)" if "r = Inr b" "p \<noteq> []"
    using d s' r [OF that(1)] created_is_dir that(2) by (auto simp: fs_create_dir_all_def dir_free_def split: if_splits)
qed

lemma change_ok_create:
  assumes "ctx_create_dir_all p s = (r, s')" and "\<exists>xs. p = root @ xs \<or> root = p @ xs"
  shows "change_ok root q (lookup (fsys s) q) (lookup (fsys s') q)"
proof -
  have "q \<in> set (ancestors p) \<Longrightarrow> q \<in> set (ancestors root) \<or> below root q"
  proof -
    assume q: "q \<in> set (ancestors p)"
    from assms(2) obtain xs where "p = root @ xs \<or> root = p @ xs" by blast
    then show ?thesis
    proof
      assume "p = root @ xs"
      then show ?thesis using q ancestors_append by simp
    next
      assume "root = p @ xs"
      then show ?thesis using q by (auto simp: ancestors_iff)
    qed
  qed
  then show ?thesis using create_dir_all_changes(1) [OF assms(1), of q] by (auto simp: change_ok_def)
qed

lemma chmod_dir:
  assumes "(case mo of Some m \<Rightarrow> ctx_chmod p m | None \<Rightarrow> retS ()) s = (r, s')" and "is_dir_node (lookup (fsys s) p)"
  shows "is_dir_node (lookup (fsys s') p)"
proof -
  have "is_dir_node (lookup (fsys (snd (ctx_chmod p m s))) p)" for m
    using assms(2) by (auto simp: ctx_chmod_def ignoreS_def fs_set_permissions_def split: option.splits)
  then show ?thesis using assms by (cases mo) (auto, metis snd_conv)
qed

lemma relative_components:
  assumes "\<not> has_root raw" and "ParentDir \<notin> set (components raw)"
  obtains ns where "dropWhile ((=) CurDir) (components raw) = map Normal ns" "\<forall>n \<in> set ns. proper_name n"
proof -
  let ?cs = "List.map_filter component_of (split_on is_sep raw)"
  have cs: "components raw = ?cs \<or> components raw = CurDir # ?cs"
    using assms(1) by (auto simp: components_def has_root_def Let_def)
  have normal: "\<forall>c \<in> set ?cs. \<exists>f. c = Normal f"
  proof
    fix c
    assume c: "c \<in> set ?cs"
    then obtain f where "component_of f = Some c" by (auto simp: set_map_filter)
    moreover have "c \<noteq> ParentDir" using c cs assms(2) by auto
    ultimately show "\<exists>f. c = Normal f" using component_of_SomeD by blast
  qed
  then obtain ns where ns: "?cs = map Normal ns" by (metis ex_map_conv)
  have "dropWhile ((=) CurDir) (map Normal ns) = map Normal ns" by (cases ns) simp_all
  moreover have "\<forall>n \<in> set ns. proper_name n"
    using components_Normal_proper [of _ raw] cs ns by auto
  ultimately show thesis using that cs ns by auto
qed

lemma components_absolute:
  assumes "ns \<noteq> []" and "\<forall>n \<in> set ns. proper_name n"
  shows "components (path_display (RootDir # map Normal ns)) = RootDir # map Normal ns"
    and "has_root (path_display (RootDir # map Normal ns))"
proof -
  define str where "str = join_with ''/'' ([] # ns)"
  have "map component_str (map Normal ns) = ns" by (induction ns) simp_all
  then have disp: "path_display (RootDir # map Normal ns) = str"
    using assms(1) unfolding path_display_def str_def by simp
  have sp: "split_on is_sep str = [] # ns"
    unfolding str_def
  proof (rule split_join)
    have "CHR ''/'' \<notin> set f" if "f \<in> set ([] # ns)" for f
      using that assms(2) by (cases "f = []") (simp_all add: proper_name_def)
    then show "\<And>f c. f \<in> set ([] # ns) \<Longrightarrow> c \<in> set f \<Longrightarrow> \<not> is_sep c" by blast
  qed simp_all
  have str: "str \<noteq> []" "hd str = CHR ''/''" using assms(1) by (cases ns; simp add: str_def)+
  have "List.map_filter component_of ([] # ns) = map Normal ns"
    using map_filter_proper [of ns] assms(2) by (simp add: map_filter_Cons component_of_def)
  then show "components (path_display (RootDir # map Normal ns)) = RootDir # map Normal ns"
    unfolding components_def disp sp Let_def using str by simp
  show "has_root (path_display (RootDir # map Normal ns))" using disp str by (simp add: has_root_def)
qed


lemma strip_front_keeps:
  "c \<in> set s \<Longrightarrow> (\<And>w. w \<in> set ws \<Longrightarrow> c \<notin> set w) \<Longrightarrow> c \<in> set (strip_front ws s)"
proof (induction ws s rule: strip_front.induct)
  case (1 ws s)
  show ?case
  proof (cases "find (\<lambda>w. w \<noteq> [] \<and> take (length w) s = w) ws")
    case None
    then show ?thesis using 1(2) by (simp add: strip_front.simps [of ws s])
  next
    case (Some w)
    then have w: "w \<in> set ws" "take (length w) s = w" by (auto simp: find_Some_iff)
    then have "set s = set w \<union> set (drop (length w) s)" by (metis append_take_drop_id set_append)
    then have "c \<in> set (strip_front ws (drop (length w) s))" using 1 Some w(1) by auto
    then show ?thesis using Some by (simp add: strip_front.simps [of ws s])
  qed
qed

lemma has_root_not_blank: "has_root s \<Longrightarrow> trim s \<noteq> []"
proof -
  assume "has_root s"
  then have "CHR ''/'' \<in> set s" by (cases s) (auto simp: has_root_def)
  moreover have "\<And>w. w \<in> set white_space \<Longrightarrow> CHR ''/'' \<notin> set w" by (auto simp: white_space_def)
  ultimately have "CHR ''/'' \<in> set (trim s)"
    by (auto simp: trim_def trim_end_def trim_start_def intro!: strip_front_keeps)
  then show ?thesis by auto
qed

lemma snoc_component: "xs \<noteq> [] \<Longrightarrow> RootDir # map Normal xs = (RootDir # map Normal (butlast xs)) @ [Normal (last xs)]"
  by (cases xs rule: rev_cases) simp_all

lemma resolve_absolute:
  assumes "ns \<noteq> []" and "\<forall>n \<in> set ns. proper_name n"
  shows "resolve_path env ctx (path_display (RootDir # map Normal ns)) = Inr (RootDir # map Normal ns)"
proof -
  let ?raw = "path_display (RootDir # map Normal ns)"
  have root: "has_root ?raw" by (rule components_absolute(2) [OF assms])
  then have "trim ?raw \<noteq> []" by (rule has_root_not_blank)
  then show ?thesis using root components_absolute(1) [OF assms] by (simp add: resolve_path_def)
qed

text \<open>The path of an entry is the destination followed by names.\<close>

lemma entry_full_path:
  assumes "sanitize_relative_path raw = Inr entry_path"
  obtains ns where "path_join (RootDir # map Normal rs) (components entry_path) = RootDir # map Normal (rs @ ns)"
    "\<forall>n \<in> set ns. proper_name n"
proof -
  note ok = sanitize_relative_path_ok [OF assms]
  obtain ns where ns: "dropWhile ((=) CurDir) (components raw) = map Normal ns" "\<forall>n \<in> set ns. proper_name n"
    using relative_components [OF ok(3,4)] by metis
  have "path_join (RootDir # map Normal rs) (components raw) = RootDir # map Normal (rs @ ns)"
    using ok(3) ns(1) by (subst path_join_relative) (auto simp: has_root_components)
  then show thesis using that ns(2) ok(1) by blast
qed

lemma confined_receive_entry:
  assumes "receive_entry J env header dst s = (r, s')" and "lookup (fsys s) (final_arg dst) = None"
    and "below root (final_arg dst)" and "below root (part_arg dst)" and "part_arg dst \<noteq> root" and "part_file (part_arg dst)"
  shows "change_ok root q (lookup (fsys s) q) (lookup (fsys s') q)"
proof -
  have "q \<notin> {part_arg dst, final_arg dst} \<Longrightarrow> lookup (fsys s') q = lookup (fsys s) q"
    by (rule onlySD(1) [OF onlyS_receive_entry assms(1)])
  then show ?thesis using assms(2-6)
    by (cases "q = part_arg dst"; cases "q = final_arg dst") (simp_all add: change_ok_def)
qed

lemma confined_file_entry:
  assumes "prepare_put_destination env ctx (path_display full) s = (pr, s1)"
    and "full = RootDir # map Normal (rs @ ns)" and "rs \<noteq> []" and "\<forall>n \<in> set (rs @ ns). proper_name n"
    and root: "root = RootDir # map Normal rs" and "is_dir_node (lookup (fsys s) root)"
    and rest: "case pr of Inl e \<Rightarrow> s' = s1 | Inr None \<Rightarrow> fsys s' = fsys s1 \<and> inp s' = inp s1
      | Inr (Some dst) \<Rightarrow> receive_entry J env header dst s1 = (r, s')"
  shows "change_ok root q (lookup (fsys s) q) (lookup (fsys s') q) \<and> length (inp s') \<le> length (inp s)"
proof -
  define dir where "dir = RootDir # map Normal (butlast (rs @ ns))"
  define n where "n = last (rs @ ns)"
  have full: "full = dir @ [Normal n]" unfolding dir_def n_def assms(2) by (rule snoc_component) (use assms(3) in simp)
  have n: "proper_name n" using assms(3,4) last_in_set [of "rs @ ns"] by (simp add: n_def)
  have res: "resolve_path env ctx (path_display full) = Inr (dir @ [Normal n])"
    unfolding full [symmetric] unfolding assms(2) by (rule resolve_absolute) (use assms(3,4) in simp_all)
  have dir: "\<exists>xs. dir = root @ xs \<or> root = dir @ xs"
  proof (cases "ns = []")
    case True
    then have "root = dir @ [Normal n]" using full assms(2) root by simp
    then show ?thesis by blast
  next
    case False
    then have "dir = root @ map Normal (butlast ns)" using root by (simp add: dir_def butlast_append)
    then show ?thesis by blast
  qed
  from assms(1) res n show ?thesis
  proof (cases rule: prepare_put_cases)
    case (1 e)
    then have "s' = s1" using rest by simp
    from 1(2) show ?thesis
    proof
      assume "ctx_create_dir_all dir s = (Inl e, s1)"
      from change_ok_create [OF this dir] create_dir_all_changes(3) [OF this] show ?thesis using \<open>s' = s1\<close> by simp
    qed (use \<open>s' = s1\<close> in simp)
  next
    case 2
    then show ?thesis using rest by simp
  next
    case (3 u s2)
    then have "full \<noteq> root" using assms(6) full node_present(1) by auto
    then have "ns \<noteq> []" using assms(2) root by auto
    then have dr: "dir = root @ map Normal (butlast ns)" using root by (simp add: dir_def butlast_append)
    let ?dst = "\<lparr>final_arg = dir @ [Normal n], part_arg = dir @ [Normal (part_name n (process_id env) u)]\<rparr>"
    have c: "change_ok root q (lookup (fsys s) q) (lookup (fsys s1) q)"
      and l: "length (inp s1) \<le> length (inp s)"
      using change_ok_create [OF 3(3) dir] create_dir_all_changes(3) [OF 3(3)] 3(4) by simp_all
    have run: "receive_entry J env header ?dst s1 = (r, s')" using rest 3(1) by simp
    have "lookup (fsys s1) (dir @ [Normal n]) = None"
      using 3(2) create_dir_all_changes(1) [OF 3(3), of "dir @ [Normal n]"] not_own_ancestor [of dir "Normal n"] 3(4) by simp
    then have "change_ok root q (lookup (fsys s1) q) (lookup (fsys s') q)"
      using part_file_part_name [of dir] by (intro confined_receive_entry [OF run]) (simp_all add: dr below_def)
    then show ?thesis using c l change_ok_trans onlySD(3) [OF onlyS_receive_entry run] le_trans by blast
  qed
qed

lemma confined_dir_entry:
  assumes "bindS (ctx_create_dir_all full) (\<lambda>_.
      bindS (case mo of Some m \<Rightarrow> ctx_chmod full m | None \<Rightarrow> retS ()) (\<lambda>_. retS (Some 0))) s = (r, s')"
    and "full = root @ xs" and "full \<noteq> []"
  shows "change_ok root q (lookup (fsys s) q) (lookup (fsys s') q) \<and> length (inp s') \<le> length (inp s)"
proof -
  obtain r1 s1 where c: "ctx_create_dir_all full s = (r1, s1)" by (rule prod.exhaust)
  have ok: "change_ok root q (lookup (fsys s) q) (lookup (fsys s1) q)" "inp s1 = inp s"
    using change_ok_create [OF c] create_dir_all_changes(3) [OF c] assms(2) by blast+
  show ?thesis
  proof (cases r1)
    case (Inl e)
    then show ?thesis using assms(1) c ok by (simp add: bindS_def)
  next
    case (Inr b)
    obtain r2 s2 where h: "(case mo of Some m \<Rightarrow> ctx_chmod full m | None \<Rightarrow> retS ()) s1 = (r2, s2)" by (rule prod.exhaust)
    have "s' = s2" using assms(1) c h Inr by (auto simp: bindS_def split: sum.splits)
    moreover have "is_dir_node (lookup (fsys s1) full)" using create_dir_all_changes(2) [OF c] Inr assms(3) by blast
    moreover have "is_dir_node (lookup (fsys s2) full)" using chmod_dir [OF h] calculation(2) by blast
    moreover have "q \<noteq> full \<Longrightarrow> lookup (fsys s2) q = lookup (fsys s1) q" "length (inp s2) \<le> length (inp s1)"
      using onlySD(1,3) [OF onlyS_optional_chmod h] by blast+
    ultimately have "change_ok root q (lookup (fsys s1) q) (lookup (fsys s') q)" "length (inp s') \<le> length (inp s)"
      using assms(2) ok(2) by (cases "q = full"; simp add: change_ok_def below_def)+
    then show ?thesis using ok(1) change_ok_trans by blast
  qed
qed

lemma confined_handle_entry:
  assumes "rs \<noteq> []" and "\<forall>n \<in> set rs. proper_name n"
  shows "confined (RootDir # map Normal rs) (handle_entry J env ctx (RootDir # map Normal rs) header)"
  unfolding confined_def
proof (intro allI impI)
  let ?root = "RootDir # map Normal rs"
  fix s r s'
  assume run: "handle_entry J env ctx ?root header s = (r, s')" and dir: "is_dir_node (lookup (fsys s) ?root)"
  show "(\<forall>q. change_ok ?root q (lookup (fsys s) q) (lookup (fsys s') q)) \<and> length (inp s') \<le> length (inp s)"
  proof (cases "sanitize_relative_path (eh_path header)")
    case (Inl e)
    then show ?thesis using run by (simp add: handle_entry_def)
  next
    case (Inr entry_path)
    obtain ns where ns: "path_join ?root (components entry_path) = RootDir # map Normal (rs @ ns)" "\<forall>n \<in> set ns. proper_name n"
      using entry_full_path [OF Inr] by metis
    define full where "full = RootDir # map Normal (rs @ ns)"
    have full: "full = ?root @ map Normal ns" "full \<noteq> []" by (simp_all add: full_def)
    show ?thesis
    proof (cases "eh_is_dir header")
      case True
      then have "bindS (ctx_create_dir_all full) (\<lambda>_. bindS (case eh_mode header of Some m \<Rightarrow> ctx_chmod full m | None \<Rightarrow> retS ())
          (\<lambda>_. retS (Some 0))) s = (r, s')"
        using run unfolding handle_entry_def Inr full_def by (simp only: sum.case Let_def ns(1) if_True)
      then show ?thesis using confined_dir_entry [OF _ full] by blast
    next
      case False
      obtain pr s1 where p: "prepare_put_destination env ctx (path_display full) s = (pr, s1)" by (rule prod.exhaust)
      have names: "\<forall>n \<in> set (rs @ ns). proper_name n" using assms(2) ns(2) by auto
      have "case pr of Inl e \<Rightarrow> s' = s1 | Inr None \<Rightarrow> fsys s' = fsys s1 \<and> inp s' = inp s1
          | Inr (Some dst) \<Rightarrow> receive_entry J env header dst s1 = (r, s')"
        using run Inr ns(1) False p send_keeps
        by (auto simp: handle_entry_def Let_def full_def bindS_def [of "prepare_put_destination _ _ _"] split: sum.splits option.splits)
      from confined_file_entry [OF p full_def assms(1) names refl dir this] show ?thesis by blast
    qed
  qed
qed

lemma confined_tree_loop:
  assumes "rs \<noteq> []" and "\<forall>n \<in> set rs. proper_name n"
  shows "confined (RootDir # map Normal rs) (tree_loop fuel J env ctx (RootDir # map Normal rs) n)"
proof (induction fuel arbitrary: n)
  case 0
  then show ?case by (simp add: confined_def)
next
  case (Suc fuel)
  let ?root = "RootDir # map Normal rs"
  show ?case
    unfolding confined_def
  proof (intro allI impI)
    fix s r s'
    assume run: "tree_loop (Suc fuel) J env ctx ?root n s = (r, s')" and dir: "is_dir_node (lookup (fsys s) ?root)"
    let ?goal = "\<lambda>s1. (\<forall>q. change_ok ?root q (lookup (fsys s) q) (lookup (fsys s1) q)) \<and> length (inp s1) \<le> length (inp s)"
    show "?goal s'"
    proof (cases "read_next_frame_into J [] (inp s)")
      case (Inl e)
      then show ?thesis using run by simp
    next
      case (Inr fr)
      obtain frame rest where fr: "fr = (frame, rest)" by (rule prod.exhaust)
      have less: "length rest < length (inp s)" using read_next_frame_into_progress Inr fr by simp
      show ?thesis
      proof (cases "tree_event_of frame")
        case (Entry header)
        obtain re s1 where e: "handle_entry J env ctx ?root header (s\<lparr>inp := rest\<rparr>) = (re, s1)" by (rule prod.exhaust)
        have e1: "?goal s1" using confinedD [OF confined_handle_entry [OF assms] e] dir less by auto
        then have d1: "is_dir_node (lookup (fsys s1) ?root)" using change_ok_root dir by blast
        have "s' = s1 \<or> (\<exists>k. tree_loop fuel J env ctx ?root (n + k) s1 = (r, s'))"
          using run Inr fr Entry e by (auto simp: bindS_def split: sum.splits option.splits)
        then show ?thesis using e1 confinedD [OF Suc.IH _ d1] change_ok_trans le_trans by blast
      next
        case TreeDone
        then have "send (write_put_complete J \<lparr>tc_size = n\<rparr>) (s\<lparr>inp := rest\<rparr>) = (r, s')" using run Inr fr by simp
        from send_result [OF this] show ?thesis using less by simp
      qed (use run Inr fr less in auto)
    qed
  qed
qed

text \<open>The fuel: each frame takes at least one byte.\<close>

lemma read_next_frame_into_empty: "read_next_frame_into J buf [] = Inl (Io UnexpectedEof)"
  by (simp add: read_next_frame_into_def read_frame_into_eq read_frame_def and_then_def read_exact_def map_err_def)

lemma onlyS_prepare: "onlyS UNIV (prepare_put_destination env ctx raw)"
proof -
  have "onlyS UNIV (\<lambda>s. let (unique, d) = draw_u64 (fsys s); n = f in (g unique n, s\<lparr>fsys := d\<rparr>))" for f g
    by (auto simp: onlyS_def draw_u64_def)
  then show ?thesis unfolding prepare_put_destination_def Let_def
    by (auto split: sum.splits option.splits intro!: onlyS_bindS onlyS_ret onlyS_mono [OF onlyS_context(2)]
        onlyS_mono [OF onlyS_context(1)])
qed

lemma handle_entry_consumes:
  assumes "handle_entry J env ctx root header s = (r, s')"
  shows "length (inp s') \<le> length (inp s)"
proof -
  have "onlyS UNIV (handle_entry J env ctx root header)"
    unfolding handle_entry_def Let_def
    by (auto split: sum.splits option.splits intro!: onlyS_bindS onlyS_ret onlyS_send onlyS_mono [OF onlyS_context(2)]
      onlyS_mono [OF onlyS_context(5)] onlyS_mono [OF onlyS_receive_entry] onlyS_prepare)
  then show ?thesis using assms by (rule onlySD(3))
qed

lemma tree_loop_fuel:
  "length (inp s) \<le> fuel \<Longrightarrow> tree_loop fuel J env ctx root n s = tree_loop (length (inp s)) J env ctx root n s"
proof (induction "length (inp s)" arbitrary: s n fuel rule: less_induct)
  case less
  show ?case
  proof (cases "inp s")
    case Nil
    then show ?thesis by (cases fuel) (simp_all add: read_next_frame_into_empty)
  next
    case (Cons b bs)
    then obtain f k where f: "fuel = Suc f" "length (inp s) = Suc k" "k \<le> f" using less.prems by (cases fuel) auto
    have same: "tree_loop f J env ctx root m s1 = tree_loop k J env ctx root m s1" if "length (inp s1) \<le> k" for s1 m
      using less.hyps [of s1 f m] less.hyps [of s1 k m] that f by simp
    show ?thesis
    proof (cases "read_next_frame_into J [] (inp s)")
      case (Inr fr)
      obtain frame rest where fr: "fr = (frame, rest)" by (rule prod.exhaust)
      have "length rest \<le> k" using read_next_frame_into_progress Inr fr f(2) by fastforce
      then have same': "tree_loop f J env ctx root m s1 = tree_loop k J env ctx root m s1"
        if "handle_entry J env ctx root header (s\<lparr>inp := rest\<rparr>) = (x, s1)" for header x s1 m
        using handle_entry_consumes [OF that] by (intro same) simp
      then show ?thesis using Inr fr f
        by (cases "tree_event_of frame") (auto simp: bindS_def split: sum.splits option.splits prod.splits)
    qed (use f in simp)
  qed
qed

section \<open>Properties\<close>


definition sample_tree_put :: put_request where
  "sample_tree_put = \<lparr>pr_path = ''a'', pr_size = 0, pr_mode = None, pr_recursive = True\<rparr>"



end
