(* ===== verification/File_Stream.thy ===== *)
theory File_Stream
  imports Upload_Safety
begin

text \<open>
  Reading a file and sending it in chunks, as both ends do it: the server's downloads
  (\<^verbatim>\<open>src/server/transfer/files/download.rs\<close>) and the client's uploads
  (\<^verbatim>\<open>src/client/transfer/files/upload.rs\<close>).
\<close>

section \<open>Reading and sending\<close>

text \<open>Sending an encoded frame, with the error of the transport as it is.\<close>

definition put_frame :: "transfer_error + bytes \<Rightarrow> (srv, transfer_error, unit) op" where
  "put_frame f s =
     (case f of
        Inl e \<Rightarrow> (Inl e, s)
      | Inr b \<Rightarrow>
          if write_fails s (writes s) then (Inl (Io IoOther), s\<lparr>writes := Suc (writes s)\<rparr>)
          else (Inr (), s\<lparr>outp := outp s @ b, writes := Suc (writes s)\<rparr>))"

text \<open>A call on the disk, with its I/O error as it is.\<close>

definition at_disk :: "(disk, io_error, 'a) op \<Rightarrow> (srv, io_error, 'a) op" where
  "at_disk m s = (case m (fsys s) of (r, d) \<Rightarrow> (r, s\<lparr>fsys := d\<rparr>))"

text \<open>Taking a frame from the stream.\<close>

definition take_frame :: "serde_json \<Rightarrow> (srv, transfer_error, transfer_frame) op" where
  "take_frame J s =
     (case read_next_frame J (inp s) of Inl e \<Rightarrow> (Inl e, s) | Inr (f, rest) \<Rightarrow> (Inr f, s\<lparr>inp := rest\<rparr>))"

text \<open>\<^verbatim>\<open>File::open\<close>: a directory can be opened; reading it fails.\<close>

definition fs_open :: "disk \<Rightarrow> path \<Rightarrow> io_error + node" where
  "fs_open d p =
     (if faults d (CallRead p) then Inl IoOther
      else case lookup d p of None \<Rightarrow> Inl EntryNotFound | Some n \<Rightarrow> Inr n)"

text \<open>\<^verbatim>\<open>fs::copy\<close>: the data and the mode; a failing copy has written some of the data.\<close>

definition fs_copy :: "path \<Rightarrow> path \<Rightarrow> (disk, io_error, unit) op" where
  "fs_copy p q d =
     (case fs_read d p of
        Inl e \<Rightarrow> (Inl e, d)
      | Inr c \<Rightarrow>
          bindS (fs_create q) (\<lambda>_.
          bindS (fs_write q c) (\<lambda>_.
          fs_set_permissions q (node_mode (the (lookup d p))))) d)"

text \<open>
  \<^verbatim>\<open>read\<close> on an open file: at least one byte while there is one, at most the buffer; \<open>short\<close> says how
  much a call delivers.  \<open>rest\<close> is what the file has from the position \<open>pos\<close> on.
\<close>

definition read_some :: "(path \<Rightarrow> nat \<Rightarrow> nat) \<Rightarrow> disk \<Rightarrow> path \<Rightarrow> nat \<Rightarrow> string \<Rightarrow> io_error + string" where
  "read_some short d p pos rest =
     (if faults d (CallReadAt p pos) then Inl IoOther
      else Inr (take (max 1 (min MAX_CHUNK_BYTES (short p pos))) rest))"

datatype stream_error = ReadFailed io_error | SendFailed transfer_error

text \<open>The loop of reads and chunk frames until a read delivers nothing; it counts the bytes in 64 bits.\<close>

function stream_chunks ::
  "(path \<Rightarrow> nat \<Rightarrow> nat) \<Rightarrow> (bytes \<Rightarrow> transfer_error + bytes) \<Rightarrow> path \<Rightarrow> nat \<Rightarrow> string \<Rightarrow> u64 \<Rightarrow> (srv, stream_error, u64) op" where
  "stream_chunks short frame p pos rest sent s =
     (case read_some short (fsys s) p pos rest of
        Inl e \<Rightarrow> (Inl (ReadFailed e), s)
      | Inr chunk \<Rightarrow>
          if chunk = [] then (Inr sent, s)
          else case put_frame (frame (as_bytes chunk)) s of
              (Inl e, s1) \<Rightarrow> (Inl (SendFailed e), s1)
            | (Inr _, s1) \<Rightarrow>
                stream_chunks short frame p (pos + length chunk) (drop (length chunk) rest) (sent + of_nat (length chunk)) s1)"
  by pat_completeness auto
termination
  by (relation "measure (\<lambda>(short, frame, p, pos, rest, sent, s). length rest)")
    (auto simp: read_some_def split: if_splits)

declare stream_chunks.simps [simp del]

definition stream_node ::
  "(path \<Rightarrow> nat \<Rightarrow> nat) \<Rightarrow> (bytes \<Rightarrow> transfer_error + bytes) \<Rightarrow> path \<Rightarrow> node \<Rightarrow> u64 \<Rightarrow> (srv, stream_error, u64) op" where
  "stream_node short frame p n sent s =
     (case n of
        Dir m \<Rightarrow> (Inl (ReadFailed IsADirectory), s)
      | File c m \<Rightarrow> stream_chunks short frame p 0 c sent s)"

text \<open>\<^verbatim>\<open>Path::strip_prefix\<close>.\<close>

definition path_strip_prefix :: "path \<Rightarrow> path \<Rightarrow> path option" where
  "path_strip_prefix base p = (if take (length base) p = base then Some (drop (length base) p) else None)"

section \<open>Lemmas\<close>

lemma unat_of_char: "unat (of_char c :: u8) = (of_char c :: nat)"
proof -
  have less: "(of_char c :: nat) < 256" by (rule nat_of_char_less_256)
  have "(of_char c :: u8) = of_nat (of_char c)" by (simp only: of_nat_of_char)
  then show ?thesis using less by (simp add: unsigned_of_nat take_bit_nat_eq_self)
qed

lemma str_of_as_bytes [simp]: "str_of_bytes (as_bytes s) = s"
  by (induction s) (simp_all add: str_of_bytes_def unat_of_char)

lemma send_put_frame: "send f = errS Transport (put_frame f)"
  by (rule ext) (simp add: send_def put_frame_def errS_def map_err_def split: sum.split)

lemma put_frame_result:
  "put_frame f s = (Inr (), s') \<longleftrightarrow>
     (\<exists>b. f = Inr b \<and> \<not> write_fails s (writes s) \<and> s' = s\<lparr>outp := outp s @ b, writes := Suc (writes s)\<rparr>)"
  by (auto simp: put_frame_def split: sum.splits if_splits)

lemma put_frame_keeps: "put_frame f s = (r, s') \<Longrightarrow> fsys s' = fsys s \<and> inp s' = inp s \<and> write_fails s' = write_fails s"
  by (auto simp: put_frame_def split: sum.splits if_splits)

lemma take_drop_length: "take k xs @ drop (length (take k xs)) xs = xs"
  by (cases "k \<le> length xs") simp_all

lemma read_some_front: "read_some short d p pos rest = Inr chunk \<Longrightarrow> rest = chunk @ drop (length chunk) rest"
proof -
  assume "read_some short d p pos rest = Inr chunk"
  then have "chunk = take (max 1 (min MAX_CHUNK_BYTES (short p pos))) rest" by (simp add: read_some_def split: if_splits)
  then show ?thesis using take_drop_length by metis
qed

lemma read_some_Nil: "read_some short d p pos rest = Inr [] \<Longrightarrow> rest = []"
  by (auto simp: read_some_def split: if_splits)

text \<open>A finished loop has sent the whole file, in order, as chunk frames.\<close>

definition sent_as :: "(bytes \<Rightarrow> transfer_error + bytes) \<Rightarrow> bytes list \<Rightarrow> bytes \<Rightarrow> bool" where
  "sent_as frame chunks out \<longleftrightarrow> (\<exists>bs. list_all2 (\<lambda>c b. frame c = Inr b) chunks bs \<and> out = concat bs)"

lemma sent_as_Nil [simp]: "sent_as frame [] out \<longleftrightarrow> out = []"
  by (auto simp: sent_as_def)

lemma sent_as_Cons: "frame c = Inr b \<Longrightarrow> sent_as frame cs out \<Longrightarrow> sent_as frame (c # cs) (b @ out)"
proof -
  assume b: "frame c = Inr b" and "sent_as frame cs out"
  then obtain bs where "list_all2 (\<lambda>c b. frame c = Inr b) cs bs" "out = concat bs" by (auto simp: sent_as_def)
  with b show ?thesis unfolding sent_as_def by (intro exI [of _ "b # bs"]) simp
qed

lemma sent_as_ConsD:
  assumes "sent_as frame (x # xs) out"
  obtains b out' where "frame x = Inr b" "sent_as frame xs out'" "out = b @ out'"
proof -
  obtain zs where zs: "list_all2 (\<lambda>c b. frame c = Inr b) (x # xs) zs" "out = concat zs" using assms unfolding sent_as_def by blast
  then obtain b zs' where "frame x = Inr b" "list_all2 (\<lambda>c b. frame c = Inr b) xs zs'" "zs = b # zs'"
    by (auto simp: list_all2_Cons1)
  then show thesis using that [of b "concat zs'"] zs by (auto simp: sent_as_def)
qed

lemma stream_chunks_done:
  "stream_chunks short frame p pos rest sent s = (Inr n, s') \<Longrightarrow>
     \<exists>chunks out. sent_as frame chunks out \<and> concat chunks = as_bytes rest \<and> outp s' = outp s @ out
       \<and> n = sent + of_nat (length rest) \<and> fsys s' = fsys s \<and> inp s' = inp s"
proof (induction short frame p pos rest sent s rule: stream_chunks.induct)
  case (1 short frame p pos rest sent s)
  note unfold = stream_chunks.simps [of short frame p pos rest sent s]
  obtain chunk where rd: "read_some short (fsys s) p pos rest = Inr chunk"
    using 1(2) by (cases "read_some short (fsys s) p pos rest") (auto simp: unfold)
  show ?case
  proof (cases "chunk = []")
    case True
    then have "rest = []" using read_some_Nil rd by blast
    moreover have "n = sent" "s' = s" using 1(2) rd True by (simp_all add: unfold)
    ultimately show ?thesis by (intro exI [of _ "[]"]) simp
  next
    case False
    obtain x s1 where pf: "put_frame (frame (as_bytes chunk)) s = (Inr x, s1)"
      and rec: "stream_chunks short frame p (pos + length chunk) (drop (length chunk) rest) (sent + of_nat (length chunk)) s1 = (Inr n, s')"
      using 1(2) rd False by (auto simp: unfold split: prod.splits sum.splits)
    obtain b where b: "frame (as_bytes chunk) = Inr b" "s1 = s\<lparr>outp := outp s @ b, writes := Suc (writes s)\<rparr>"
      using pf by (auto simp: put_frame_result)
    obtain chunks out where ih: "sent_as frame chunks out" "concat chunks = as_bytes (drop (length chunk) rest)"
      "outp s' = outp s1 @ out" "n = sent + of_nat (length chunk) + of_nat (length (drop (length chunk) rest))"
      "fsys s' = fsys s1" "inp s' = inp s1"
      using 1(1) [OF rd False pf [symmetric] _ rec] by auto
    have rest: "rest = chunk @ drop (length chunk) rest" using read_some_front [OF rd] .
    then have "length rest = length chunk + length (drop (length chunk) rest)" by (metis length_append)
    moreover have "as_bytes rest = as_bytes chunk @ as_bytes (drop (length chunk) rest)" using rest by (metis map_append)
    ultimately show ?thesis
      using ih b sent_as_Cons [OF b(1) ih(1)]
      by (intro exI [of _ "as_bytes chunk # chunks"] exI [of _ "b @ out"]) (simp add: algebra_simps)
  qed
qed

text \<open>Without faults the loop ends well, whatever the lengths of the reads.\<close>

lemma stream_chunks_healthy:
  assumes "healthy (fsys s)" and "write_fails s = (\<lambda>_. False)" and "\<And>c. length c \<le> MAX_CHUNK_BYTES \<Longrightarrow> \<exists>b. frame c = Inr b"
  shows "\<exists>n s'. stream_chunks short frame p pos rest sent s = (Inr n, s') \<and> write_fails s' = (\<lambda>_. False)"
  using assms
proof (induction short frame p pos rest sent s rule: stream_chunks.induct)
  case (1 short frame p pos rest sent s)
  note unfold = stream_chunks.simps [of short frame p pos rest sent s]
  let ?chunk = "take (max 1 (min MAX_CHUNK_BYTES (short p pos))) rest"
  have rd: "read_some short (fsys s) p pos rest = Inr ?chunk" using 1(2) by (simp add: read_some_def healthy_def)
  have "length (as_bytes ?chunk) \<le> MAX_CHUNK_BYTES" by (simp add: MAX_CHUNK_BYTES_def)
  then obtain b where b: "frame (as_bytes ?chunk) = Inr b" using 1(4) by blast
  have pf: "put_frame (frame (as_bytes ?chunk)) s = (Inr (), s\<lparr>outp := outp s @ b, writes := Suc (writes s)\<rparr>)"
    using b 1(3) by (simp add: put_frame_result)
  show ?case
  proof (cases "?chunk = []")
    case True
    then show ?thesis unfolding unfold rd using 1(3) by simp
  next
    case False
    from 1(1) [OF rd False pf [symmetric]] 1(2-4) show ?thesis using rd False pf by (simp add: unfold)
  qed
qed

lemma write_put_chunk_ok: "length c \<le> MAX_CHUNK_BYTES \<Longrightarrow> \<exists>b. write_put_chunk c = Inr b"
  by (simp add: write_put_chunk_def write_frame_def validate_payload_limit_def max_payload_def wire_defs and_then_def)

lemma write_get_chunk_ok: "length c \<le> MAX_CHUNK_BYTES \<Longrightarrow> \<exists>b. write_get_chunk c = Inr b"
  by (simp add: write_get_chunk_def write_frame_def validate_payload_limit_def max_payload_def wire_defs and_then_def)

end
