(* ===== verification/Server_Download.thy ===== *)
theory Server_Download
  imports File_Stream
begin

text \<open>
  \<^verbatim>\<open>src/server/transfer/files/download.rs\<close> and the download half of \<^verbatim>\<open>helpers.rs\<close>: sending one file or a tree, for the
  context without a helper process.
\<close>

section \<open>One file\<close>

definition probe_download_size :: "server_env \<Rightarrow> path \<Rightarrow> (srv, server_error, transfer_failure + u64) op" where
  "probe_download_size env source_path s =
     (case fst (fs_metadata source_path (fsys s)) of
        Inl e \<Rightarrow>
          (let code = (if e = EntryNotFound then NotFound else if e = PermissionDenied then Rejected else Internal)
           in (Inr (Inl (failure_new code (''metadata failed: '' @ show_io env e))), s))
      | Inr (Dir m) \<Rightarrow> (Inr (Inl (failure_new IsDirectory (path_display source_path))), s)
      | Inr (File c m) \<Rightarrow> (Inr (Inr (of_nat (length c))), s))"

definition spawn_download_helper :: "server_env \<Rightarrow> path \<Rightarrow> (srv, server_error, node) op" where
  "spawn_download_helper env source_path s =
     (case fs_open (fsys s) source_path of
        Inl e \<Rightarrow>
          (Inl (TransferFailed
             (if e = EntryNotFound then failure_new NotFound (path_display source_path)
              else failure_new Internal (''failed to open download file: '' @ show_io env e))), s)
      | Inr n \<Rightarrow> (Inr n, s))"

definition download_error :: "server_env \<Rightarrow> stream_error \<Rightarrow> server_error" where
  "download_error env e =
     (case e of
        ReadFailed io \<Rightarrow> internal_failure (''reading download source failed: '' @ show_io env io)
      | SendFailed t \<Rightarrow> Transport t)"

definition handle_single_get ::
  "serde_json \<Rightarrow> server_env \<Rightarrow> shell_context \<Rightarrow> get_request \<Rightarrow> (srv, server_error, unit) op" where
  "handle_single_get J env ctx request =
     (case resolve_path env ctx (gr_path request) of
        Inl e \<Rightarrow> failS e
      | Inr source_path \<Rightarrow>
          bindS (probe_download_size env source_path) (\<lambda>probed.
          case probed of
            Inl failure \<Rightarrow> send (write_transfer_error J failure)
          | Inr expected_size \<Rightarrow>
              bindS (spawn_download_helper env source_path) (\<lambda>source.
              bindS (send (write_get_ready J \<lparr>tr_size = expected_size, tr_mode = None\<rparr>)) (\<lambda>_.
              bindS (errS (download_error env) (stream_node (read_len env) write_get_chunk source_path source 0)) (\<lambda>_.
              send (write_get_complete J \<lparr>tc_size = expected_size\<rparr>))))))"

section \<open>A tree\<close>

record walk_entry =
  we_relative :: path
  we_full_path :: path
  we_is_dir :: bool
  we_size :: u64
  we_mode :: "u32 option"

text \<open>What the walk collects: symbolic links are skipped, the first error ends it.\<close>

fun collect_walk :: "path \<Rightarrow> (walk_error + dir_entry) list \<Rightarrow> server_error + walk_entry list" where
  "collect_walk source_root [] = Inr []"
| "collect_walk source_root (Inl e # entries) = Inl (internal_failure (''failed to walk remote directory: '' @ walk_text e))"
| "collect_walk source_root (Inr entry # entries) =
     (case path_strip_prefix source_root (de_path entry) of
        None \<Rightarrow> Inl (internal_failure ''failed to resolve relative path during remote walk'')
      | Some relative \<Rightarrow>
          if relative = [] then collect_walk source_root entries
          else if de_type entry = TypeSymlink then collect_walk source_root entries
          else (case de_metadata entry of
                  Inl e \<Rightarrow> Inl (internal_failure (''failed to read remote metadata: '' @ walk_text e))
                | Inr (len, permissions) \<Rightarrow>
                    and_then (collect_walk source_root entries) (\<lambda>rest.
                      Inr (\<lparr>we_relative = relative, we_full_path = path_join source_root relative,
                            we_is_dir = (de_type entry = TypeDir),
                            we_size = (if de_type entry = TypeDir then 0 else len),
                            we_mode = Some (permissions AND 0x1FF)\<rparr> # rest))))"

definition stream_file_content :: "serde_json \<Rightarrow> server_env \<Rightarrow> path \<Rightarrow> u64 \<Rightarrow> (srv, server_error, u64) op" where
  "stream_file_content J env p total_sent =
     bindS (spawn_download_helper env p) (\<lambda>source.
     bindS (errS (download_error env) (stream_node (read_len env) write_get_chunk p source total_sent)) (\<lambda>total.
     bindS (send (write_entry_complete J EntryCompleteMsg)) (\<lambda>_. retS total)))"

fun send_entries :: "serde_json \<Rightarrow> server_env \<Rightarrow> walk_entry list \<Rightarrow> u64 \<Rightarrow> (srv, server_error, u64) op" where
  "send_entries J env [] total_sent = retS total_sent"
| "send_entries J env (we # walked) total_sent =
     bindS (send (write_new_entry J
       \<lparr>eh_path = normalize_path_separators (path_display (we_relative we)), eh_size = we_size we, eh_mode = we_mode we,
        eh_is_dir = we_is_dir we\<rparr>)) (\<lambda>_.
     bindS (if we_is_dir we then retS total_sent else stream_file_content J env (we_full_path we) total_sent) (\<lambda>total.
     send_entries J env walked total))"

definition handle_recursive_get_request ::
  "serde_json \<Rightarrow> server_env \<Rightarrow> shell_context \<Rightarrow> get_request \<Rightarrow> (srv, server_error, unit) op" where
  "handle_recursive_get_request J env ctx request =
     (case resolve_path env ctx (gr_path request) of
        Inl e \<Rightarrow> failS e
      | Inr source_root \<Rightarrow>
          bindS (send (write_get_ready J \<lparr>tr_size = 0, tr_mode = None\<rparr>)) (\<lambda>_ s.
          case collect_walk source_root (walk_dir env (fsys s) source_root) of
            Inl e \<Rightarrow> (Inl e, s)
          | Inr walked \<Rightarrow>
              bindS (send_entries J env walked 0) (\<lambda>total_sent.
              send (write_get_complete J \<lparr>tc_size = total_sent\<rparr>)) s))"

definition handle_get_request ::
  "serde_json \<Rightarrow> server_env \<Rightarrow> shell_context \<Rightarrow> get_request \<Rightarrow> (srv, server_error, unit) op" where
  "handle_get_request J env ctx request =
     (if gr_recursive request then handle_recursive_get_request J env ctx request
      else handle_single_get J env ctx request)"

end
