(* ===== verification/Server_Dispatch.thy ===== *)
theory Server_Dispatch
  imports Upload_Tree Server_Download "HOL-Library.List_Lexorder"
begin

text \<open>
  \<^verbatim>\<open>src/server/transfer/mod.rs\<close> (the first frame of a transfer stream decides its handler),
  \<^verbatim>\<open>control.rs\<close> (the small requests) and \<^verbatim>\<open>src/metrics.rs\<close> (the counters).
\<close>

section \<open>Metrics\<close>

record metrics =
  total_connections :: u64
  active_connections :: u64
  bytes_sent :: u64
  bytes_received :: u64
  transfers_initiated :: u64
  transfers_completed :: u64
  transfers_failed :: u64
  errors_total :: u64

definition metrics_new :: metrics where
  "metrics_new = \<lparr>total_connections = 0, active_connections = 0, bytes_sent = 0, bytes_received = 0,
     transfers_initiated = 0, transfers_completed = 0, transfers_failed = 0, errors_total = 0\<rparr>"

definition register_connection :: "metrics \<Rightarrow> metrics" where
  "register_connection m = m\<lparr>total_connections := total_connections m + 1, active_connections := active_connections m + 1\<rparr>"

definition drop_connection_guard :: "metrics \<Rightarrow> metrics" where
  "drop_connection_guard m = m\<lparr>active_connections := active_connections m - 1\<rparr>"

definition record_bytes_sent :: "u64 \<Rightarrow> metrics \<Rightarrow> metrics" where
  "record_bytes_sent n m = m\<lparr>bytes_sent := bytes_sent m + n\<rparr>"

definition record_bytes_received :: "u64 \<Rightarrow> metrics \<Rightarrow> metrics" where
  "record_bytes_received n m = m\<lparr>bytes_received := bytes_received m + n\<rparr>"

definition record_transfer_initiated :: "metrics \<Rightarrow> metrics" where
  "record_transfer_initiated m = m\<lparr>transfers_initiated := transfers_initiated m + 1\<rparr>"

definition record_transfer_completed :: "metrics \<Rightarrow> metrics" where
  "record_transfer_completed m = m\<lparr>transfers_completed := transfers_completed m + 1\<rparr>"

definition record_transfer_failed :: "metrics \<Rightarrow> metrics" where
  "record_transfer_failed m = m\<lparr>transfers_failed := transfers_failed m + 1\<rparr>"

definition record_error :: "metrics \<Rightarrow> metrics" where
  "record_error m = m\<lparr>errors_total := errors_total m + 1\<rparr>"

section \<open>Control requests\<close>

definition handle_exists_request ::
  "serde_json \<Rightarrow> server_env \<Rightarrow> shell_context \<Rightarrow> exists_request \<Rightarrow> (srv, server_error, unit) op" where
  "handle_exists_request J env ctx request =
     (case resolve_path env ctx (er_path request) of
        Inl e \<Rightarrow> failS e
      | Inr resolved \<Rightarrow>
          bindS (ctx_path_exists resolved) (\<lambda>exists.
          bindS (ctx_is_dir resolved) (\<lambda>is_dir.
          send (write_exists_response J \<lparr>es_exists = exists, es_is_dir = is_dir\<rparr>))))"

definition handle_cwd_request :: "serde_json \<Rightarrow> server_env \<Rightarrow> shell_context \<Rightarrow> (srv, server_error, unit) op" where
  "handle_cwd_request J env ctx =
     (case cwd env ctx of
        Inl e \<Rightarrow> failS e
      | Inr c \<Rightarrow> send (write_cwd_response J \<lparr>cr_path = path_display c\<rparr>))"

text \<open>
  Reading a directory: entries until one cannot be read, each with a slash when it is a directory.  Strings are
  sorted by their bytes.
\<close>

fun completion_matches :: "disk \<Rightarrow> path \<Rightarrow> string \<Rightarrow> string list \<Rightarrow> string list" where
  "completion_matches d dir prefix [] = []"
| "completion_matches d dir prefix (n # names) =
     (if faults d (CallDirEntry (dir @ [Normal n])) then []
      else if take (length prefix) n = prefix
      then (if \<not> faults d (CallStat (dir @ [Normal n])) \<and> is_dir_node (lookup d (dir @ [Normal n])) then n @ ''/'' else n)
             # completion_matches d dir prefix names
      else completion_matches d dir prefix names)"

definition byte_key :: "string \<Rightarrow> nat list" where
  "byte_key s = map of_char s"

definition completion_scope :: "path \<Rightarrow> string \<Rightarrow> path \<times> string" where
  "completion_scope resolved raw =
     (if raw \<noteq> [] \<and> last raw = CHR ''/'' \<or> raw = [] then (resolved, [])
      else ((case path_parent resolved of Some p \<Rightarrow> p | None \<Rightarrow> resolved),
            (case path_file_name resolved of Some n \<Rightarrow> n | None \<Rightarrow> [])))"

definition handle_completion_request ::
  "serde_json \<Rightarrow> server_env \<Rightarrow> shell_context \<Rightarrow> completion_request \<Rightarrow> (srv, server_error, unit) op" where
  "handle_completion_request J env ctx request =
     (case resolve_path env ctx (cq_path request) of
        Inl e \<Rightarrow> failS e
      | Inr resolved \<Rightarrow> (\<lambda>s.
          let (search_dir, prefix) = completion_scope resolved (cq_path request);
              found = (case fs_read_dir (fsys s) search_dir of
                         Inl _ \<Rightarrow> [] | Inr names \<Rightarrow> completion_matches (fsys s) search_dir prefix names)
          in send (write_completion_response J \<lparr>cp_matches = sort_key byte_key found\<rparr>) s))"

text \<open>The two helpers of the completion in a live shell.\<close>

fun glob_escape :: "string \<Rightarrow> string" where
  "glob_escape [] = []"
| "glob_escape (c # s) =
     (if c \<in> {CHR ''*'', CHR ''?'', CHR ''['', CHR '']'', CHR 0x5C} then ''['' @ [c] @ '']'' else [c]) @ glob_escape s"

fun find_records :: "string list \<Rightarrow> string list" where
  "find_records (name # kind # others) =
     (if name = [] then find_records others
      else (if kind = ''d'' then name @ ''/'' else name) # find_records others)"
| "find_records _ = []"

definition parse_find_type_entries :: "string \<Rightarrow> string list" where
  "parse_find_type_entries output = find_records (split_on (\<lambda>b. b = CHR 0x00) output)"

section \<open>The dispatcher\<close>

text \<open>
  The handlers of the content-addressed transfers are arguments.  \<open>best_message\<close> is the text of the innermost cause of
  an error that is not a transfer failure.
\<close>

definition extract_transfer_failure :: "(server_error \<Rightarrow> string) \<Rightarrow> server_error \<Rightarrow> transfer_failure" where
  "extract_transfer_failure best_message err =
     (case err of TransferFailed failure \<Rightarrow> failure | _ \<Rightarrow> failure_new Internal (best_message err))"

record transfer_handlers =
  best_message :: "server_error \<Rightarrow> string"
  on_blob_put :: "blob_put_request \<Rightarrow> (srv, server_error, unit) op"
  on_blob_get :: "blob_get_request \<Rightarrow> (srv, server_error, unit) op"

text \<open>Running a handler: a failure is counted by \<open>failed\<close> and reported to the client, success by \<open>ok\<close>.\<close>

definition run_handler ::
  "serde_json \<Rightarrow> transfer_handlers \<Rightarrow> (metrics \<Rightarrow> metrics) \<Rightarrow> (metrics \<Rightarrow> metrics) \<Rightarrow> (srv, server_error, unit) op
     \<Rightarrow> metrics \<Rightarrow> srv \<Rightarrow> (server_error + unit) \<times> metrics \<times> srv" where
  "run_handler J hs ok failed handler m s =
     (case handler s of
        (Inl err, s1) \<Rightarrow>
          (Inr (), failed m, snd (send (write_transfer_error J (extract_transfer_failure (best_message hs) err)) s1))
      | (Inr _, s1) \<Rightarrow> (Inr (), ok m, s1))"

definition handle_transfer_stream ::
  "serde_json \<Rightarrow> server_env \<Rightarrow> transfer_handlers \<Rightarrow> nat option \<Rightarrow> metrics \<Rightarrow> srv \<Rightarrow> (server_error + unit) \<times> metrics \<times> srv" where
  "handle_transfer_stream J env hs shell_pid m0 s =
     (let ctx = context_from_state shell_pid;
          m = record_transfer_initiated m0;
          transfer = run_handler J hs record_transfer_completed record_transfer_failed;
          control = run_handler J hs id record_error
      in case read_next_frame J (inp s) of
           Inl err \<Rightarrow> (Inr (), record_error m, s)
         | Inr (frame, rest) \<Rightarrow>
             let s1 = s\<lparr>inp := rest\<rparr> in
             (case frame of
                PutRequest request \<Rightarrow> transfer (handle_put_request J env ctx request) m s1
              | BlobPutRequest request \<Rightarrow> transfer (on_blob_put hs request) m s1
              | BlobGetRequest request \<Rightarrow> transfer (on_blob_get hs request) m s1
              | GetRequest request \<Rightarrow> transfer (handle_get_request J env ctx request) m s1
              | CwdRequest _ \<Rightarrow> control (handle_cwd_request J env ctx) m s1
              | ExistsRequest req \<Rightarrow> control (handle_exists_request J env ctx req) m s1
              | CompletionRequest req \<Rightarrow> control (handle_completion_request J env ctx req) m s1
              | other \<Rightarrow>
                  (case send (write_transfer_error J (failure_new UnexpectedFrame (show_frame env other))) s1 of
                     (r, s2) \<Rightarrow> (r, record_error m, s2))))"

end
