(* ===== verification/Client_Transfer.thy ===== *)
theory Client_Transfer
  imports File_Stream
begin

text \<open>
  The client's end of the transfers: \<^verbatim>\<open>src/client/transfer/control.rs\<close>, \<^verbatim>\<open>store.rs\<close>, \<^verbatim>\<open>files/upload.rs\<close> and
  \<^verbatim>\<open>files/download.rs\<close>, on Unix and without the content-addressed transfers.  The state is the client's
  disk and its side of the transfer stream; progress reports are left out.
\<close>

section \<open>Errors and streams\<close>

datatype client_error =
    StreamOpenFailed
  | UploadFailed string
  | DownloadFailed string
  | FileIo string path io_error
  | TransferTargetInvalid string
  | TransferRejected transfer_failure
  | ControlFailed transfer_failure
  | TransportUnavailable string
  | ClientTransport transfer_error

record client_env =
  has_connection :: bool
  open_bi :: bool
  cl_show_frame :: "transfer_frame \<Rightarrow> string"
  cl_read_len :: "path \<Rightarrow> nat \<Rightarrow> nat"
  cl_walk_dir :: "disk \<Rightarrow> path \<Rightarrow> (walk_error + dir_entry) list"
  dir_len :: "path \<Rightarrow> u64"

definition open_transfer_stream :: "client_env \<Rightarrow> string \<Rightarrow> (srv, client_error, unit) op" where
  "open_transfer_stream env unavailable_context =
     (if \<not> has_connection env then failS (TransportUnavailable unavailable_context)
      else if \<not> open_bi env then failS StreamOpenFailed
      else retS ())"

abbreviation transmit :: "transfer_error + bytes \<Rightarrow> (srv, client_error, unit) op" where
  "transmit f \<equiv> errS ClientTransport (put_frame f)"

abbreviation receive :: "serde_json \<Rightarrow> (srv, client_error, transfer_frame) op" where
  "receive J \<equiv> errS ClientTransport (take_frame J)"

section \<open>Control requests\<close>

text \<open>The answer is kept as text: the paths of a remote Windows host do not have our components.\<close>

definition remote_cwd :: "serde_json \<Rightarrow> client_env \<Rightarrow> (srv, client_error, string) op" where
  "remote_cwd J env =
     bindS (open_transfer_stream env ''remote cwd unavailable'') (\<lambda>_.
     bindS (transmit (write_cwd_request J CwdRequestMsg)) (\<lambda>_.
     bindS (receive J) (\<lambda>res.
     case res of
       CwdResponse r \<Rightarrow> retS (cr_path r)
     | FrameError failure \<Rightarrow> failS (TransferRejected failure)
     | other \<Rightarrow> failS (ControlFailed (failure_new UnexpectedFrame
         (''remote cwd failed with unexpected frame: '' @ cl_show_frame env other))))))"

definition remote_exists :: "serde_json \<Rightarrow> client_env \<Rightarrow> path \<Rightarrow> (srv, client_error, bool) op" where
  "remote_exists J env p =
     bindS (open_transfer_stream env ''remote exists unavailable'') (\<lambda>_.
     bindS (transmit (write_exists_request J \<lparr>er_path = normalize_path_separators (path_display p)\<rparr>)) (\<lambda>_.
     bindS (receive J) (\<lambda>res.
     case res of
       ExistsResponse r \<Rightarrow> retS (es_exists r)
     | FrameError failure \<Rightarrow> failS (TransferRejected failure)
     | other \<Rightarrow> failS (ControlFailed (failure_new UnexpectedFrame
         (''remote exists failed with unexpected frame: '' @ cl_show_frame env other))))))"

definition is_remote_dir :: "serde_json \<Rightarrow> client_env \<Rightarrow> path \<Rightarrow> (srv, client_error, bool) op" where
  "is_remote_dir J env p =
     bindS (open_transfer_stream env ''directory check unavailable'') (\<lambda>_.
     bindS (transmit (write_exists_request J \<lparr>er_path = normalize_path_separators (path_display p)\<rparr>)) (\<lambda>_.
     bindS (receive J) (\<lambda>res.
     case res of
       ExistsResponse r \<Rightarrow> retS (es_is_dir r)
     | FrameError failure \<Rightarrow> failS (TransferRejected failure)
     | other \<Rightarrow> failS (DownloadFailed (''unexpected frame during is_dir check: '' @ cl_show_frame env other)))))"

text \<open>A completion is refused first when the session has ended; \<open>ended\<close> says how.\<close>

definition remote_completion :: "serde_json \<Rightarrow> client_env \<Rightarrow> string option \<Rightarrow> string \<Rightarrow> (srv, client_error, string list) op" where
  "remote_completion J env ended path =
     bindS (case ended of Some details \<Rightarrow> failS (TransportUnavailable details) | None \<Rightarrow> retS ()) (\<lambda>_.
     bindS (open_transfer_stream env ''completion unavailable'') (\<lambda>_.
     bindS (transmit (write_completion_request J \<lparr>cq_path = path\<rparr>)) (\<lambda>_.
     bindS (receive J) (\<lambda>res.
     case res of
       CompletionResponse r \<Rightarrow> retS (cp_matches r)
     | FrameError failure \<Rightarrow> failS (TransferRejected failure)
     | other \<Rightarrow> failS (DownloadFailed (''unexpected completion frame: '' @ cl_show_frame env other))))))"

section \<open>Upload\<close>

definition node_len :: "client_env \<Rightarrow> path \<Rightarrow> node \<Rightarrow> u64" where
  "node_len env p n = (case n of File c m \<Rightarrow> of_nat (length c) | Dir m \<Rightarrow> dir_len env p)"

definition upload_error :: "string \<Rightarrow> path \<Rightarrow> stream_error \<Rightarrow> client_error" where
  "upload_error operation p e = (case e of ReadFailed io \<Rightarrow> FileIo operation p io | SendFailed t \<Rightarrow> ClientTransport t)"

text \<open>The answer to the completion frame.\<close>

definition await_put_complete :: "serde_json \<Rightarrow> client_env \<Rightarrow> u64 \<Rightarrow> (srv, client_error, unit) op" where
  "await_put_complete J env sent =
     bindS (receive J) (\<lambda>res.
     case res of
       PutComplete complete \<Rightarrow>
         if tc_size complete = sent then retS ()
         else failS (UploadFailed (''remote reported '' @ nat_str (unat (tc_size complete)) @ '' bytes saved, expected ''
                @ nat_str (unat sent)))
     | FrameError failure \<Rightarrow> failS (TransferRejected failure)
     | other \<Rightarrow> failS (UploadFailed (''unexpected completion frame: '' @ cl_show_frame env other)))"

definition send_file :: "serde_json \<Rightarrow> client_env \<Rightarrow> path \<Rightarrow> node \<Rightarrow> (srv, client_error, unit) op" where
  "send_file J env local node =
     bindS (errS (upload_error ''read local source file'' local)
       (stream_node (cl_read_len env) write_put_chunk local node 0)) (\<lambda>sent.
     bindS (transmit (write_put_complete J \<lparr>tc_size = sent\<rparr>)) (\<lambda>_.
     await_put_complete J env sent))"

text \<open>The answer to the request decides whether the file is sent.\<close>

definition check_put_ready :: "serde_json \<Rightarrow> client_env \<Rightarrow> path \<Rightarrow> node \<Rightarrow> transfer_frame \<Rightarrow> (srv, client_error, unit) op" where
  "check_put_ready J env local node res =
     (case res of
        PutReady ready \<Rightarrow>
          if tr_size ready \<noteq> node_len env local node
          then failS (UploadFailed (''remote acknowledged unexpected size '' @ nat_str (unat (tr_size ready)) @ '', expected ''
                 @ nat_str (unat (node_len env local node))))
          else send_file J env local node
      | FrameError failure \<Rightarrow> failS (TransferRejected failure)
      | other \<Rightarrow> failS (UploadFailed (''unexpected preflight frame: '' @ cl_show_frame env other)))"

definition upload_file_with_progress :: "serde_json \<Rightarrow> client_env \<Rightarrow> path \<Rightarrow> path \<Rightarrow> (srv, client_error, unit) op" where
  "upload_file_with_progress J env local remote =
     (if remote = [] then failS (TransferTargetInvalid ''remote path is empty'')
      else
        bindS (open_transfer_stream env ''upload unavailable'') (\<lambda>_.
        bindS (errS (FileIo ''open local source file'' local) (\<lambda>s. (fs_open (fsys s) local, s))) (\<lambda>node.
        bindS (errS (FileIo ''read local source metadata'' local) (at_disk (fs_metadata local))) (\<lambda>_.
        let size = node_len env local node in
        bindS (transmit (write_put_request J \<lparr>pr_path = normalize_path_separators (path_display remote), pr_size = size,
          pr_mode = Some (node_mode node AND 0x1FF), pr_recursive = False\<rparr>)) (\<lambda>_.
        bindS (receive J) (check_put_ready J env local node))))))"

record local_entry =
  le_relative :: path
  le_full_path :: path
  le_is_dir :: bool
  le_size :: u64
  le_mode :: "u32 option"

definition reject_recursive_symlink :: "dir_entry \<Rightarrow> client_error + unit" where
  "reject_recursive_symlink entry =
     (if de_type entry = TypeSymlink
      then Inl (UploadFailed (''recursive upload does not support symbolic links: '' @ path_display (de_path entry)))
      else Inr ())"

fun collect_local :: "path \<Rightarrow> (walk_error + dir_entry) list \<Rightarrow> client_error + local_entry list" where
  "collect_local local_root [] = Inr []"
| "collect_local local_root (Inl e # entries) = Inl (FileIo ''walk local directory'' local_root (walk_io e))"
| "collect_local local_root (Inr entry # entries) =
     and_then (reject_recursive_symlink entry) (\<lambda>_.
     case path_strip_prefix local_root (de_path entry) of
       None \<Rightarrow> Inl (TransferTargetInvalid ''failed to resolve relative path during directory walk'')
     | Some relative \<Rightarrow>
         if relative = [] then collect_local local_root entries
         else (case de_metadata entry of
                 Inl e \<Rightarrow> Inl (FileIo ''read entry metadata'' (de_path entry) (walk_io e))
               | Inr (len, permissions) \<Rightarrow>
                   and_then (collect_local local_root entries) (\<lambda>rest.
                     Inr (\<lparr>le_relative = relative, le_full_path = de_path entry, le_is_dir = (de_type entry = TypeDir),
                           le_size = (if de_type entry = TypeDir then 0 else len),
                           le_mode = Some (permissions AND 0x1FF)\<rparr> # rest))))"

definition upload_entry_file :: "serde_json \<Rightarrow> client_env \<Rightarrow> path \<Rightarrow> u64 \<Rightarrow> (srv, client_error, u64) op" where
  "upload_entry_file J env p total_sent =
     bindS (errS (FileIo ''open file for streaming'' p) (\<lambda>s. (fs_open (fsys s) p, s))) (\<lambda>node.
     bindS (errS (upload_error ''read file chunk'' p) (stream_node (cl_read_len env) write_put_chunk p node total_sent)) (\<lambda>total.
     bindS (transmit (write_entry_complete J EntryCompleteMsg)) (\<lambda>_. retS total)))"

fun upload_entries :: "serde_json \<Rightarrow> client_env \<Rightarrow> local_entry list \<Rightarrow> u64 \<Rightarrow> (srv, client_error, u64) op" where
  "upload_entries J env [] total_sent = retS total_sent"
| "upload_entries J env (le # walked) total_sent =
     bindS (transmit (write_new_entry J
       \<lparr>eh_path = normalize_path_separators (path_display (le_relative le)), eh_size = le_size le, eh_mode = le_mode le,
        eh_is_dir = le_is_dir le\<rparr>)) (\<lambda>_.
     bindS (if le_is_dir le then retS total_sent else upload_entry_file J env (le_full_path le) total_sent) (\<lambda>total.
     upload_entries J env walked total))"

definition upload_dir_with_progress :: "serde_json \<Rightarrow> client_env \<Rightarrow> path \<Rightarrow> path \<Rightarrow> (srv, client_error, unit) op" where
  "upload_dir_with_progress J env local_root remote_root =
     bindS (open_transfer_stream env ''recursive upload unavailable'') (\<lambda>_.
     bindS (transmit (write_put_request J \<lparr>pr_path = normalize_path_separators (path_display remote_root), pr_size = 0,
       pr_mode = None, pr_recursive = True\<rparr>)) (\<lambda>_.
     bindS (receive J) (\<lambda>res.
     case res of
       PutReady _ \<Rightarrow> (\<lambda>s.
         case collect_local local_root (cl_walk_dir env (fsys s) local_root) of
           Inl e \<Rightarrow> (Inl e, s)
         | Inr walked \<Rightarrow>
             bindS (upload_entries J env walked 0) (\<lambda>total_sent.
             bindS (transmit (write_put_complete J \<lparr>tc_size = total_sent\<rparr>)) (\<lambda>_.
             await_put_complete J env total_sent)) s)
     | FrameError failure \<Rightarrow> failS (TransferRejected failure)
     | other \<Rightarrow> failS (UploadFailed (''unexpected preflight frame: '' @ cl_show_frame env other)))))"

definition upload_with_progress :: "serde_json \<Rightarrow> client_env \<Rightarrow> path \<Rightarrow> path \<Rightarrow> bool \<Rightarrow> (srv, client_error, unit) op" where
  "upload_with_progress J env local remote recursive s =
     (if path_exists (fsys s) local \<and> is_dir_node (lookup (fsys s) local)
      then if \<not> recursive
           then (Inl (TransferTargetInvalid ''source is a directory, but recursive flag not set''), s)
           else upload_dir_with_progress J env local remote s
      else upload_file_with_progress J env local remote s)"

text \<open>The files of a tree for the content-addressed upload, as names relative to its base.\<close>

fun collect_files_recursive :: "path \<Rightarrow> (walk_error + dir_entry) list \<Rightarrow> io_error + string list" where
  "collect_files_recursive base [] = Inr []"
| "collect_files_recursive base (Inl e # walk) = Inl (walk_io e)"
| "collect_files_recursive base (Inr entry # walk) =
     (if de_type entry = TypeDir then collect_files_recursive base walk
      else case path_strip_prefix base (de_path entry) of
          None \<Rightarrow> Inl IoOther
        | Some relative \<Rightarrow>
            and_then (collect_files_recursive base walk) (\<lambda>entries.
              Inr (normalize_path_separators (path_display relative) # entries)))"

end
