(* ===== verification/Client_Download.thy ===== *)
theory Client_Download
  imports Client_Transfer
begin

text \<open>
  \<^verbatim>\<open>src/client/transfer/files/download.rs\<close> and \<^verbatim>\<open>store.rs\<close>: receiving one file or a tree into
  temporary files that are moved to their destination at the end.
\<close>

section \<open>Temporary files\<close>

text \<open>The time stamp in the name is the next number of the disk's generator.\<close>

definition temp_name :: "string \<Rightarrow> nat \<Rightarrow> string" where
  "temp_name n unique = ''.'' @ n @ ''.'' @ nat_str unique @ ''.irosh_part''"

definition temp_transfer_path :: "path \<Rightarrow> (srv, client_error, path) op" where
  "temp_transfer_path dest s =
     (let parent = (case path_parent dest of Some p \<Rightarrow> p | None \<Rightarrow> [CurDir]);
          n = (case path_file_name dest of Some n \<Rightarrow> n | None \<Rightarrow> ''transfer'');
          (unique, d) = draw_u64 (fsys s)
      in (Inr (path_join parent (components (temp_name n (unat unique)))), s\<lparr>fsys := d\<rparr>))"

definition persist_temp_file :: "path \<Rightarrow> path \<Rightarrow> (srv, client_error, unit) op" where
  "persist_temp_file temp_path final_path =
     bindS (case path_parent final_path of
              Some parent \<Rightarrow> errS (FileIo ''create destination directory'' parent) (at_disk (fs_create_dir_all parent))
            | None \<Rightarrow> retS ()) (\<lambda>_ s.
     case at_disk (fs_rename temp_path final_path) s of
       (Inr _, s1) \<Rightarrow> (Inr (), s1)
     | (Inl _, s1) \<Rightarrow>
         bindS (errS (FileIo ''persist temp file'' final_path) (at_disk (fs_copy temp_path final_path))) (\<lambda>_.
         ignoreS (at_disk (fs_remove_file temp_path))) s1)"

text \<open>The mode a download sets; a failure is only logged.\<close>

definition apply_mode :: "path \<Rightarrow> u32 option \<Rightarrow> (srv, client_error, unit) op" where
  "apply_mode p mode =
     (case mode of Some m \<Rightarrow> ignoreS (at_disk (fs_set_permissions p (m AND 0x1FF))) | None \<Rightarrow> retS ())"

section \<open>One file\<close>

datatype get_event =
    GotChunk bytes | GotComplete transfer_complete | GotError transfer_failure | GotPutChunk | GotOther transfer_frame

fun get_event_of :: "transfer_frame_borrowed \<Rightarrow> get_event" where
  "get_event_of (BGetChunk chunk) = GotChunk chunk"
| "get_event_of (BPutChunk chunk) = GotPutChunk"
| "get_event_of (Owned f) =
     (case f of GetComplete c \<Rightarrow> GotComplete c | FrameError e \<Rightarrow> GotError e | _ \<Rightarrow> GotOther f)"

function get_loop ::
  "serde_json \<Rightarrow> client_env \<Rightarrow> path \<Rightarrow> u64 \<Rightarrow> path \<Rightarrow> bytes \<Rightarrow> u64 \<Rightarrow> (srv, client_error, unit) op" where
  "get_loop J env remote expected_size temp_path frame_buf received s =
     (case read_next_frame_into J frame_buf (inp s) of
        Inl e \<Rightarrow> (Inl (ClientTransport e), s)
      | Inr (frame, rest) \<Rightarrow>
          (case get_event_of frame of
             GotChunk chunk \<Rightarrow>
               (let w = at_disk (fs_append temp_path (str_of_bytes chunk)) (s\<lparr>inp := rest\<rparr>) in
                case fst w of
                  Inl e \<Rightarrow> (Inl (FileIo ''write to temp download file'' temp_path e), snd w)
                | Inr _ \<Rightarrow> get_loop J env remote expected_size temp_path chunk (received + of_nat (length chunk)) (snd w))
           | GotComplete complete \<Rightarrow>
               if tc_size complete \<noteq> expected_size \<or> received \<noteq> expected_size
               then (Inl (DownloadFailed (''expected '' @ nat_str (unat expected_size) @ '' bytes, received ''
                       @ nat_str (unat received) @ '', completion reported '' @ nat_str (unat (tc_size complete)))), s\<lparr>inp := rest\<rparr>)
               else (Inr (), s\<lparr>inp := rest\<rparr>)
           | GotError failure \<Rightarrow> (Inl (TransferRejected failure), s\<lparr>inp := rest\<rparr>)
           | GotPutChunk \<Rightarrow> (Inl (DownloadFailed ''unexpected upload chunk during download''), s\<lparr>inp := rest\<rparr>)
           | GotOther other \<Rightarrow>
               (Inl (DownloadFailed (''unexpected data stream frame for '' @ path_display remote @ '': ''
                  @ cl_show_frame env other)), s\<lparr>inp := rest\<rparr>)))"
  by pat_completeness auto
termination
  by (relation "measure (\<lambda>(J, env, remote, expected_size, temp_path, frame_buf, received, s). length (inp s))")
    (auto dest: read_next_frame_into_progress simp: at_disk_def split: prod.splits)

declare get_loop.simps [simp del]

definition store_download ::
  "serde_json \<Rightarrow> client_env \<Rightarrow> path \<Rightarrow> path \<Rightarrow> u64 \<Rightarrow> u32 option \<Rightarrow> (srv, client_error, unit) op" where
  "store_download J env remote local expected_size expected_mode =
     bindS (temp_transfer_path local) (\<lambda>temp_path.
     bindS (case path_parent local of Some parent \<Rightarrow> ignoreS (at_disk (fs_create_dir_all parent)) | None \<Rightarrow> retS ()) (\<lambda>_.
     bindS (errS (FileIo ''create temp download file'' temp_path) (at_disk (fs_create temp_path))) (\<lambda>_ s.
     case bindS (get_loop J env remote expected_size temp_path [] 0) (\<lambda>_.
            errS (FileIo ''flush temp download file'' temp_path) (at_disk (fs_sync temp_path))) s of
       (Inl err, s1) \<Rightarrow> (Inl err, snd (at_disk (fs_remove_file temp_path) s1))
     | (Inr _, s1) \<Rightarrow>
         bindS (persist_temp_file temp_path local) (\<lambda>_. apply_mode local expected_mode) s1)))"

text \<open>The answer to the request decides whether there is something to store.\<close>

definition check_get_ready :: "serde_json \<Rightarrow> client_env \<Rightarrow> path \<Rightarrow> path \<Rightarrow> transfer_frame \<Rightarrow> (srv, client_error, unit) op" where
  "check_get_ready J env remote local res =
     (case res of
        GetReady ready \<Rightarrow> store_download J env remote local (tr_size ready) (tr_mode ready)
      | FrameError failure \<Rightarrow> failS (TransferRejected failure)
      | other \<Rightarrow> failS (DownloadFailed (''unexpected preflight frame for '' @ path_display remote @ '': ''
          @ cl_show_frame env other)))"

definition download_file_with_progress :: "serde_json \<Rightarrow> client_env \<Rightarrow> path \<Rightarrow> path \<Rightarrow> (srv, client_error, unit) op" where
  "download_file_with_progress J env remote local =
     (if remote = [] then failS (TransferTargetInvalid ''remote path is empty'')
      else if local = [] then failS (TransferTargetInvalid ''local path is empty'')
      else
        bindS (open_transfer_stream env ''download unavailable'') (\<lambda>_.
        bindS (transmit (write_get_request J \<lparr>gr_path = normalize_path_separators (path_display remote), gr_recursive = False\<rparr>)) (\<lambda>_.
        bindS (receive J) (check_get_ready J env remote local))))"

section \<open>A tree\<close>

datatype item_event = ItemChunk bytes | ItemDone | ItemPutChunk | ItemOther transfer_frame

fun item_event_of :: "transfer_frame_borrowed \<Rightarrow> item_event" where
  "item_event_of (BGetChunk chunk) = ItemChunk chunk"
| "item_event_of (BPutChunk chunk) = ItemPutChunk"
| "item_event_of (Owned f) = (case f of EntryComplete c \<Rightarrow> ItemDone | _ \<Rightarrow> ItemOther f)"

function item_loop :: "serde_json \<Rightarrow> client_env \<Rightarrow> path \<Rightarrow> bytes \<Rightarrow> (srv, client_error, unit) op" where
  "item_loop J env temp_path frame_buf s =
     (case read_next_frame_into J frame_buf (inp s) of
        Inl e \<Rightarrow> (Inl (ClientTransport e), s)
      | Inr (frame, rest) \<Rightarrow>
          (case item_event_of frame of
             ItemChunk chunk \<Rightarrow>
               (let w = at_disk (fs_append temp_path (str_of_bytes chunk)) (s\<lparr>inp := rest\<rparr>) in
                case fst w of
                  Inl e \<Rightarrow> (Inl (FileIo ''write to temp download file'' temp_path e), snd w)
                | Inr _ \<Rightarrow> item_loop J env temp_path chunk (snd w))
           | ItemDone \<Rightarrow> (Inr (), s\<lparr>inp := rest\<rparr>)
           | ItemPutChunk \<Rightarrow>
               (Inl (DownloadFailed ''unexpected upload chunk during recursive download''), s\<lparr>inp := rest\<rparr>)
           | ItemOther other \<Rightarrow>
               (Inl (DownloadFailed (''unexpected frame during recursive download stream: '' @ cl_show_frame env other)),
                s\<lparr>inp := rest\<rparr>)))"
  by pat_completeness auto
termination
  by (relation "measure (\<lambda>(J, env, temp_path, frame_buf, s). length (inp s))")
    (auto dest: read_next_frame_into_progress simp: at_disk_def split: prod.splits)

declare item_loop.simps [simp del]

definition store_item :: "serde_json \<Rightarrow> client_env \<Rightarrow> path \<Rightarrow> u32 option \<Rightarrow> (srv, client_error, unit) op" where
  "store_item J env local_path mode =
     bindS (case path_parent local_path of Some parent \<Rightarrow> ignoreS (at_disk (fs_create_dir_all parent)) | None \<Rightarrow> retS ()) (\<lambda>_.
     bindS (temp_transfer_path local_path) (\<lambda>temp_path.
     bindS (errS (FileIo ''create temp download file'' temp_path) (at_disk (fs_create temp_path))) (\<lambda>_ s.
     case bindS (item_loop J env temp_path []) (\<lambda>_.
            errS (FileIo ''flush temp download file'' temp_path) (at_disk (fs_sync temp_path))) s of
       (Inl err, s1) \<Rightarrow> (Inl err, snd (at_disk (fs_remove_file temp_path) s1))
     | (Inr _, s1) \<Rightarrow>
         bindS (persist_temp_file temp_path local_path) (\<lambda>_. apply_mode local_path mode) s1)))"

definition handle_item :: "serde_json \<Rightarrow> client_env \<Rightarrow> path \<Rightarrow> entry_header \<Rightarrow> (srv, client_error, unit) op" where
  "handle_item J env local_root header =
     (case sanitize_remote_path (eh_path header) of
        Inl e \<Rightarrow> failS (ClientTransport e)
      | Inr sanitized_rel \<Rightarrow>
          let local_path = path_join local_root sanitized_rel in
          if eh_is_dir header
          then errS (FileIo ''create local directory'' local_path) (at_disk (fs_create_dir_all local_path))
          else store_item J env local_path (eh_mode header))"

datatype fetch_event =
    FetchEntry entry_header | FetchDone | FetchError transfer_failure | FetchPutChunk | FetchGetChunk | FetchOther transfer_frame

fun fetch_event_of :: "transfer_frame_borrowed \<Rightarrow> fetch_event" where
  "fetch_event_of (BPutChunk chunk) = FetchPutChunk"
| "fetch_event_of (BGetChunk chunk) = FetchGetChunk"
| "fetch_event_of (Owned f) =
     (case f of NewEntry h \<Rightarrow> FetchEntry h | GetComplete c \<Rightarrow> FetchDone | FrameError e \<Rightarrow> FetchError e | _ \<Rightarrow> FetchOther f)"

text \<open>
  The loop over the entries.  The buffer that the source reuses is empty here: it has no influence on what is read.  The fuel
  is the length of the stream, which every round shortens.
\<close>

fun fetch_loop :: "nat \<Rightarrow> serde_json \<Rightarrow> client_env \<Rightarrow> path \<Rightarrow> (srv, client_error, unit) op" where
  "fetch_loop 0 J env local_root s = (Inl (ClientTransport (Io UnexpectedEof)), s)"
| "fetch_loop (Suc fuel) J env local_root s =
     (case read_next_frame_into J [] (inp s) of
        Inl e \<Rightarrow> (Inl (ClientTransport e), s)
      | Inr (frame, rest) \<Rightarrow>
          (case fetch_event_of frame of
             FetchEntry header \<Rightarrow>
               bindS (handle_item J env local_root header) (\<lambda>_. fetch_loop fuel J env local_root) (s\<lparr>inp := rest\<rparr>)
           | FetchDone \<Rightarrow> (Inr (), s\<lparr>inp := rest\<rparr>)
           | FetchError failure \<Rightarrow> (Inl (TransferRejected failure), s\<lparr>inp := rest\<rparr>)
           | FetchPutChunk \<Rightarrow>
               (Inl (DownloadFailed ''unexpected upload chunk during recursive download''), s\<lparr>inp := rest\<rparr>)
           | FetchGetChunk \<Rightarrow>
               (Inl (DownloadFailed ''unexpected chunk outside entry stream during recursive download''), s\<lparr>inp := rest\<rparr>)
           | FetchOther other \<Rightarrow>
               (Inl (DownloadFailed (''unexpected frame during recursive download: '' @ cl_show_frame env other)),
                s\<lparr>inp := rest\<rparr>)))"

definition fetch_run :: "serde_json \<Rightarrow> client_env \<Rightarrow> path \<Rightarrow> (srv, client_error, unit) op" where
  "fetch_run J env local_root s = fetch_loop (length (inp s)) J env local_root s"

definition download_dir_with_progress :: "serde_json \<Rightarrow> client_env \<Rightarrow> path \<Rightarrow> path \<Rightarrow> (srv, client_error, unit) op" where
  "download_dir_with_progress J env remote_root local_root =
     bindS (open_transfer_stream env ''recursive download unavailable'') (\<lambda>_.
     bindS (transmit (write_get_request J \<lparr>gr_path = normalize_path_separators (path_display remote_root), gr_recursive = True\<rparr>)) (\<lambda>_.
     bindS (receive J) (\<lambda>res.
     case res of
       GetReady _ \<Rightarrow> fetch_run J env local_root
     | FrameError failure \<Rightarrow> failS (TransferRejected failure)
     | other \<Rightarrow> failS (DownloadFailed (''unexpected preflight frame: '' @ cl_show_frame env other)))))"

text \<open>
  A file or a tree: the question whether the path is a directory has a stream of its own, so the download starts
  on a second stream, \<open>answers\<close> being what the server says there.
\<close>

definition download_with_progress ::
  "serde_json \<Rightarrow> client_env \<Rightarrow> path \<Rightarrow> path \<Rightarrow> bool \<Rightarrow> bytes \<Rightarrow> (srv, client_error, unit) op" where
  "download_with_progress J env remote local recursive answers =
     bindS (is_remote_dir J env remote) (\<lambda>is_dir s.
     (if is_dir
      then if \<not> recursive then failS (TransferTargetInvalid ''remote is a directory, but recursive flag not set'')
           else download_dir_with_progress J env remote local
      else download_file_with_progress J env remote local) (s\<lparr>inp := answers\<rparr>))"

end
