(* ===== verification/Upload_Replies.thy ===== *)
theory Upload_Replies
  imports Server_Dispatch
begin

text \<open>
  What the server says on a transfer stream: its output is a sequence of frames, and a completion frame is among them only
  when the upload is stored.  The reader at the other end can rely on the kinds of these frames even where JSON is not faithful.
\<close>

section \<open>Replies as frames\<close>

definition encodes :: "serde_json \<Rightarrow> transfer_frame list \<Rightarrow> bytes \<Rightarrow> bool" where
  "encodes J fs out \<longleftrightarrow> (\<exists>bs. list_all2 (\<lambda>f b. encode_frame J f = Inr b) fs bs \<and> out = concat bs)"

lemma encodes_Nil [simp]: "encodes J [] out \<longleftrightarrow> out = []"
  by (auto simp: encodes_def)

lemma encodes_Cons: "encodes J (f # fs) out \<longleftrightarrow> (\<exists>b out'. encode_frame J f = Inr b \<and> encodes J fs out' \<and> out = b @ out')"
  by (auto simp: encodes_def list_all2_Cons1) (metis concat.simps(2) list_all2_Cons)

lemma encodes_append: "encodes J fs a \<Longrightarrow> encodes J gs b \<Longrightarrow> encodes J (fs @ gs) (a @ b)"
  by (induction fs arbitrary: a) (fastforce simp: encodes_Cons)+

text \<open>Whatever JSON does, a frame that was written is read as a frame of the same kind.\<close>

lemma decode_payload_kind: "known_kind k \<Longrightarrow> decode_payload J k p = Inr f \<Longrightarrow> frame_kind f = k"
  by (auto simp: decode_payload_def decode_frame_def decode_as_def and_then_eq_Inr_iff split: if_splits)

lemma encode_frame_written:
  "encode_frame J f = Inr bs \<Longrightarrow> \<exists>p. write_frame (frame_kind f) p = Inr bs"
  by (cases f) (auto simp: writer_defs write_json_frame_eq_Inr_iff)

lemma read_encoded_kind:
  assumes "encode_frame J g = Inr bs" and "read_next_frame J (bs @ s) = Inr (f, s')"
  shows "frame_kind f = frame_kind g \<and> s' = s"
proof -
  obtain p where "write_frame (frame_kind g) p = Inr bs" using encode_frame_written [OF assms(1)] by blast
  then have "read_frame (bs @ s) = Inr ((frame_kind g, p), s)" by (rule transfer.rd_wr) simp
  then show ?thesis using assms(2) decode_payload_kind [OF known_frame_kind]
    by (auto simp: read_next_frame_eq and_then_eq_Inr_iff)
qed

lemma read_next_frame_nonempty: "read_next_frame J s = Inr (f, s') \<Longrightarrow> s \<noteq> []"
  by (auto simp: read_next_frame_eq read_frame_def and_then_eq_Inr_iff read_exact_def map_err_def split: sum.splits)

lemma read_encodes:
  assumes "encodes J fs out" and "read_next_frame J out = Inr (f, out')"
  obtains g gs where "fs = g # gs" "frame_kind f = frame_kind g" "encodes J gs out'"
  using assms by (cases fs) (auto simp: encodes_Cons dest: read_next_frame_nonempty read_encoded_kind)


text \<open>An operation all of whose output is frames of the set \<open>F\<close>.\<close>

definition replies :: "serde_json \<Rightarrow> transfer_frame set \<Rightarrow> (srv \<Rightarrow> 'r \<times> srv) \<Rightarrow> bool" where
  "replies J F m \<longleftrightarrow> (\<forall>s r s'. m s = (r, s') \<longrightarrow>
     (\<exists>fs out. outp s' = outp s @ out \<and> encodes J fs out \<and> set fs \<subseteq> F))"

lemma repliesI:
  "(\<And>s r s'. m s = (r, s') \<Longrightarrow> \<exists>fs out. outp s' = outp s @ out \<and> encodes J fs out \<and> set fs \<subseteq> F) \<Longrightarrow> replies J F m"
  by (auto simp: replies_def)

lemma repliesD:
  "replies J F m \<Longrightarrow> m s = (r, s') \<Longrightarrow> \<exists>fs out. outp s' = outp s @ out \<and> encodes J fs out \<and> set fs \<subseteq> F"
  by (auto simp: replies_def)

lemma replies_mono: "replies J F m \<Longrightarrow> F \<subseteq> G \<Longrightarrow> replies J G m"
  unfolding replies_def by (meson subset_trans)

text \<open>Outputs compose.\<close>

lemma outputs_trans:
  assumes "\<exists>fs out. outp s1 = outp s @ out \<and> encodes J fs out \<and> set fs \<subseteq> F"
    and "\<exists>fs out. outp s2 = outp s1 @ out \<and> encodes J fs out \<and> set fs \<subseteq> F"
  shows "\<exists>fs out. outp s2 = outp s @ out \<and> encodes J fs out \<and> set fs \<subseteq> F"
proof -
  obtain fs out where 1: "outp s1 = outp s @ out" "encodes J fs out" "set fs \<subseteq> F" using assms(1) by blast
  obtain gs out' where 2: "outp s2 = outp s1 @ out'" "encodes J gs out'" "set gs \<subseteq> F" using assms(2) by blast
  show ?thesis using encodes_append [OF 1(2) 2(2)] 1 2 by (intro exI [of _ "fs @ gs"] exI [of _ "out @ out'"]) simp
qed

lemma outputs_same: "outp s' = outp s \<Longrightarrow> \<exists>fs out. outp s' = outp s @ out \<and> encodes J fs out \<and> set fs \<subseteq> F"
  by (intro exI [of _ "[]"]) simp

lemma replies_bindS:
  assumes "replies J F m" and "\<And>v. replies J F (f v)"
  shows "replies J F (bindS m f)"
proof (rule repliesI)
  fix s r s'
  assume "bindS m f s = (r, s')"
  then consider e where "m s = (Inl e, s')" | v s1 where "m s = (Inr v, s1)" "f v s1 = (r, s')"
    unfolding bindS_eq_iff by blast
  then show "\<exists>fs out. outp s' = outp s @ out \<and> encodes J fs out \<and> set fs \<subseteq> F"
  proof cases
    case (2 v s1)
    show ?thesis by (rule outputs_trans [OF repliesD [OF assms(1) 2(1)] repliesD [OF assms(2) 2(2)]])
  qed (rule repliesD [OF assms(1)])
qed

lemma replies_send: "f = encode_frame J fr \<Longrightarrow> fr \<in> F \<Longrightarrow> replies J F (send f)"
proof (rule repliesI)
  fix s r s'
  assume f: "f = encode_frame J fr" "fr \<in> F" and "send f s = (r, s')"
  then consider "outp s' = outp s" | b where "f = Inr b" "outp s' = outp s @ b"
    by (auto simp: send_def split: sum.splits if_splits)
  then show "\<exists>fs out. outp s' = outp s @ out \<and> encodes J fs out \<and> set fs \<subseteq> F"
  proof cases
    case (2 b)
    then show ?thesis using f by (intro exI [of _ "[fr]"] exI [of _ b]) (auto simp: encodes_Cons)
  qed (rule outputs_same)
qed

lemma replies_quiet: "(\<And>s r s'. m s = (r, s') \<Longrightarrow> outp s' = outp s) \<Longrightarrow> replies J F m"
  by (rule repliesI) (rule outputs_same)

lemma replies_ret: "replies J F (retS v)" "replies J F (failS e)"
  by (rule replies_quiet; simp)+

lemma replies_on_disk: "replies J F (on_disk m)"
  by (rule replies_quiet) (metis on_disk_fields(2) snd_conv)

lemma replies_errS: "replies J F m \<Longrightarrow> replies J F (errS g m)"
  unfolding replies_def errS_eq_iff by metis

lemma replies_ignore: "replies J F m \<Longrightarrow> replies J F (ignoreS m)"
  unfolding replies_def ignoreS_def by (metis prod.collapse prod.inject)

lemmas replies_rules = replies_bindS replies_ret replies_on_disk replies_errS replies_ignore

lemma replies_context:
  "replies J F (path_missing_no_follow p)" "replies J F (ctx_create_dir_all p)" "replies J F (remove_file_if_present p)"
  "replies J F (ctx_rename p q)" "replies J F (ctx_chmod p k)" "replies J F (spawn_upload_helper env p)"
  "replies J F (sink_wait env p)"
  unfolding path_missing_no_follow_def ctx_create_dir_all_def remove_file_if_present_def ctx_rename_def ctx_chmod_def
    spawn_upload_helper_def sink_wait_def
  by (intro replies_rules)+


lemma replies_error: "replies J (range FrameError) (send (write_transfer_error J e))"
  by (rule replies_send [of _ J "FrameError e"]) simp_all

lemma outputs_error:
  "s' = snd (send (write_transfer_error J e) (s\<lparr>inp := rest\<rparr>)) \<Longrightarrow>
     \<exists>fs out. outp s' = outp s @ out \<and> encodes J fs out \<and> set fs \<subseteq> range FrameError"
  using repliesD [OF replies_error surjective_pairing, of J e "s\<lparr>inp := rest\<rparr>"] by simp

lemma replies_prepare: "replies J F (prepare_put_destination env ctx raw)"
proof -
  have "replies J F (\<lambda>s. let (unique, d) = draw_u64 (fsys s); n = f in (g unique n, s\<lparr>fsys := d\<rparr>))" for f g
    by (rule replies_quiet) (auto simp: draw_u64_def)
  then show ?thesis unfolding prepare_put_destination_def Let_def
    by (auto split: sum.splits option.splits intro!: replies_bindS replies_ret replies_context)
qed

lemma replies_put_loop: "replies J (range FrameError) (put_loop J env declared part buf received)"
proof (rule repliesI)
  fix s r s'
  assume "put_loop J env declared part buf received s = (r, s')"
  then show "\<exists>fs out. outp s' = outp s @ out \<and> encodes J fs out \<and> set fs \<subseteq> range FrameError"
  proof (induction J env declared part buf received s rule: put_loop.induct)
    case (1 J env declared part buf received s)
    note run = 1(2) and unfold = put_loop.simps [of J env declared part buf received s]
    have after: "\<exists>fs out. outp s' = outp s @ out \<and> encodes J fs out \<and> set fs \<subseteq> range FrameError"
      if "m (s\<lparr>inp := rest\<rparr>) = (x, s')" "replies J (range FrameError) m" for m :: "srv \<Rightarrow> 'x \<times> srv" and rest x
      using repliesD [OF that(2,1)] by simp
    show ?case
    proof (cases "read_next_frame_into J buf (inp s)")
      case (Inl e)
      then show ?thesis using run by (intro outputs_same) (simp add: unfold)
    next
      case (Inr fr)
      obtain frame rest where fr: "fr = (frame, rest)" by (rule prod.exhaust)
      show ?thesis
      proof (cases "put_event_of frame")
        case (Chunk chunk)
        let ?n = "received + of_nat (length chunk)"
        let ?w = "on_disk (fs_append part (str_of_bytes chunk)) (s\<lparr>inp := rest\<rparr>)"
        consider "?n > declared" | "\<not> ?n > declared" "isl (fst ?w)" | "\<not> ?n > declared" "\<not> isl (fst ?w)" by blast
        then show ?thesis
        proof cases
          case 1
          then show ?thesis using run Inr fr Chunk
            by (intro after [OF _ replies_bindS [OF replies_error replies_ret(1)]]) (simp add: unfold Let_def)
        next
          case 2
          then show ?thesis using run Inr fr Chunk by (intro outputs_same) (auto simp: unfold Let_def)
        next
          case 3
          then have "put_loop J env declared part chunk ?n (snd ?w) = (r, s')"
            using run Inr fr Chunk by (simp add: unfold Let_def)
          from 1(1) [OF Inr fr [symmetric] Chunk refl 3(1) refl 3(2) this] show ?thesis by simp
        qed
      next
        case (Complete c)
        show ?thesis
        proof (cases "tc_size c \<noteq> received \<or> received \<noteq> declared")
          case True
          then show ?thesis using run Inr fr Complete
            by (intro after [OF _ replies_bindS [OF replies_error replies_ret(1)]]) (simp add: unfold)
        next
          case False
          then have "(Inr (False, received), s\<lparr>inp := rest\<rparr>) = (r, s')"
            using run unfolding unfold Inr fr by (simp only: sum.case prod.case Complete put_event.case if_False)
          then show ?thesis by (intro outputs_same) auto
        qed
      next
        case ClientError
        then show ?thesis using run Inr fr by (intro outputs_same) (auto simp: unfold)
      next
        case StrayChunk
        then show ?thesis using run Inr fr by (intro outputs_error) (auto simp: unfold)
      next
        case (Stray other)
        then show ?thesis using run Inr fr by (intro outputs_error) (auto simp: unfold)
      qed
    qed
  qed
qed


lemma finish_put_outcome:
  assumes "finish_put J env request dst failed n s = (r, s')" and "part_arg dst \<noteq> final_arg dst"
    and "lookup (fsys s) (part_arg dst) = Some (File c m)"
  shows "(\<exists>fs out. outp s' = outp s @ out \<and> encodes J fs out \<and> set fs \<subseteq> range FrameError)
      \<or> \<not> failed \<and> (\<exists>m'. lookup (fsys s') (final_arg dst) = Some (File c m'))"
    (is "?quiet \<or> ?stored")
proof -
  obtain hr s1 where w: "sink_wait env (part_arg dst) s = (hr, s1)" by (rule prod.exhaust)
  have o1: "outp s1 = outp s" and f1: "fsys s1 = fsys s"
    using w sink_wait_keeps [OF w] by (auto simp: sink_wait_def errS_eq_iff on_disk_def split: prod.splits)
  have rm: "outp (snd (remove_file_if_present (part_arg dst) t)) = outp t" for t
    by (simp add: remove_file_if_present_def ignoreS_def)
  show ?thesis
  proof (cases "failed \<or> isl hr")
    case True
    let ?s2 = "snd (remove_file_if_present (part_arg dst) s1)"
    have "s' = ?s2 \<or> (\<exists>e. send (write_transfer_error J e) ?s2 = (r, s'))"
      using assms(1) w True by (auto simp: finish_put_def Let_def split: sum.splits if_splits)
    moreover have "outp ?s2 = outp s" using o1 rm by simp
    ultimately have ?quiet
      using repliesD [OF replies_error, of J _ ?s2 r s'] outputs_same [of s' s J] by auto
    then show ?thesis ..
  next
    case False
    obtain rr s2 where rn: "ctx_rename (part_arg dst) (final_arg dst) s1 = (rr, s2)" by (rule prod.exhaust)
    show ?thesis
    proof (cases rr)
      case (Inl e)
      have "outp s2 = outp s1" using rn by (auto simp: ctx_rename_def bindS_def on_disk_def split: prod.splits sum.splits)
      then have "outp s' = outp s" using assms(1) w False rn Inl rm o1 by (auto simp: finish_put_def)
      then show ?thesis using outputs_same by blast
    next
      case (Inr b)
      then have d: "fs_rename (part_arg dst) (final_arg dst) (fsys s) = (Inr (), fsys s2)" and b: "b"
        using rn f1 by (auto simp: ctx_rename_result)
      then have "lookup (fsys s2) (final_arg dst) = Some (File c m)"
        using fs_rename_moves [OF d assms(2)] assms(3) by auto
      moreover have "bindS (case pr_mode request of Some m \<Rightarrow> ctx_chmod (final_arg dst) m | None \<Rightarrow> retS ())
          (\<lambda>_. send (write_put_complete J \<lparr>tc_size = n\<rparr>)) s2 = (r, s')"
        using assms(1) w False rn Inr b by (auto simp: finish_put_def)
      then obtain s3 where "(case pr_mode request of Some m \<Rightarrow> ctx_chmod (final_arg dst) m | None \<Rightarrow> retS ()) s2 = (Inr (), s3)"
          "fsys s' = fsys s3"
        using optional_chmod_ok by (auto simp: bindS_eq_iff dest: send_result)
      ultimately show ?thesis using optional_chmod_file False by metis
    qed
  qed
qed

lemma receive_put_outcome:
  assumes "receive_put J env request dst s = (r, s')" and neq: "part_arg dst \<noteq> final_arg dst"
  shows "(\<exists>fs out. outp s' = outp s @ out \<and> encodes J fs out \<and> set fs \<subseteq> range FrameError \<union> range PutReady)
      \<or> (\<exists>c m. complete_upload J (inp s) (pr_size request) c \<and> lookup (fsys s') (final_arg dst) = Some (File c m))"
    (is "?quiet s' \<or> ?stored")
proof -
  let ?F = "range FrameError \<union> range PutReady"
  let ?ready = "write_put_ready J \<lparr>tr_size = pr_size request, tr_mode = pr_mode request\<rparr>"
  have loop: "replies J ?F (put_loop J env (pr_size request) (part_arg dst) [] 0)"
    by (rule replies_mono [OF replies_put_loop]) simp
  have rdy: "replies J ?F (send ?ready)" by (rule replies_send [where fr = "PutReady _"]) auto
  obtain x s1 where sp: "spawn_upload_helper env (part_arg dst) s = (x, s1)" by (rule prod.exhaust)
  note q1 = repliesD [OF replies_context(6) sp, of J ?F]
  show ?thesis
  proof (cases x)
    case (Inl e)
    then have "?quiet s'" using assms(1) sp q1 by (simp add: receive_put_def bindS_def)
    then show ?thesis ..
  next
    case (Inr u)
    obtain y s2 where sd: "send ?ready s1 = (y, s2)" by (rule prod.exhaust)
    note q2 = outputs_trans [OF q1 repliesD [OF rdy sd]]
    show ?thesis
    proof (cases y)
      case (Inl e)
      then have "s' = snd (remove_file_if_present (part_arg dst) s2)"
        using assms(1) sp sd Inr by (simp add: receive_put_def bindS_def)
      then have "?quiet s'" using q2 by (simp add: remove_file_if_present_def ignoreS_def)
      then show ?thesis ..
    next
      case Inr2: (Inr v)
      obtain z s3 where lp: "put_loop J env (pr_size request) (part_arg dst) [] 0 s2 = (z, s3)" by (rule prod.exhaust)
      note q3 = outputs_trans [OF q2 repliesD [OF loop lp]]
      have rest: "(case z of Inl e \<Rightarrow> (Inl e, s3) | Inr (failed, n) \<Rightarrow> finish_put J env request dst failed n s3) = (r, s')"
        using assms(1) sp sd Inr Inr2 lp by (simp add: receive_put_def bindS_def split: sum.splits prod.splits)
      obtain m where empty: "lookup (fsys s2) (part_arg dst) = Some (File [] m)" "inp s2 = inp s"
        using spawn_upload_helper_file [of env "part_arg dst" s s1] sp Inr send_result [OF sd] by auto
      show ?thesis
      proof (cases z)
        case (Inl e)
        then show ?thesis using rest q3 by simp
      next
        case (Inr fn)
        obtain failed n where fn: "fn = (failed, n)" by (rule prod.exhaust)
        have fin: "finish_put J env request dst failed n s3 = (r, s')" using rest Inr fn by simp
        obtain c m' where c: "lookup (fsys s3) (part_arg dst) = Some (File c m')"
          using put_loop_file [OF lp] empty(1) by (auto elim!: is_file_node.elims)
        have "complete_upload J (inp s) (pr_size request) c" if "\<not> failed"
          using put_loop_content [of J env "pr_size request" "part_arg dst" "[]" 0 s2 n s3 "[]" m] lp Inr fn that empty c
          by (auto simp: complete_upload_def) blast
        moreover have "?quiet s'" if "\<exists>fs out. outp s' = outp s3 @ out \<and> encodes J fs out \<and> set fs \<subseteq> range FrameError"
          using that by (intro outputs_trans [OF q3]) blast
        ultimately show ?thesis using finish_put_outcome [OF fin neq c] by blast
      qed
    qed
  qed
qed

end
