(* ===== verification/Upload_End_To_End.thy ===== *)
theory Upload_End_To_End
  imports Upload_Replies Client_Transfer
begin

text \<open>
  The client's upload and the server's transfer handler, joined by their streams: what a success that the client
  reports says of the server's disk, and that a run in which nothing fails succeeds on both sides.
\<close>

section \<open>The client's side of an upload\<close>

lemma receive_result:
  "errS ClientTransport (take_frame J) s = (Inr f, s') \<longleftrightarrow> (\<exists>rest. read_next_frame J (inp s) = Inr (f, rest) \<and> s' = s\<lparr>inp := rest\<rparr>)"
  by (auto simp: errS_result_iffs take_frame_def split: sum.splits prod.splits)

lemma transmit_result:
  "errS ClientTransport (put_frame f) s = (Inr (), s') \<longleftrightarrow>
     (\<exists>b. f = Inr b \<and> \<not> write_fails s (writes s) \<and> s' = s\<lparr>outp := outp s @ b, writes := Suc (writes s)\<rparr>)"
  by (simp add: errS_result_iffs put_frame_result)

lemma await_put_complete_ok:
  assumes "await_put_complete J env sent s = (Inr (), s')"
  shows "\<exists>c rest. read_next_frame J (inp s) = Inr (PutComplete c, rest) \<and> tc_size c = sent \<and> outp s' = outp s"
proof -
  obtain f s1 where f: "errS ClientTransport (take_frame J) s = (Inr f, s1)"
    using assms unfolding await_put_complete_def bindS_eq_iff by blast
  then obtain rest where "read_next_frame J (inp s) = Inr (f, rest)" "s1 = s\<lparr>inp := rest\<rparr>" by (auto simp: receive_result)
  then show ?thesis using assms f by (cases f) (auto simp: await_put_complete_def bindS_def split: if_splits)
qed

definition upload_request :: "client_env \<Rightarrow> path \<Rightarrow> path \<Rightarrow> node \<Rightarrow> put_request" where
  "upload_request env local remote node =
     \<lparr>pr_path = normalize_path_separators (path_display remote), pr_size = node_len env local node,
      pr_mode = Some (node_mode node AND 0x1FF), pr_recursive = False\<rparr>"

lemma upload_file_steps:
  assumes "upload_file_with_progress J env local remote s = (Inr (), s')"
    and "lookup (fsys s) local = Some (File content mode)"
  shows "\<exists>req chunks out fin ready X1 complete X2.
      write_put_request J (upload_request env local remote (File content mode)) = Inr req
      \<and> read_next_frame J (inp s) = Inr (PutReady ready, X1) \<and> sent_as write_put_chunk chunks out
      \<and> concat chunks = as_bytes content \<and> write_put_complete J \<lparr>tc_size = of_nat (length content)\<rparr> = Inr fin
      \<and> outp s' = outp s @ req @ out @ fin \<and> read_next_frame J X1 = Inr (PutComplete complete, X2)"
proof -
  let ?n = "File content mode"
  have "s\<lparr>fsys := fsys s\<rparr> = s" by (cases s) simp
  then have meta: "at_disk (fs_metadata local) s = (Inr y, t) \<Longrightarrow> t = s" for y t
    by (auto simp: at_disk_def fs_metadata_def split: if_splits option.splits)
  have op: "fs_open (fsys s) local = Inr y \<Longrightarrow> y = ?n" for y
    using assms(2) by (auto simp: fs_open_def split: if_splits)
  obtain req f s1 where
    req: "write_put_request J (upload_request env local remote ?n) = Inr req"
    and f: "errS ClientTransport (take_frame J) (s\<lparr>outp := outp s @ req, writes := Suc (writes s)\<rparr>) = (Inr f, s1)"
    and after: "check_put_ready J env local ?n f s1 = (Inr (), s')"
    using assms(1) meta op
    unfolding upload_file_with_progress_def open_transfer_stream_def Let_def upload_request_def
    by (auto simp: bindS_eq_iff errS_result_iffs put_frame_result split: if_splits)
  obtain X1 where X1: "read_next_frame J (inp s) = Inr (f, X1)" "s1 = s\<lparr>outp := outp s @ req, writes := Suc (writes s), inp := X1\<rparr>"
    using f by (auto simp: receive_result)
  obtain ready where rd: "f = PutReady ready" and sf: "send_file J env local ?n s1 = (Inr (), s')"
    using after by (cases f) (auto simp: check_put_ready_def split: if_splits)
  obtain sent s2 fin s3 where
    st: "stream_node (cl_read_len env) write_put_chunk local ?n 0 s1 = (Inr sent, s2)"
    and fin: "write_put_complete J \<lparr>tc_size = sent\<rparr> = Inr fin"
    and s3: "s3 = s2\<lparr>outp := outp s2 @ fin, writes := Suc (writes s2)\<rparr>"
    and aw: "await_put_complete J env sent s3 = (Inr (), s')"
    using sf by (auto simp: send_file_def bindS_eq_iff errS_result_iffs put_frame_result)
  obtain chunks out where so: "sent_as write_put_chunk chunks out" "concat chunks = as_bytes content"
    "outp s2 = outp s @ req @ out" "sent = of_nat (length content)" "inp s2 = X1"
    using stream_chunks_done [of "cl_read_len env" write_put_chunk local 0 content 0 s1 sent s2] st X1(2)
    by (auto simp: stream_node_def)
  obtain c rest where "read_next_frame J X1 = Inr (PutComplete c, rest)" "outp s' = outp s @ req @ out @ fin"
    using await_put_complete_ok [OF aw] so s3 by auto
  then show ?thesis using req rd X1(1) so fin by blast
qed


section \<open>Both ends of an upload\<close>

lemma sent_upload_stream:
  assumes "sent_as write_put_chunk chunks out" and "write_put_complete J fin = Inr b" and "json_ok J (PutComplete fin)"
  shows "upload_stream J (out @ b @ t) chunks fin t"
  using assms(1)
proof (induction chunks arbitrary: out)
  case Nil
  then show ?case using read_next_frame_encode [of J "PutComplete fin" b t] assms(2,3) by (simp add: upload_stream_cases)
next
  case (Cons x xs)
  then obtain bx out' where "write_put_chunk x = Inr bx" "sent_as write_put_chunk xs out'" "out = bx @ out'"
    by (blast elim: sent_as_ConsD)
  then show ?case using Cons.IH [of out'] read_next_frame_encode [of J "PutChunk x" bx "out' @ b @ t"]
    by (simp add: upload_stream_cases)
qed

lemma upload_stream_unique:
  "upload_stream J s a c r \<Longrightarrow> upload_stream J s b c' r' \<Longrightarrow> a = b"
proof (induction a arbitrary: s b)
  case Nil
  then show ?case by (cases b) (auto simp: upload_stream_cases)
next
  case (Cons x xs)
  then show ?case by (cases b) (auto simp: upload_stream_cases)
qed

lemma single_put_outcome:
  assumes "handle_single_put J env ctx request s = (r, s')"
    and "resolve_path env ctx (pr_path request) = Inr (dir @ [Normal n])" and "proper_name n"
  shows "(\<exists>fs out. outp s' = outp s @ out \<and> encodes J fs out \<and> set fs \<subseteq> range FrameError \<union> range PutReady)
      \<or> lookup (fsys s) (dir @ [Normal n]) = None
        \<and> (\<exists>c m. complete_upload J (inp s) (pr_size request) c \<and> lookup (fsys s') (dir @ [Normal n]) = Some (File c m))"
    (is "?quiet s' \<or> ?stored")
proof -
  obtain pr s1 where p: "prepare_put_destination env ctx (pr_path request) s = (pr, s1)" by (rule prod.exhaust)
  have q1: "?quiet s1" by (rule repliesD [OF replies_prepare p])
  from p assms(2,3) show ?thesis
  proof (cases rule: prepare_put_cases)
    case (1 e)
    then show ?thesis using p assms(1) q1 by (simp add: handle_single_put_def bindS_def)
  next
    case 2
    then have "send (write_transfer_error J (target_exists_failure (dir @ [Normal n]))) s = (r, s')"
      using p assms(1,2) by (simp add: handle_single_put_def bindS_def)
    from repliesD [OF replies_mono [OF replies_error] this] show ?thesis by blast
  next
    case (3 u s2)
    let ?dst = "\<lparr>final_arg = dir @ [Normal n], part_arg = dir @ [Normal (part_name n (process_id env) u)]\<rparr>"
    have run: "receive_put J env request ?dst s1 = (r, s')"
      using p assms(1) 3(1) by (simp add: handle_single_put_def bindS_def)
    have "inp s1 = inp s" using 3(3,4) by (auto simp: ctx_create_dir_all_result)
    moreover have "part_arg ?dst \<noteq> final_arg ?dst" using part_name_neq by simp
    ultimately have "(\<exists>fs out. outp s' = outp s1 @ out \<and> encodes J fs out \<and> set fs \<subseteq> range FrameError \<union> range PutReady) \<or> ?stored"
      using receive_put_outcome [OF run] 3(2) by simp
    then show ?thesis using outputs_trans [OF q1] by blast
  qed
qed

lemma dispatch_put:
  assumes "handle_transfer_stream J env hs pid m s = (r, m', s')"
    and "read_next_frame J (inp s) = Inr (PutRequest request, rest)" and "\<not> pr_recursive request"
  obtains r1 s1 where "handle_single_put J env (context_from_state pid) request (s\<lparr>inp := rest\<rparr>) = (r1, s1)"
    "fsys s' = fsys s1" "\<exists>fs out. outp s' = outp s1 @ out \<and> encodes J fs out \<and> set fs \<subseteq> range FrameError"
proof -
  obtain r1 s1 where h: "handle_single_put J env (context_from_state pid) request (s\<lparr>inp := rest\<rparr>) = (r1, s1)"
    by (rule prod.exhaust)
  have "s' = s1 \<or> (\<exists>e. s' = snd (send (write_transfer_error J e) s1))"
    using assms h by (auto simp: handle_transfer_stream_def run_handler_def handle_put_request_def Let_def split: sum.splits)
  then have "fsys s' = fsys s1" "\<exists>fs out. outp s' = outp s1 @ out \<and> encodes J fs out \<and> set fs \<subseteq> range FrameError"
    using repliesD [OF replies_error surjective_pairing] outputs_same [of s' s1] by auto
  then show thesis using that h by blast
qed


section \<open>Runs where nothing fails\<close>

text \<open>The client's half: what it writes when the server answers as expected.\<close>

lemma upload_client_healthy:
  assumes "healthy (fsys s)" and "write_fails s = (\<lambda>_. False)" and "has_connection env" and "open_bi env" and "remote \<noteq> []"
    and src: "lookup (fsys s) local = Some (File content mode)"
    and req: "write_put_request J (upload_request env local remote (File content mode)) = Inr req"
    and fin: "write_put_complete J \<lparr>tc_size = of_nat (length content)\<rparr> = Inr fin"
    and ready: "read_next_frame J (inp s) = Inr (PutReady \<lparr>tr_size = of_nat (length content), tr_mode = k\<rparr>, X)"
    and reply: "read_next_frame J X = Inr (PutComplete \<lparr>tc_size = of_nat (length content)\<rparr>, X')"
  shows "\<exists>s'. upload_file_with_progress J env local remote s = (Inr (), s')"
proof -
  let ?n = "File content mode"
  let ?s1 = "s\<lparr>outp := outp s @ req, writes := Suc (writes s), inp := X\<rparr>"
  obtain sent s2 where st: "stream_chunks (cl_read_len env) write_put_chunk local 0 content 0 ?s1 = (Inr sent, s2)"
    and s2: "write_fails s2 = (\<lambda>_. False)"
    using stream_chunks_healthy [of ?s1 write_put_chunk "cl_read_len env" local 0 content 0] write_put_chunk_ok assms(1,2) by auto
  have sent: "sent = of_nat (length content)" "inp s2 = X" using stream_chunks_done [OF st] by auto
  let ?s3 = "s2\<lparr>outp := outp s2 @ fin, writes := Suc (writes s2)\<rparr>"
  have "await_put_complete J env sent ?s3 = (Inr (), ?s3\<lparr>inp := X'\<rparr>)"
    using reply sent by (simp add: await_put_complete_def bindS_def errS_def take_frame_def)
  then have "send_file J env local ?n ?s1 = (Inr (), ?s3\<lparr>inp := X'\<rparr>)"
    using st sent fin s2 by (simp add: send_file_def stream_node_def bindS_def errS_def put_frame_def)
  then have "check_put_ready J env local ?n (PutReady \<lparr>tr_size = of_nat (length content), tr_mode = k\<rparr>) ?s1
      = (Inr (), ?s3\<lparr>inp := X'\<rparr>)" by (simp add: check_put_ready_def node_len_def)
  moreover have "s\<lparr>fsys := fsys s\<rparr> = s" by (cases s) simp
  ultimately show ?thesis using assms(1-8) ready
    by (simp add: upload_file_with_progress_def open_transfer_stream_def bindS_def errS_def fs_open_def healthy_def
        at_disk_def fs_metadata_def put_frame_def take_frame_def Let_def upload_request_def)
qed

text \<open>The server's half.\<close>

lemma upload_server_healthy:
  assumes "healthy (fsys s)" and "write_fails s = (\<lambda>_. False)" and "dir_free (fsys s) dir"
    and "resolve_path env (context_from_state pid) (pr_path request) = Inr (dir @ [Normal n])" and "proper_name n"
    and "lookup (fsys s) (dir @ [Normal n]) = None"
    and "\<forall>u. \<not> is_dir_node (lookup (fsys s) (dir @ [Normal (part_name n (process_id env) u)]))"
    and "read_next_frame J (inp s) = Inr (PutRequest request, X)" and "\<not> pr_recursive request"
    and "upload_stream J X chunks fin rest" and "length (concat chunks) = unat (pr_size request)"
    and "tc_size fin = pr_size request"
    and "write_put_ready J \<lparr>tr_size = pr_size request, tr_mode = pr_mode request\<rparr> = Inr ready"
    and "write_put_complete J \<lparr>tc_size = pr_size request\<rparr> = Inr reply"
  shows "\<exists>s' k. handle_transfer_stream J env hs pid m s = (Inr (), record_transfer_completed (record_transfer_initiated m), s')
      \<and> lookup (fsys s') (dir @ [Normal n]) = Some (File (str_of_bytes (concat chunks)) k)
      \<and> outp s' = outp s @ ready @ reply"
  using single_put_healthy [of "s\<lparr>inp := X\<rparr>" dir env "context_from_state pid" request n J chunks fin rest ready reply] assms
  by (auto simp: handle_transfer_stream_def run_handler_def handle_put_request_def)

text \<open>A frame that the writer accepts and that JSON reads back as it was.\<close>

definition carries :: "serde_json \<Rightarrow> transfer_frame \<Rightarrow> bool" where
  "carries J f \<longleftrightarrow> json_ok J f \<and> \<not> isl (encode_frame J f)"

lemma carries_read:
  assumes "carries J f"
  obtains b where "encode_frame J f = Inr b" "\<And>t. read_next_frame J (b @ t) = Inr (f, t)"
proof -
  obtain b where "encode_frame J f = Inr b" using assms by (auto simp: carries_def isl_def intro: sum.exhaust_sel)
  then show thesis using that read_next_frame_encode assms by (auto simp: carries_def)
qed

text \<open>Both halves together, joined by their streams.\<close>

lemma upload_joint_run:
  fixes content :: string
  defines "sz \<equiv> of_nat (length content) :: u64"
  assumes client: "healthy (fsys cs)" "write_fails cs = (\<lambda>_. False)" "has_connection cenv" "open_bi cenv" "remote \<noteq> []"
      "lookup (fsys cs) local = Some (File content mode)" "length content < 2 ^ 64"
    and server: "healthy (fsys ss)" "write_fails ss = (\<lambda>_. False)" "dir_free (fsys ss) dir"
      "resolve_path env (context_from_state pid) (path_display remote) = Inr (dir @ [Normal n])" "proper_name n"
      "lookup (fsys ss) (dir @ [Normal n]) = None"
      "\<forall>u. \<not> is_dir_node (lookup (fsys ss) (dir @ [Normal (part_name n (process_id env) u)]))"
    and frames: "request = upload_request cenv local remote (File content mode)"
      "carries J (PutRequest request)" "carries J (PutReady \<lparr>tr_size = sz, tr_mode = pr_mode request\<rparr>)"
      "carries J (PutComplete \<lparr>tc_size = sz\<rparr>)"
    and start: "outp cs = []" "outp ss = []"
  shows "\<exists>answer cs' ss' k.
      upload_file_with_progress J cenv local remote (cs\<lparr>inp := answer\<rparr>) = (Inr (), cs')
      \<and> handle_transfer_stream J env hs pid m (ss\<lparr>inp := outp cs'\<rparr>)
          = (Inr (), record_transfer_completed (record_transfer_initiated m), ss')
      \<and> outp ss' = answer \<and> lookup (fsys ss') (dir @ [Normal n]) = Some (File content k)"
proof -
  obtain b1 where b1: "encode_frame J (PutRequest request) = Inr b1" "\<And>t. read_next_frame J (b1 @ t) = Inr (PutRequest request, t)"
    by (rule carries_read [OF frames(2)]) blast
  obtain b2 where b2: "encode_frame J (PutReady \<lparr>tr_size = sz, tr_mode = pr_mode request\<rparr>) = Inr b2"
    "\<And>t. read_next_frame J (b2 @ t) = Inr (PutReady \<lparr>tr_size = sz, tr_mode = pr_mode request\<rparr>, t)"
    by (rule carries_read [OF frames(3)]) blast
  obtain b3 where b3: "encode_frame J (PutComplete \<lparr>tc_size = sz\<rparr>) = Inr b3"
    "\<And>t. read_next_frame J (b3 @ t) = Inr (PutComplete \<lparr>tc_size = sz\<rparr>, t)"
    by (rule carries_read [OF frames(4)]) blast
  let ?cs = "cs\<lparr>inp := b2 @ b3\<rparr>"
  have "\<exists>cs'. upload_file_with_progress J cenv local remote ?cs = (Inr (), cs')"
    using client b1(1) b2(2) b3(1) b3(2) [of "[]"] frames(1)
    by (intro upload_client_healthy [of ?cs cenv remote local content mode J b1 b3 "pr_mode request" b3 "[]"]) (simp_all add: sz_def)
  then obtain cs' where c: "upload_file_with_progress J cenv local remote ?cs = (Inr (), cs')" by blast
  obtain chunks out where sent: "sent_as write_put_chunk chunks out" "concat chunks = as_bytes content" "outp cs' = b1 @ out @ b3"
    using upload_file_steps [OF c, of content mode] client(6) b1(1) b3(1) frames(1) start(1) by (auto simp: sz_def)
  let ?ss = "ss\<lparr>inp := outp cs'\<rparr>"
  have rd: "read_next_frame J (inp ?ss) = Inr (PutRequest request, out @ b3)" using b1(2) sent(3) by simp
  have "write_put_complete J \<lparr>tc_size = sz\<rparr> = Inr b3" "json_ok J (PutComplete \<lparr>tc_size = sz\<rparr>)"
    using b3(1) frames(4) by (simp_all add: carries_def)
  from sent_upload_stream [OF sent(1) this, of "[]"]
  have "\<exists>ss' k. handle_transfer_stream J env hs pid m ?ss = (Inr (), record_transfer_completed (record_transfer_initiated m), ss')
      \<and> lookup (fsys ss') (dir @ [Normal n]) = Some (File (str_of_bytes (concat chunks)) k) \<and> outp ss' = outp ?ss @ b2 @ b3"
    using upload_server_healthy [of ?ss, OF _ _ _ _ _ _ _ rd, of dir env pid n chunks "\<lparr>tc_size = sz\<rparr>" "[]" b2 b3 hs m]
      server frames(1) b2(1) b3(1) sent(2) client(7)
    by (simp add: upload_request_def normalize_path_separators_def node_len_def unat_of_nat sz_def)
  then show ?thesis using c sent(2) start(2) by auto
qed

text \<open>
  C17. An upload of a file works from end to end.  When no call fails on either side, the client reads a file of less than
  2^64 bytes and the target is free on the server, there is a run of both ends joined by their streams in which the client
  reports success, the server counts a completed transfer, and the target has the content of the file.
\<close>

theorem upload_succeeds:
  assumes "healthy (fsys cs)" and "write_fails cs = (\<lambda>_. False)" and "has_connection cenv" and "open_bi cenv" and "remote \<noteq> []"
    and "lookup (fsys cs) local = Some (File content mode)" and "length content < 2 ^ 64"
    and "healthy (fsys ss)" and "write_fails ss = (\<lambda>_. False)" and "dir_free (fsys ss) dir"
    and "resolve_path env (context_from_state pid) (path_display remote) = Inr (dir @ [Normal n])" and "proper_name n"
    and "lookup (fsys ss) (dir @ [Normal n]) = None"
    and "\<forall>u. \<not> is_dir_node (lookup (fsys ss) (dir @ [Normal (part_name n (process_id env) u)]))"
    and "carries J (PutRequest (upload_request cenv local remote (File content mode)))"
    and "carries J (PutReady \<lparr>tr_size = of_nat (length content), tr_mode = Some (mode AND 0x1FF)\<rparr>)"
    and "carries J (PutComplete \<lparr>tc_size = of_nat (length content)\<rparr>)"
    and "outp cs = []" and "outp ss = []"
  shows "\<exists>answer cs' ss' k.
      upload_file_with_progress J cenv local remote (cs\<lparr>inp := answer\<rparr>) = (Inr (), cs')
      \<and> handle_transfer_stream J env hs pid m (ss\<lparr>inp := outp cs'\<rparr>)
          = (Inr (), record_transfer_completed (record_transfer_initiated m), ss')
      \<and> outp ss' = answer \<and> lookup (fsys ss') (dir @ [Normal n]) = Some (File content k)"
  using assms by (intro upload_joint_run [where mode = mode and request = "upload_request cenv local remote (File content mode)"])
    (simp_all add: upload_request_def)

text \<open>Uploading \<^verbatim>\<open>/s/f\<close> to \<^verbatim>\<open>a\<close> in the home directory of a second machine with the same disk.\<close>

definition sample_client :: client_env where
  "sample_client = \<lparr>has_connection = True, open_bi = True, cl_show_frame = (\<lambda>_. ''frame''), cl_read_len = (\<lambda>_ _. 2),
     cl_walk_dir = (\<lambda>_ _. []), dir_len = (\<lambda>_. 0)\<rparr>"

lemma sample_client_connected [simp]: "has_connection sample_client" "open_bi sample_client"
  by (simp_all add: sample_client_def)

definition sample_handlers :: transfer_handlers where
  "sample_handlers = \<lparr>best_message = (\<lambda>_. ''error''), on_blob_put = (\<lambda>_. retS ()), on_blob_get = (\<lambda>_. retS ())\<rparr>"

definition upload_json :: serde_json where
  "upload_json = sample_json\<lparr>
     js_put_request := sample_serde \<lparr>pr_path = ''a'', pr_size = 3, pr_mode = Some 0x1A4, pr_recursive = False\<rparr> [1],
     js_transfer_ready := sample_serde \<lparr>tr_size = 3, tr_mode = Some 0x1A4\<rparr> [2],
     js_transfer_complete := sample_serde \<lparr>tc_size = 3\<rparr> [3]\<rparr>"

abbreviation sample_local :: path where "sample_local \<equiv> [RootDir, Normal ''s'', Normal ''f'']"

lemma sample_request:
  "upload_request sample_client sample_local [Normal ''a''] (File ''old'' 0x1A4)
    = \<lparr>pr_path = ''a'', pr_size = 3, pr_mode = Some 0x1A4, pr_recursive = False\<rparr>"
  by code_simp

lemma upload_json_carries:
  "carries upload_json (PutRequest \<lparr>pr_path = ''a'', pr_size = 3, pr_mode = Some 0x1A4, pr_recursive = False\<rparr>)"
  "carries upload_json (PutReady \<lparr>tr_size = 3, tr_mode = Some 0x1A4\<rparr>)"
  "carries upload_json (PutComplete \<lparr>tc_size = 3\<rparr>)"
proof -
  let ?f = "PutRequest \<lparr>pr_path = ''a'', pr_size = 3, pr_mode = Some 0x1A4, pr_recursive = False\<rparr>"
  have "\<not> isl (encode_frame upload_json ?f)" by code_simp
  then show "carries upload_json ?f" by (simp add: carries_def roundtrips_def upload_json_def sample_serde_def)
next
  let ?f = "PutReady \<lparr>tr_size = 3, tr_mode = Some 0x1A4\<rparr>"
  have "\<not> isl (encode_frame upload_json ?f)" by code_simp
  then show "carries upload_json ?f" by (simp add: carries_def roundtrips_def upload_json_def sample_serde_def)
next
  let ?f = "PutComplete \<lparr>tc_size = 3\<rparr>"
  have "\<not> isl (encode_frame upload_json ?f)" by code_simp
  then show "carries upload_json ?f" by (simp add: carries_def roundtrips_def upload_json_def sample_serde_def)
qed

lemma sample_upload_sides:
  "resolve_path sample_env (context_from_state None) (path_display [Normal ''a'']) = Inr ([RootDir, Normal ''s''] @ [Normal ''a''])"
  "\<forall>u. \<not> is_dir_node (lookup sample_disk ([RootDir, Normal ''s''] @ [Normal (part_name ''a'' (process_id sample_env) u)]))"
  "dir_free sample_disk [RootDir, Normal ''s'']" "healthy sample_disk"
  "lookup sample_disk sample_local = Some (File ''old'' 0x1A4)" "lookup sample_disk [RootDir, Normal ''s'', Normal ''a''] = None"
proof -
  show "resolve_path sample_env (context_from_state None) (path_display [Normal ''a'']) = Inr ([RootDir, Normal ''s''] @ [Normal ''a''])"
    by code_simp
qed (simp_all add: sample_disk_def lookup_def part_name_def dir_free_def ancestors_def upt_rec healthy_def)

theorem upload_succeeds_witness:
  "\<exists>answer cs' ss' k.
      upload_file_with_progress upload_json sample_client sample_local [Normal ''a''] ((sample_srv [])\<lparr>inp := answer\<rparr>) = (Inr (), cs')
      \<and> handle_transfer_stream upload_json sample_env sample_handlers None metrics_new ((sample_srv [])\<lparr>inp := outp cs'\<rparr>)
          = (Inr (), record_transfer_completed (record_transfer_initiated metrics_new), ss')
      \<and> outp ss' = answer \<and> lookup (fsys ss') ([RootDir, Normal ''s''] @ [Normal ''a'']) = Some (File ''old'' k)"
  using upload_json_carries sample_upload_sides
  by (intro upload_succeeds [where mode = "0x1A4"])
    (simp_all add: sample_request sample_srv_def proper_name_def)



end
