(* ===== verification/Download_Safety.thy ===== *)
theory Download_Safety
  imports Client_Download Upload_Tree
begin

text \<open>
  What a download guarantees on the client, whatever the server sends: a tree is written below its destination only, and a single file
  appears complete or not at all, except where the last step falls back to copying.
\<close>

section \<open>Changes below the destination\<close>

definition fetch_change :: "path \<Rightarrow> path \<Rightarrow> node option \<Rightarrow> node option \<Rightarrow> bool" where
  "fetch_change root q before after \<longleftrightarrow>
     after = before \<or> below root q \<and> q \<noteq> root \<or> q \<in> set (ancestors root) \<and> before = None \<and> is_dir_node after"

lemma fetch_change_trans: "fetch_change root q a b \<Longrightarrow> fetch_change root q b c \<Longrightarrow> fetch_change root q a c"
  by (auto simp: fetch_change_def)

definition fetches :: "path \<Rightarrow> (srv \<Rightarrow> 'r \<times> srv) \<Rightarrow> bool" where
  "fetches root m \<longleftrightarrow>
     (\<forall>s r s'. m s = (r, s') \<longrightarrow> (\<forall>q. fetch_change root q (lookup (fsys s) q) (lookup (fsys s') q)))"

lemma fetchesI:
  "(\<And>s r s' q. m s = (r, s') \<Longrightarrow> fetch_change root q (lookup (fsys s) q) (lookup (fsys s') q)) \<Longrightarrow> fetches root m"
  by (simp add: fetches_def)

lemma fetchesD: "fetches root m \<Longrightarrow> m s = (r, s') \<Longrightarrow> fetch_change root q (lookup (fsys s) q) (lookup (fsys s') q)"
  by (simp add: fetches_def)

lemma fetches_same: "(\<And>s r s'. m s = (r, s') \<Longrightarrow> lookup (fsys s') = lookup (fsys s)) \<Longrightarrow> fetches root m"
  by (simp add: fetches_def fetch_change_def)

lemma fetches_then:
  assumes "fetches root m" and "\<And>r. fetches root (f r)"
  shows "fetches root (\<lambda>s. case m s of (r, s1) \<Rightarrow> f r s1)"
proof (rule fetchesI)
  fix s r s' q
  assume run: "(case m s of (r, s1) \<Rightarrow> f r s1) = (r, s')"
  obtain r1 s1 where m: "m s = (r1, s1)" by (rule prod.exhaust)
  with run show "fetch_change root q (lookup (fsys s) q) (lookup (fsys s') q)"
    using fetchesD [OF assms(1) m] fetchesD [OF assms(2)] fetch_change_trans by (metis case_prod_conv)
qed

lemma fetches_ret: "fetches root (retS v)" "fetches root (failS e)"
  by (rule fetches_same, simp)+

lemma fetches_bindS:
  assumes "fetches root m" and "\<And>v s s1. m s = (Inr v, s1) \<Longrightarrow> fetches root (f v)"
  shows "fetches root (bindS m f)"
proof (rule fetchesI)
  fix s r s' q
  assume run: "bindS m f s = (r, s')"
  then show "fetch_change root q (lookup (fsys s) q) (lookup (fsys s') q)"
    unfolding bindS_eq_iff using fetchesD [OF assms(1)] fetchesD [OF assms(2)] fetch_change_trans by metis
qed

lemma fetches_errS: "fetches root m \<Longrightarrow> fetches root (errS g m)"
  unfolding fetches_def errS_eq_iff by metis

lemma fetches_ignore: "fetches root m \<Longrightarrow> fetches root (ignoreS m)"
  unfolding fetches_def ignoreS_def by (metis prod.collapse prod.inject)

lemma fetches_stream: "fetches root (put_frame f)" "fetches root (take_frame J)" "fetches root (open_transfer_stream env u)"
  by (rule fetches_same; auto simp: put_frame_def take_frame_def open_transfer_stream_def split: sum.splits prod.splits if_splits)+

lemma fetches_at_disk:
  assumes "only S m" and "\<And>q. q \<in> S \<Longrightarrow> below root q \<and> q \<noteq> root"
  shows "fetches root (at_disk m)"
proof (rule fetchesI)
  fix s r s' q
  assume "at_disk m s = (r, s')"
  then obtain d where "m (fsys s) = (r, d)" "s' = s\<lparr>fsys := d\<rparr>" by (auto simp: at_disk_def split: prod.splits)
  then show "fetch_change root q (lookup (fsys s) q) (lookup (fsys s') q)"
    using onlyD(1) [OF assms(1)] assms(2) by (cases "q \<in> S") (auto simp: fetch_change_def)
qed

lemma fetches_create_dir_all: "fetches root (at_disk (fs_create_dir_all (root @ xs)))"
proof (rule fetchesI)
  fix s r s' q
  assume "at_disk (fs_create_dir_all (root @ xs)) s = (r, s')"
  then obtain d where d: "fs_create_dir_all (root @ xs) (fsys s) = (r, d)" "s' = s\<lparr>fsys := d\<rparr>"
    by (auto simp: at_disk_def split: prod.splits)
  show "fetch_change root q (lookup (fsys s) q) (lookup (fsys s') q)"
    using fs_create_dir_all_change [OF d(1), of q] d(2) ancestors_append [of q root xs] by (auto simp: fetch_change_def ancestors_iff)
qed

lemmas fetches_rules = fetches_bindS fetches_errS fetches_ret fetches_ignore fetches_stream

section \<open>The temporary file\<close>

lemma proper_temp_name: "proper_name n \<Longrightarrow> proper_name (temp_name n u)"
  using nat_str_chars [of u] by (auto simp: proper_name_def temp_name_def)

lemma temp_name_neq: "temp_name n u \<noteq> n"
proof
  assume "temp_name n u = n"
  then have "length (temp_name n u) = length n" by simp
  then show False by (simp add: temp_name_def)
qed

lemma temp_transfer_path_eq:
  assumes "proper_name n" and "temp_transfer_path (dir @ [Normal n]) s = (r, s')"
  shows "\<exists>u. r = Inr (dir @ [Normal (temp_name n u)])" and "s' = s\<lparr>fsys := snd (draw_u64 (fsys s))\<rparr>"
proof -
  have "path_parent (dir @ [Normal n]) = Some dir" "path_file_name (dir @ [Normal n]) = Some n"
    by (simp_all add: path_parent_def path_file_name_def)
  then show "\<exists>u. r = Inr (dir @ [Normal (temp_name n u)])" "s' = s\<lparr>fsys := snd (draw_u64 (fsys s))\<rparr>"
    using assms components_proper [OF proper_temp_name [OF assms(1)]]
    by (auto simp: temp_transfer_path_def path_join_def split: prod.splits)
qed

lemma only_copy: "only {q} (fs_copy p q)"
proof -
  have "only {q} (bindS (fs_create q) (\<lambda>_. bindS (fs_write q c) (\<lambda>_. fs_set_permissions q m)))" for c m
    by (intro only_rules)
  then show ?thesis unfolding only_def fs_copy_def by (auto simp: same_params_def split: sum.splits)
qed

section \<open>A tree stays below its destination\<close>

lemma strictly_below: "xs \<noteq> [] \<Longrightarrow> below root (root @ xs) \<and> root @ xs \<noteq> root"
  by (simp add: below_def)

lemma fetches_item_loop: "fetches root (item_loop J env (root @ xs) buf)" if "xs \<noteq> []"
proof (rule fetchesI)
  have append: "fetches root (at_disk (fs_append (root @ xs) data))" for data
    by (rule fetches_at_disk [OF only_fs_calls(8)]) (use strictly_below [OF that] in auto)
  fix s r s' q
  assume "item_loop J env (root @ xs) buf s = (r, s')"
  then show "fetch_change root q (lookup (fsys s) q) (lookup (fsys s') q)"
  proof (induction J env "root @ xs" buf s rule: item_loop.induct)
    case (1 J env buf s)
    note run = 1(2) and unfold = item_loop.simps [of J env "root @ xs" buf s]
    show ?case
    proof (cases "read_next_frame_into J buf (inp s)")
      case (Inl e)
      then show ?thesis using run by (simp add: unfold fetch_change_def)
    next
      case (Inr fr)
      obtain frame rest where fr: "fr = (frame, rest)" by (rule prod.exhaust)
      show ?thesis
      proof (cases "item_event_of frame")
        case (ItemChunk chunk)
        let ?w = "at_disk (fs_append (root @ xs) (str_of_bytes chunk)) (s\<lparr>inp := rest\<rparr>)"
        have w: "fetch_change root q (lookup (fsys s) q) (lookup (fsys (snd ?w)) q)"
          using fetchesD [OF append surjective_pairing, where s = "s\<lparr>inp := rest\<rparr>" and q = q] by simp
        show ?thesis
        proof (cases "fst ?w")
          case (Inl e)
          then show ?thesis using run Inr fr ItemChunk w by (simp add: unfold Let_def)
        next
          case Inr2: (Inr v)
          then have "item_loop J env (root @ xs) chunk (snd ?w) = (r, s')"
            using run Inr fr ItemChunk by (simp add: unfold Let_def)
          from 1(1) [OF Inr fr [symmetric] ItemChunk refl Inr2 this] w show ?thesis using fetch_change_trans by blast
        qed
      qed (use run Inr fr in \<open>auto simp: unfold fetch_change_def\<close>)
    qed
  qed
qed

lemma fetches_persist:
  assumes "xs \<noteq> []" and "ys \<noteq> []" and "path_parent (root @ ys) = Some (root @ zs)"
  shows "fetches root (persist_temp_file (root @ xs) (root @ ys))"
proof -
  note b = strictly_below [OF assms(1)] strictly_below [OF assms(2)]
  have mv: "fetches root (at_disk (fs_rename (root @ xs) (root @ ys)))"
    by (rule fetches_at_disk [OF only_fs_calls(6)]) (use b in auto)
  have rm: "fetches root (at_disk (fs_remove_file (root @ xs)))"
    by (rule fetches_at_disk [OF only_fs_calls(7)]) (use b in auto)
  have cp: "fetches root (at_disk (fs_copy (root @ xs) (root @ ys)))"
    by (rule fetches_at_disk [OF only_copy]) (use b in auto)
  have "fetches root (\<lambda>s. case at_disk (fs_rename (root @ xs) (root @ ys)) s of
       (Inr _, s1) \<Rightarrow> (Inr (), s1)
     | (Inl _, s1) \<Rightarrow>
         bindS (errS (FileIo ''persist temp file'' (root @ ys)) (at_disk (fs_copy (root @ xs) (root @ ys)))) (\<lambda>_.
         ignoreS (at_disk (fs_remove_file (root @ xs)))) s1)" (is "fetches root ?body")
  proof -
    have "?body = (\<lambda>s. case at_disk (fs_rename (root @ xs) (root @ ys)) s of (r, s1) \<Rightarrow>
        (case r of Inr _ \<Rightarrow> retS () | Inl _ \<Rightarrow>
         bindS (errS (FileIo ''persist temp file'' (root @ ys)) (at_disk (fs_copy (root @ xs) (root @ ys)))) (\<lambda>_.
         ignoreS (at_disk (fs_remove_file (root @ xs))))) s1)"
      by (auto simp: fun_eq_iff split: prod.splits sum.splits)
    then show ?thesis
      by (auto intro!: fetches_then mv cp rm fetches_rules split: sum.splits)
  qed
  then show ?thesis
    unfolding persist_temp_file_def assms(3) by (auto intro!: fetches_rules fetches_create_dir_all)
qed

lemma fetches_apply_mode: "ys \<noteq> [] \<Longrightarrow> fetches root (apply_mode (root @ ys) mode)"
proof -
  assume "ys \<noteq> []"
  then have "fetches root (at_disk (fs_set_permissions (root @ ys) m))" for m
    by (intro fetches_at_disk [OF only_fs_calls(2)]) (use strictly_below in auto)
  then show ?thesis unfolding apply_mode_def by (auto intro: fetches_rules split: option.splits)
qed

lemma fetches_stored:
  assumes "xs \<noteq> []" and "ys \<noteq> []" and "path_parent (root @ ys) = Some (root @ zs)" and "fetches root loop"
  shows "fetches root (\<lambda>s. case bindS loop (\<lambda>_. errS (FileIo ''flush temp download file'' (root @ xs)) (at_disk (fs_sync (root @ xs)))) s of
       (Inl err, s1) \<Rightarrow> (Inl err, snd (at_disk (fs_remove_file (root @ xs)) s1))
     | (Inr _, s1) \<Rightarrow>
         bindS (persist_temp_file (root @ xs) (root @ ys)) (\<lambda>_. apply_mode (root @ ys) mode) s1)" (is "fetches root ?body")
proof -
  note b = strictly_below [OF assms(1)]
  have sync: "fetches root (at_disk (fs_sync (root @ xs)))" and rm: "fetches root (at_disk (fs_remove_file (root @ xs)))"
    by (rule fetches_at_disk [OF only_fs_calls(5)], use b in auto) (rule fetches_at_disk [OF only_fs_calls(7)], use b in auto)
  have rm': "fetches root (\<lambda>s1. (Inl err, snd (at_disk (fs_remove_file (root @ xs)) s1)))" for err
    using rm unfolding fetches_def by (metis prod.collapse prod.inject)
  have "?body = (\<lambda>s. case bindS loop (\<lambda>_. errS (FileIo ''flush temp download file'' (root @ xs)) (at_disk (fs_sync (root @ xs)))) s of
     (r, s1) \<Rightarrow> (case r of Inl err \<Rightarrow> \<lambda>s1. (Inl err, snd (at_disk (fs_remove_file (root @ xs)) s1))
        | Inr _ \<Rightarrow> bindS (persist_temp_file (root @ xs) (root @ ys)) (\<lambda>_. apply_mode (root @ ys) mode)) s1)"
    by (auto simp: fun_eq_iff split: prod.splits sum.splits)
  then show ?thesis
    by (auto intro!: fetches_then fetches_rules assms(4) sync rm' fetches_persist [OF assms(1-3)] fetches_apply_mode [OF assms(2)]
        split: sum.splits)
qed

lemma fetches_store_item:
  assumes "xs \<noteq> []" and "\<forall>f \<in> set xs. proper_name f"
  shows "fetches root (store_item J env (root @ map Normal xs) mode)"
proof -
  let ?dir = "root @ map Normal (butlast xs)" and ?p = "root @ map Normal xs"
  have split: "?p = ?dir @ [Normal (last xs)]" using assms(1) by (metis append.assoc append_butlast_last_id list.simps(8,9) map_append)
  have parent: "path_parent ?p = Some ?dir" by (simp add: split path_parent_def butlast_append)
  have mk: "fetches root (at_disk (fs_create_dir_all ?dir))" by (rule fetches_create_dir_all)
  have rest: "fetches root (bindS (errS (FileIo ''create temp download file'' t) (at_disk (fs_create t))) (\<lambda>_ s.
     case bindS (item_loop J env t []) (\<lambda>_.
            errS (FileIo ''flush temp download file'' t) (at_disk (fs_sync t))) s of
       (Inl err, s1) \<Rightarrow> (Inl err, snd (at_disk (fs_remove_file t) s1))
     | (Inr _, s1) \<Rightarrow> bindS (persist_temp_file t ?p) (\<lambda>_. apply_mode ?p mode) s1))"
    if t: "t = root @ map Normal (butlast xs) @ [Normal u]" for t u
  proof -
    have "fetches root (at_disk (fs_create t))"
      unfolding t by (rule fetches_at_disk [OF only_fs_calls(3)]) (use strictly_below in auto)
    then show ?thesis unfolding t
      using assms(1) parent by (intro fetches_bindS fetches_errS fetches_stored fetches_item_loop) simp_all
  qed
  have temp: "fetches root (temp_transfer_path ?p)"
    by (rule fetches_same) (auto simp: temp_transfer_path_def draw_u64_def fun_eq_iff)
  have named: "\<exists>u. v = root @ map Normal (butlast xs) @ [Normal u]" if "temp_transfer_path ?p s = (Inr v, s1)" for v s s1
    using temp_transfer_path_eq(1) [of "last xs" ?dir s "Inr v" s1] that assms by (auto simp: split)
  show ?thesis unfolding store_item_def parent option.case
  proof (rule fetches_bindS [OF fetches_ignore [OF mk]], rule fetches_bindS [OF temp])
    fix v s s1
    assume "temp_transfer_path ?p s = (Inr v, s1)"
    then obtain u where "v = root @ map Normal (butlast xs) @ [Normal u]" using named by blast
    then show "fetches root (bindS (errS (FileIo ''create temp download file'' v) (at_disk (fs_create v))) (\<lambda>_ s.
     case bindS (item_loop J env v []) (\<lambda>_.
            errS (FileIo ''flush temp download file'' v) (at_disk (fs_sync v))) s of
       (Inl err, s1) \<Rightarrow> (Inl err, snd (at_disk (fs_remove_file v) s1))
     | (Inr _, s1) \<Rightarrow> bindS (persist_temp_file v ?p) (\<lambda>_. apply_mode ?p mode) s1))" by (rule rest)
  qed
qed

lemma fetches_handle_item: "fetches root (handle_item J env root header)"
proof (cases "sanitize_remote_path (eh_path header)")
  case (Inl e)
  then show ?thesis by (simp add: handle_item_def fetches_ret)
next
  case (Inr p)
  then obtain xs where xs: "p = map Normal xs" "xs \<noteq> []" "\<forall>f \<in> set xs. proper_name f"
    using descend_names [of "[]"] components_Normal_proper by (force simp: sanitize_remote_path_eq_Inr_iff)
  then have "path_join root p = root @ map Normal xs" by (cases xs) (simp_all add: path_join_def)
  then show ?thesis using Inr fetches_store_item [OF xs(2,3)] fetches_create_dir_all [of root "map Normal xs"]
    by (simp add: handle_item_def fetches_errS Let_def)
qed

lemma fetches_loop: "fetches root (fetch_loop fuel J env root)"
proof (induction fuel)
  case 0
  then show ?case by (rule fetches_same) simp
next
  case (Suc fuel)
  show ?case
  proof (rule fetchesI)
    fix s r s' q
    assume run: "fetch_loop (Suc fuel) J env root s = (r, s')"
    show "fetch_change root q (lookup (fsys s) q) (lookup (fsys s') q)"
    proof (cases "read_next_frame_into J [] (inp s)")
      case (Inl e)
      then show ?thesis using run by (simp add: fetch_change_def)
    next
      case (Inr fr)
      obtain frame rest where fr: "fr = (frame, rest)" by (rule prod.exhaust)
      have "fetches root (bindS (handle_item J env root header) (\<lambda>_. fetch_loop fuel J env root))" for header
        by (intro fetches_bindS fetches_handle_item Suc)
      from fetchesD [OF this, where s = "s\<lparr>inp := rest\<rparr>"] show ?thesis using run Inr fr
        by (cases "fetch_event_of frame") (auto simp: fetch_change_def)
    qed
  qed
qed

section \<open>The loop over the entries ends\<close>

definition consumes :: "(srv \<Rightarrow> 'r \<times> srv) \<Rightarrow> bool" where
  "consumes m \<longleftrightarrow> (\<forall>s. length (inp (snd (m s))) \<le> length (inp s))"

lemma consumesD: "consumes m \<Longrightarrow> m s = (r, s') \<Longrightarrow> length (inp s') \<le> length (inp s)"
  by (metis consumes_def snd_conv)

lemma consumes_cases:
  assumes "consumes m" and "\<And>e. consumes (f e)" and "\<And>v. consumes (g v)"
  shows "consumes (\<lambda>s. case m s of (Inl e, s1) \<Rightarrow> f e s1 | (Inr v, s1) \<Rightarrow> g v s1)"
  unfolding consumes_def
proof
  fix s
  obtain r s1 where m: "m s = (r, s1)" by (rule prod.exhaust)
  have "length (inp (snd (f e s1))) \<le> length (inp s1)" "length (inp (snd (g v s1))) \<le> length (inp s1)" for e v
    using assms(2,3) by (simp_all add: consumes_def)
  then show "length (inp (snd (case m s of (Inl e, s1) \<Rightarrow> f e s1 | (Inr v, s1) \<Rightarrow> g v s1))) \<le> length (inp s)"
    using consumesD [OF assms(1) m] m by (cases r) (auto intro: le_trans)
qed

lemma consumes_bindS: "consumes m \<Longrightarrow> (\<And>v. consumes (f v)) \<Longrightarrow> consumes (bindS m f)"
  unfolding bindS_def by (rule consumes_cases) (simp_all add: consumes_def)

lemma inp_at_disk [simp]: "inp (snd (at_disk m s)) = inp s"
  by (simp add: at_disk_def split: prod.split)

lemma consumes_ops:
  "consumes (retS v)" "consumes (failS e)" "consumes (at_disk call)" "consumes (temp_transfer_path p)"
  "consumes m \<Longrightarrow> consumes (errS g m)" "consumes m \<Longrightarrow> consumes (ignoreS m)" "consumes (\<lambda>s1. (w, s1))"
  "consumes (\<lambda>s1. (w, snd (at_disk call s1)))"
  by (simp_all add: consumes_def temp_transfer_path_def errS_def ignoreS_def Let_def split: prod.split) (metis snd_conv)

lemma consumes_item_loop: "consumes (item_loop J env temp buf)"
  unfolding consumes_def
proof
  fix s
  show "length (inp (snd (item_loop J env temp buf s))) \<le> length (inp s)"
  proof (induction J env temp buf s rule: item_loop.induct)
    case (1 J env temp buf s)
    note unfold = item_loop.simps [of J env temp buf s]
    show ?case
    proof (cases "read_next_frame_into J buf (inp s)")
      case (Inl e)
      then show ?thesis by (simp add: unfold)
    next
      case (Inr fr)
      obtain frame rest where fr: "fr = (frame, rest)" by (rule prod.exhaust)
      have less: "length rest < length (inp s)" using read_next_frame_into_progress Inr fr by simp
      show ?thesis
      proof (cases "item_event_of frame")
        case (ItemChunk chunk)
        let ?w = "at_disk (fs_append temp (str_of_bytes chunk)) (s\<lparr>inp := rest\<rparr>)"
        show ?thesis using 1(1) [OF Inr fr [symmetric] ItemChunk refl] Inr fr ItemChunk less
          by (cases "fst ?w") (simp_all add: unfold Let_def)
      qed (use Inr fr less in \<open>simp_all add: unfold\<close>)
    qed
  qed
qed

lemma consumes_handle_item: "consumes (handle_item J env root header)"
proof -
  have persist: "consumes (persist_temp_file t p)" for t p
    unfolding persist_temp_file_def by (auto intro!: consumes_bindS consumes_ops consumes_cases split: option.split)
  have mode: "consumes (apply_mode p m)" for p m by (auto simp: apply_mode_def intro!: consumes_ops split: option.split)
  have "consumes (store_item J env p m)" for p m
    unfolding store_item_def
    by (auto intro!: consumes_bindS consumes_ops consumes_cases consumes_item_loop persist mode split: option.split)
  then show ?thesis unfolding handle_item_def Let_def
    by (auto intro!: consumes_ops split: sum.split)
qed

lemma fetch_loop_fuel:
  "length (inp s) \<le> fuel \<Longrightarrow> fetch_loop fuel J env root s = fetch_run J env root s"
proof (induction "length (inp s)" arbitrary: s fuel rule: less_induct)
  case less
  show ?case
  proof (cases "inp s")
    case Nil
    then show ?thesis by (cases fuel) (simp_all add: fetch_run_def read_next_frame_into_empty)
  next
    case (Cons b bs)
    then obtain f k where f: "fuel = Suc f" "length (inp s) = Suc k" "k \<le> f" using less.prems by (cases fuel) auto
    have same: "fetch_loop f J env root s1 = fetch_loop k J env root s1" if "length (inp s1) \<le> k" for s1
      using less.hyps [of s1 f] less.hyps [of s1 k] that f by simp
    show ?thesis
    proof (cases "read_next_frame_into J [] (inp s)")
      case (Inr fr)
      obtain frame rest where fr: "fr = (frame, rest)" by (rule prod.exhaust)
      have "length rest \<le> k" using read_next_frame_into_progress Inr fr f(2) by fastforce
      then have same': "fetch_loop f J env root s1 = fetch_loop k J env root s1"
        if "handle_item J env root header (s\<lparr>inp := rest\<rparr>) = (x, s1)" for header x s1
        using consumesD [OF consumes_handle_item that] by (intro same) simp
      then show ?thesis using Inr fr f
        by (cases "fetch_event_of frame") (auto simp: fetch_run_def bindS_def split: sum.splits prod.splits)
    qed (use f in \<open>simp add: fetch_run_def\<close>)
  qed
qed

section \<open>One file\<close>

lemma onlyS_at_disk: "only S m \<Longrightarrow> onlyS S (at_disk m)"
proof -
  assume m: "only S m"
  show ?thesis unfolding onlyS_def
  proof (intro allI impI)
    fix s r s'
    assume "at_disk m s = (r, s')"
    then obtain d where "m (fsys s) = (r, d)" "s' = s\<lparr>fsys := d\<rparr>" by (auto simp: at_disk_def split: prod.splits)
    then show "(\<forall>q. q \<notin> S \<longrightarrow> lookup (fsys s') q = lookup (fsys s) q) \<and> faults (fsys s') = faults (fsys s)
        \<and> length (inp s') \<le> length (inp s)"
      using onlyD [OF m] by auto
  qed
qed

lemma at_disk_fsys [simp]: "fsys (snd (at_disk m s)) = snd (m (fsys s))"
  by (simp add: at_disk_def split: prod.split)

lemma get_loop_only: "get_loop J env remote expected temp buf received s = (r, s') \<Longrightarrow> q \<noteq> temp \<Longrightarrow> lookup (fsys s') q = lookup (fsys s) q"
proof (induction J env remote expected temp buf received s rule: get_loop.induct)
  case (1 J env remote expected temp buf received s)
  note run = 1(2) and unfold = get_loop.simps [of J env remote expected temp buf received s]
  show ?case
  proof (cases "read_next_frame_into J buf (inp s)")
    case (Inl e)
    then show ?thesis using run by (simp add: unfold)
  next
    case (Inr fr)
    obtain frame rest where fr: "fr = (frame, rest)" by (rule prod.exhaust)
    show ?thesis
    proof (cases "get_event_of frame")
      case (GotChunk chunk)
      let ?w = "at_disk (fs_append temp (str_of_bytes chunk)) (s\<lparr>inp := rest\<rparr>)"
      have w: "lookup (fsys (snd ?w)) q = lookup (fsys s) q"
        using onlyD(1) [OF only_fs_calls(8) [of temp "str_of_bytes chunk"] surjective_pairing, of q "fsys s"] 1(3) by simp
      show ?thesis
      proof (cases "fst ?w")
        case (Inl e)
        then show ?thesis using run Inr fr GotChunk w by (simp add: unfold Let_def)
      next
        case Inr2: (Inr v)
        then have "get_loop J env remote expected temp chunk (received + of_nat (length chunk)) (snd ?w) = (r, s')"
          using run Inr fr GotChunk by (simp add: unfold Let_def)
        with 1(1) [OF Inr fr [symmetric] GotChunk refl Inr2 _ 1(3)] w show ?thesis by simp
      qed
    qed (use run Inr fr in \<open>auto simp: unfold split: if_splits\<close>)
  qed
qed

text \<open>The stream of a complete download.\<close>

definition download_stream :: "serde_json \<Rightarrow> bytes \<Rightarrow> bytes list \<Rightarrow> transfer_complete \<Rightarrow> bytes \<Rightarrow> bool" where
  "download_stream J stream chunks complete rest \<longleftrightarrow>
     read_n (read_next_frame J) (Suc (length chunks)) stream = Inr (map GetChunk chunks @ [GetComplete complete], rest)"

lemma download_stream_cases:
  "download_stream J s [] c rest \<longleftrightarrow> read_next_frame J s = Inr (GetComplete c, rest)"
  "download_stream J s (x # xs) c rest \<longleftrightarrow>
     (\<exists>s1. read_next_frame J s = Inr (GetChunk x, s1) \<and> download_stream J s1 xs c rest)"
  by (auto simp: download_stream_def and_then_eq_Inr_iff split: prod.splits)

lemma get_event_frames:
  "get_event_of b = GotChunk chunk \<Longrightarrow> own_frame b = GetChunk chunk"
  "get_event_of b = GotComplete c \<Longrightarrow> own_frame b = GetComplete c"
  by (cases b; auto split: transfer_frame.splits)+

lemma get_loop_content:
  "get_loop J env remote expected temp buf received s = (Inr (), s') \<Longrightarrow> lookup (fsys s) temp = Some (File c m) \<Longrightarrow>
     received = of_nat (length c) \<Longrightarrow>
     \<exists>chunks comp. download_stream J (inp s) chunks comp (inp s')
       \<and> lookup (fsys s') temp = Some (File (c @ str_of_bytes (concat chunks)) m)
       \<and> of_nat (length (c @ str_of_bytes (concat chunks))) = expected \<and> tc_size comp = expected"
proof (induction J env remote expected temp buf received s arbitrary: c rule: get_loop.induct)
  case (1 J env remote expected temp buf received s)
  note unfold = get_loop.simps [of J env remote expected temp buf received s]
  obtain frame rest where fr: "read_next_frame_into J buf (inp s) = Inr (frame, rest)"
    using 1(2) by (cases "read_next_frame_into J buf (inp s)") (auto simp: unfold)
  note rd = read_next_frame_of_into [OF fr]
  show ?case
  proof (cases "get_event_of frame")
    case (GotChunk chunk)
    let ?w = "at_disk (fs_append temp (str_of_bytes chunk)) (s\<lparr>inp := rest\<rparr>)"
    obtain v where nf: "fst ?w = Inr v"
      and rec: "get_loop J env remote expected temp chunk (received + of_nat (length chunk)) (snd ?w) = (Inr (), s')"
      using 1(2) fr GotChunk by (cases "fst ?w") (auto simp: unfold Let_def)
    have "lookup (fsys (snd ?w)) temp = Some (File (c @ str_of_bytes chunk) m)"
      using nf 1(3) by (auto simp: at_disk_def fs_append_def split: if_splits)
    moreover have "received + of_nat (length chunk) = of_nat (length (c @ str_of_bytes chunk))" using 1(4) by simp
    ultimately obtain chunks comp where ih: "download_stream J rest chunks comp (inp s')"
      "lookup (fsys s') temp = Some (File ((c @ str_of_bytes chunk) @ str_of_bytes (concat chunks)) m)"
      "of_nat (length ((c @ str_of_bytes chunk) @ str_of_bytes (concat chunks))) = expected" "tc_size comp = expected"
      using 1(1) [OF fr refl GotChunk refl nf rec] by auto
    then show ?thesis
      using rd get_event_frames(1) [OF GotChunk]
      by (intro exI [of _ "chunk # chunks"] exI [of _ comp]) (simp add: str_of_bytes_append download_stream_cases)
  next
    case (GotComplete comp)
    then have "tc_size comp = expected" "received = expected" "s' = s\<lparr>inp := rest\<rparr>"
      using 1(2) fr by (auto simp: unfold split: if_splits)
    then show ?thesis using rd get_event_frames(2) [OF GotComplete] 1(3,4)
      by (intro exI [of _ "[]"] exI [of _ comp]) (simp add: str_of_bytes_def download_stream_cases)
  qed (use 1(2) fr in \<open>simp_all add: unfold\<close>)
qed

text \<open>Copying gives the target the content; only the target changes.\<close>

lemma fs_copy_content:
  assumes "fs_copy p q d = (Inr (), d')" and "lookup d p = Some (File c m)"
  shows "\<exists>m'. lookup d' q = Some (File c m')"
proof -
  have "fs_read d p = Inr c"
    using assms by (auto simp: fs_copy_def fs_read_def split: sum.splits if_splits)
  then obtain d1 d2 where w: "fs_write q c d1 = (Inr (), d2)" and "fs_set_permissions q (node_mode (the (lookup d p))) d2 = (Inr (), d')"
    using assms(1) by (auto simp: fs_copy_def bindS_eq_iff)
  then show ?thesis using fs_write_content [OF w] by (auto simp: fs_set_permissions_def split: if_splits option.splits)
qed

lemma persist_temp_file_cases:
  assumes "persist_temp_file t (dir @ [Normal n]) s = (r, s')" and "t = dir @ [Normal k]" and "k \<noteq> n"
    and "lookup (fsys s) t = Some (File c m)"
  obtains "r = Inr ()" "\<exists>m'. lookup (fsys s') (dir @ [Normal n]) = Some (File c m')"
  | e where "r = Inl (FileIo ''create destination directory'' dir e)"
      "lookup (fsys s') (dir @ [Normal n]) = lookup (fsys s) (dir @ [Normal n])"
  | e where "r = Inl (FileIo ''persist temp file'' (dir @ [Normal n]) e)"
proof -
  let ?p = "dir @ [Normal n]"
  obtain r1 s1 where mk: "at_disk (fs_create_dir_all dir) s = (r1, s1)" by (rule prod.exhaust)
  have keep: "lookup (fsys s1) (dir @ [c]) = lookup (fsys s) (dir @ [c])" for c
    using onlySD(1) [OF onlyS_at_disk [OF only_create_dir_all] mk] not_own_ancestor by blast
  have parent: "path_parent ?p = Some dir" by (simp add: path_parent_def)
  show thesis
  proof (cases r1)
    case (Inl e)
    then show thesis using that(2) [of e] assms(1) mk keep
      by (simp add: persist_temp_file_def parent bindS_def errS_def map_err_def)
  next
    case (Inr u)
    obtain r2 d where mv: "fs_rename t ?p (fsys s1) = (r2, d)" by (rule prod.exhaust)
    show thesis
    proof (cases r2)
      case Inr2: (Inr v)
      then have "s' = s1\<lparr>fsys := d\<rparr>" "r = Inr ()"
        using assms(1) mk Inr mv by (auto simp: persist_temp_file_def parent bindS_def errS_def map_err_def at_disk_def)
      then show thesis using that(1) fs_rename_moves [of t ?p "fsys s1" d] mv Inr2 assms(2-4) keep by auto
    next
      case (Inl e)
      then have d: "d = fsys s1" using fs_rename_fails mv by blast
      have "s1\<lparr>fsys := fsys s1\<rparr> = s1" by (cases s1) simp
      then have rest: "bindS (errS (FileIo ''persist temp file'' ?p) (at_disk (fs_copy t ?p))) (\<lambda>_.
           ignoreS (at_disk (fs_remove_file t))) s1 = (r, s')"
        using assms(1) mk Inr mv Inl d by (simp add: persist_temp_file_def parent bindS_def errS_def map_err_def at_disk_def)
      obtain r3 d3 where cp: "fs_copy t ?p (fsys s1) = (r3, d3)" by (rule prod.exhaust)
      show thesis
      proof (cases r3)
        case Inl3: (Inl e3)
        then show thesis using that(3) rest cp by (auto simp: bindS_def errS_def at_disk_def map_err_def)
      next
        case Inr3: (Inr v)
        then have "r = Inr ()" "fsys s' = snd (fs_remove_file t d3)"
          using rest cp by (auto simp: bindS_def errS_def at_disk_def map_err_def ignoreS_def split: prod.splits)
        moreover have "lookup (snd (fs_remove_file t d3)) ?p = lookup d3 ?p"
          using onlyD(1) [OF only_fs_calls(7) surjective_pairing] assms(2,3) by auto
        ultimately show thesis using that(1) fs_copy_content [of t ?p "fsys s1" d3] cp Inr3 assms(2,4) keep by auto
      qed
    qed
  qed
qed

lemma apply_mode_file:
  assumes "apply_mode p mode s = (r, s')" and "lookup (fsys s) p = Some (File c m)"
  shows "r = Inr () \<and> (\<exists>m'. lookup (fsys s') p = Some (File c m'))"
  using assms by (cases mode)
    (auto simp: apply_mode_def ignoreS_def at_disk_def fs_set_permissions_def split: if_splits prod.splits option.splits)

definition persist_error :: "path \<Rightarrow> client_error + unit \<Rightarrow> bool" where
  "persist_error p r \<longleftrightarrow> (case r of Inl (FileIo op q e) \<Rightarrow> op = ''persist temp file'' \<and> q = p | _ \<Rightarrow> False)"

text \<open>What the loop leaves in the temporary file \<open>t\<close>, and that the destination is untouched by it.\<close>

lemma get_loop_synced:
  assumes "bindS (get_loop J env remote expected t [] 0) (\<lambda>_. errS g (at_disk (fs_sync t))) s = (r, s')"
    and "lookup (fsys s) t = Some (File [] m)"
  shows "q \<noteq> t \<Longrightarrow> lookup (fsys s') q = lookup (fsys s) q"
    and "r = Inr v \<Longrightarrow> \<exists>chunks comp rest. download_stream J (inp s) chunks comp rest
        \<and> of_nat (length (concat chunks)) = expected \<and> tc_size comp = expected
        \<and> lookup (fsys s') t = Some (File (str_of_bytes (concat chunks)) m)"
proof -
  obtain r1 s1 where gl: "get_loop J env remote expected t [] 0 s = (r1, s1)" by (rule prod.exhaust)
  have s1: "fsys s' = fsys s1" and ok: "r = Inr v \<Longrightarrow> r1 = Inr ()"
    using assms(1) gl fs_sync_same [of t "fsys s1"]
    by (auto simp: bindS_def errS_def at_disk_def split: sum.splits prod.splits)
  show "lookup (fsys s') q = lookup (fsys s) q" if "q \<noteq> t" using get_loop_only [OF gl that] s1 by simp
  show "\<exists>chunks comp rest. download_stream J (inp s) chunks comp rest
        \<and> of_nat (length (concat chunks)) = expected \<and> tc_size comp = expected
        \<and> lookup (fsys s') t = Some (File (str_of_bytes (concat chunks)) m)" if "r = Inr v"
    using get_loop_content [of J env remote expected t "[]" 0 s s1 "[]" m] gl ok [OF that] assms(2) s1 by auto
qed

definition stored_download :: "serde_json \<Rightarrow> bytes \<Rightarrow> u64 \<Rightarrow> node option \<Rightarrow> bool" where
  "stored_download J stream expected after \<longleftrightarrow>
     (\<exists>chunks comp rest m. download_stream J stream chunks comp rest \<and> of_nat (length (concat chunks)) = expected
        \<and> tc_size comp = expected \<and> after = Some (File (str_of_bytes (concat chunks)) m))"

lemma store_temp_result:
  assumes run: "(case bindS (get_loop J env remote expected t [] 0) (\<lambda>_. errS g (at_disk (fs_sync t))) s of
       (Inl err, s1) \<Rightarrow> (Inl err, snd (at_disk (fs_remove_file t) s1))
     | (Inr _, s1) \<Rightarrow> bindS (persist_temp_file t (dir @ [Normal n])) (\<lambda>_. apply_mode (dir @ [Normal n]) mode) s1) = (r, s')"
    and t: "t = dir @ [Normal k]" "k \<noteq> n" and empty: "lookup (fsys s) t = Some (File [] m)"
  shows "if r = Inr () then stored_download J (inp s) expected (lookup (fsys s') (dir @ [Normal n]))
    else persist_error (dir @ [Normal n]) r \<or> lookup (fsys s') (dir @ [Normal n]) = lookup (fsys s) (dir @ [Normal n])"
proof -
  let ?p = "dir @ [Normal n]"
  obtain rb s4 where body: "bindS (get_loop J env remote expected t [] 0) (\<lambda>_. errS g (at_disk (fs_sync t))) s = (rb, s4)"
    by (rule prod.exhaust)
  have p4: "lookup (fsys s4) ?p = lookup (fsys s) ?p" by (rule get_loop_synced(1) [OF body empty]) (use t in auto)
  show ?thesis
  proof (cases rb)
    case (Inl e)
    then have "r = Inl e" "s' = snd (at_disk (fs_remove_file t) s4)" using run body by simp_all
    then show ?thesis using p4 t onlySD(1) [OF onlyS_at_disk [OF only_fs_calls(7)] surjective_pairing, of ?p t s4] by auto
  next
    case (Inr v)
    then have rest: "bindS (persist_temp_file t ?p) (\<lambda>_. apply_mode ?p mode) s4 = (r, s')" using run body by simp
    obtain chunks comp rst where st: "download_stream J (inp s) chunks comp rst" "of_nat (length (concat chunks)) = expected"
      "tc_size comp = expected" "lookup (fsys s4) t = Some (File (str_of_bytes (concat chunks)) m)"
      using get_loop_synced(2) [OF body empty Inr] by blast
    obtain rp s6 where ps: "persist_temp_file t ?p s4 = (rp, s6)" by (rule prod.exhaust)
    from ps t st(4) show ?thesis
    proof (cases rule: persist_temp_file_cases)
      case 1
      then have "apply_mode ?p mode s6 = (r, s')" using rest ps by (simp add: bindS_Inr)
      then show ?thesis using 1(2) apply_mode_file st(1-3) unfolding stored_download_def by (metis (no_types, lifting))
    next
      case (2 e)
      then show ?thesis using rest ps p4 by (auto simp: bindS_def)
    next
      case (3 e)
      then show ?thesis using rest ps by (auto simp: bindS_def persist_error_def)
    qed
  qed
qed

lemma store_download_result:
  assumes "store_download J env remote (dir @ [Normal n]) expected mode s = (r, s')" and "proper_name n"
  shows "if r = Inr () then stored_download J (inp s) expected (lookup (fsys s') (dir @ [Normal n]))
    else persist_error (dir @ [Normal n]) r \<or> lookup (fsys s') (dir @ [Normal n]) = lookup (fsys s) (dir @ [Normal n])"
proof -
  let ?p = "dir @ [Normal n]"
  have parent: "path_parent ?p = Some dir" by (simp add: path_parent_def)
  obtain rt s1 where tp: "temp_transfer_path ?p s = (rt, s1)" by (rule prod.exhaust)
  obtain u where rt: "rt = Inr (dir @ [Normal (temp_name n u)])" and s1: "s1 = s\<lparr>fsys := snd (draw_u64 (fsys s))\<rparr>"
    using temp_transfer_path_eq [OF assms(2) tp] by blast
  let ?t = "dir @ [Normal (temp_name n u)]"
  obtain s2 where mk: "ignoreS (at_disk (fs_create_dir_all dir)) s1 = (Inr () :: client_error + unit, s2)" and s2: "s2 = snd (at_disk (fs_create_dir_all dir) s1)"
    by (simp add: ignoreS_def)
  have neq: "?t \<noteq> ?p" using temp_name_neq by simp
  have p2: "lookup (fsys s2) ?p = lookup (fsys s) ?p" "inp s2 = inp s"
    using onlySD(1) [OF onlyS_at_disk [OF only_create_dir_all] surjective_pairing, of ?p dir s1] not_own_ancestor s1 s2 by simp_all
  obtain rc s3 where cr: "at_disk (fs_create ?t) s2 = (rc, s3)" by (rule prod.exhaust)
  have p3: "lookup (fsys s3) ?p = lookup (fsys s) ?p"
    using onlySD(1) [OF onlyS_at_disk [OF only_fs_calls(3)] cr] neq p2 by simp
  note run = assms(1) [unfolded store_download_def parent option.case bindS_Inr [where m = "temp_transfer_path ?p", OF tp [unfolded rt]]
      bindS_Inr [where m = "ignoreS _", OF mk]]
  show ?thesis
  proof (cases rc)
    case (Inl e)
    then have "errS (FileIo ''create temp download file'' ?t) (at_disk (fs_create ?t)) s2 = (Inl (FileIo ''create temp download file'' ?t e), s3)"
      using cr by (simp add: errS_def map_err_def)
    then have "r = Inl (FileIo ''create temp download file'' ?t e)" "s' = s3" using run by (simp_all add: bindS_def)
    then show ?thesis using p3 by simp
  next
    case (Inr v)
    then have "errS (FileIo ''create temp download file'' ?t) (at_disk (fs_create ?t)) s2 = (Inr v, s3)"
      using cr by (simp add: errS_def map_err_def)
    note run3 = run [unfolded bindS_Inr [where m = "errS _ (at_disk (fs_create _))", OF this]]
    obtain m where "lookup (fsys s3) ?t = Some (File [] m)" "inp s3 = inp s"
      using cr Inr p2(2) by (auto simp: at_disk_def fs_create_def split: if_splits option.splits node.splits prod.splits)
    then show ?thesis using store_temp_result [OF run3 refl temp_name_neq] p3 by (simp split: if_splits)
  qed
qed

text \<open>A complete download: a ready frame, then as many bytes as it announces in chunks, then a completion frame with that number.\<close>

definition complete_download :: "serde_json \<Rightarrow> bytes \<Rightarrow> node option \<Rightarrow> bool" where
  "complete_download J stream after \<longleftrightarrow>
     (\<exists>ready X. read_next_frame J stream = Inr (GetReady ready, X) \<and> stored_download J X (tr_size ready) after)"

lemma open_stream_keeps: "open_transfer_stream env u s = (r, s') \<Longrightarrow> s' = s"
  by (auto simp: open_transfer_stream_def split: if_splits)

lemma download_file_result:
  assumes "download_file_with_progress J env remote (dir @ [Normal n]) s = (r, s')" and "proper_name n"
  shows "if r = Inr () then complete_download J (inp s) (lookup (fsys s') (dir @ [Normal n]))
    else persist_error (dir @ [Normal n]) r \<or> lookup (fsys s') (dir @ [Normal n]) = lookup (fsys s) (dir @ [Normal n])"
proof -
  let ?p = "dir @ [Normal n]"
  let ?req = "write_get_request J \<lparr>gr_path = normalize_path_separators (path_display remote), gr_recursive = False\<rparr>"
  show ?thesis
  proof (cases "remote = [] \<or> \<not> has_connection env \<or> \<not> open_bi env \<or> (\<forall>s1. put_frame ?req s \<noteq> (Inr (), s1))")
    case True
    then have "fsys s' = fsys s \<and> r \<noteq> Inr ()"
    proof (elim disjE)
      assume no: "\<forall>s1. put_frame ?req s \<noteq> (Inr (), s1)"
      obtain x s1 where pf: "put_frame ?req s = (x, s1)" by (rule prod.exhaust)
      then obtain e where "x = Inl e" using no by (cases x) auto
      then have "errS ClientTransport (put_frame ?req) s = (Inl (ClientTransport e), s1)" using pf by (simp add: errS_result_iffs)
      then show ?thesis using assms(1) put_frame_keeps [OF pf]
        by (auto simp: download_file_with_progress_def bindS_Inr [where m = "retS _"] bindS_Inl [where m = "failS _"]
          bindS_Inl [where m = "errS _ (put_frame _)"] open_transfer_stream_def split: if_splits)
    qed (use assms(1) in \<open>auto simp: download_file_with_progress_def open_transfer_stream_def bindS_Inl [where m = "failS _"] split: if_splits\<close>)
    then show ?thesis by simp
  next
    case False
    then obtain s1 where s1: "put_frame ?req s = (Inr (), s1)" by blast
    have k: "fsys s1 = fsys s" "inp s1 = inp s" using put_frame_keeps [OF s1] by simp_all
    have run: "bindS (errS ClientTransport (take_frame J)) (check_get_ready J env remote ?p) s1 = (r, s')"
      using assms(1) False s1
      by (simp add: download_file_with_progress_def open_transfer_stream_def bindS_def [where m = "retS _"]
          bindS_def [where m = "errS _ (put_frame _)"] errS_def [where m = "put_frame _"] map_err_def)
    show ?thesis
    proof (cases "read_next_frame J (inp s)")
      case (Inl e)
      then have t: "errS ClientTransport (take_frame J) s1 = (Inl (ClientTransport e), s1)"
        using k by (simp add: errS_result_iffs take_frame_def)
      show ?thesis using run [unfolded bindS_Inl [where m = "errS _ (take_frame _)", OF t]] k by auto
    next
      case (Inr fX)
      obtain f X where fX: "fX = (f, X)" by (rule prod.exhaust)
      have t: "errS ClientTransport (take_frame J) s1 = (Inr f, s1\<lparr>inp := X\<rparr>)"
        using Inr fX k by (simp add: errS_result_iffs take_frame_def)
      note run = run [unfolded bindS_Inr [where m = "errS _ (take_frame _)", OF t]]
      show ?thesis
      proof (cases "\<exists>ready. f = GetReady ready")
        case True
        then obtain ready where ready: "f = GetReady ready" by blast
        then show ?thesis using store_download_result [of J env remote dir n "tr_size ready" "tr_mode ready" "s1\<lparr>inp := X\<rparr>" r s']
            run assms(2) Inr fX k by (auto simp: complete_download_def check_get_ready_def split: if_splits)
      next
        case False
        then show ?thesis using run k by (cases f) (auto simp: check_get_ready_def)
      qed
    qed
  qed
qed

text \<open>
  C5. A recursive download stays below its destination.  Whatever the server sends, whatever fails and for every path \<open>q\<close>: the
  client's disk is as before at \<open>q\<close>, or \<open>q\<close> is strictly below the local destination, or it is the destination or a
  directory above it that was missing and is a directory now.
\<close>

theorem recursive_download_confined:
  fixes J :: serde_json and env :: client_env and remote_root local_root :: path and s :: srv
  defines "s' \<equiv> snd (download_dir_with_progress J env remote_root local_root s)"
  shows "lookup (fsys s') q = lookup (fsys s) q \<or> below local_root q \<and> q \<noteq> local_root
    \<or> q \<in> set (ancestors local_root) \<and> lookup (fsys s) q = None \<and> is_dir_node (lookup (fsys s') q)"
proof -
  have "fetches local_root (fetch_run J env local_root)"
    unfolding fetch_run_def using fetchesD [OF fetches_loop] by (intro fetchesI) blast
  then have "fetches local_root (download_dir_with_progress J env remote_root local_root)"
    unfolding download_dir_with_progress_def
    by (intro fetches_bindS fetches_errS fetches_stream) (auto intro: fetches_ret split: transfer_frame.split)
  from fetchesD [OF this surjective_pairing, where s = s and q = q] show ?thesis by (simp add: s'_def fetch_change_def)
qed

end
