(* ===== verification/Download_End_To_End.thy ===== *)
theory Download_End_To_End
  imports Download_Safety Upload_End_To_End
begin

text \<open>
  The client's download and the server's transfer handler, joined by their streams: what a success that the client
  reports says of the local file, and that a run in which nothing fails succeeds on both sides.
\<close>

section \<open>The server's side\<close>

lemma replies_put_frame:
  assumes "f = encode_frame J fr" and "fr \<in> F"
  shows "replies J F (put_frame f)"
  using replies_send [OF assms] by (auto simp: send_put_frame replies_def errS_eq_iff)

lemma replies_stream_chunks: "replies J (range GetChunk) (stream_chunks short write_get_chunk p pos rest sent)"
proof (rule repliesI)
  fix s r s'
  show "stream_chunks short write_get_chunk p pos rest sent s = (r, s') \<Longrightarrow>
      \<exists>fs out. outp s' = outp s @ out \<and> encodes J fs out \<and> set fs \<subseteq> range GetChunk"
  proof (induction short "write_get_chunk" p pos rest sent s rule: stream_chunks.induct)
    case (1 short p pos rest sent s)
    note run = 1(2) and unfold = stream_chunks.simps [of short write_get_chunk p pos rest sent s]
    show ?case
    proof (cases "read_some short (fsys s) p pos rest")
      case (Inl e)
      then show ?thesis using run by (intro outputs_same) (simp add: unfold)
    next
      case (Inr chunk)
      obtain x s1 where pf: "put_frame (write_get_chunk (as_bytes chunk)) s = (x, s1)" by (rule prod.exhaust)
      have "write_get_chunk (as_bytes chunk) = encode_frame J (GetChunk (as_bytes chunk))" by simp
      note q1 = repliesD [OF replies_put_frame [OF this, of "range GetChunk"] pf]
      show ?thesis
      proof (cases "chunk = []")
        case True
        then show ?thesis using run Inr by (intro outputs_same) (simp add: unfold)
      next
        case False
        show ?thesis
        proof (cases x)
          case (Inl e)
          then show ?thesis using run Inr False pf q1 by (simp add: unfold)
        next
          case Inr1: (Inr v)
          then have "stream_chunks short write_get_chunk p (pos + length chunk) (drop (length chunk) rest) (sent + of_nat (length chunk)) s1 = (r, s')"
            using run Inr False pf by (simp add: unfold)
          from 1(1) [OF Inr False pf [symmetric] Inr1 this] outputs_trans [OF q1] show ?thesis by blast
        qed
      qed
    qed
  qed
qed

lemma replies_stream_node: "replies J (range GetChunk) (stream_node short write_get_chunk p n sent)"
proof (cases n)
  case (File c m)
  then show ?thesis using replies_stream_chunks [of J short p 0 c sent] by (simp add: replies_def stream_node_def)
next
  case (Dir m)
  then show ?thesis by (intro replies_quiet) (simp add: stream_node_def)
qed

abbreviation partial_answer :: "serde_json \<Rightarrow> srv \<Rightarrow> srv \<Rightarrow> bool" where
  "partial_answer J s s' \<equiv>
     \<exists>fs out. outp s' = outp s @ out \<and> encodes J fs out \<and> set fs \<subseteq> range FrameError \<union> range GetReady \<union> range GetChunk"

definition full_answer :: "serde_json \<Rightarrow> string \<Rightarrow> srv \<Rightarrow> srv \<Rightarrow> bool" where
  "full_answer J content s s' \<longleftrightarrow>
     (\<exists>ready a chunks out fin b. outp s' = outp s @ a @ out @ b \<and> encode_frame J (GetReady ready) = Inr a
        \<and> sent_as write_get_chunk chunks out \<and> concat chunks = as_bytes content \<and> encode_frame J (GetComplete fin) = Inr b)"

text \<open>The frames of a file that could be opened.\<close>

lemma send_content_outcome:
  assumes run: "bindS (send (write_get_ready J \<lparr>tr_size = expected, tr_mode = None\<rparr>)) (\<lambda>_.
        bindS (errS (download_error env) (stream_node short write_get_chunk src (File content mode) 0)) (\<lambda>_.
        send (write_get_complete J \<lparr>tc_size = expected\<rparr>))) s = (r, s')" (is "bindS ?ready (\<lambda>_. bindS ?st (\<lambda>_. ?fin)) s = _")
  shows "partial_answer J s s' \<or> r = Inr () \<and> full_answer J content s s'"
proof -
  let ?F = "range FrameError \<union> range GetReady \<union> range GetChunk"
  have q1: "replies J ?F ?ready" by (rule replies_send [where fr = "GetReady \<lparr>tr_size = expected, tr_mode = None\<rparr>"]) simp_all
  have q2: "replies J ?F ?st" by (rule replies_mono [OF replies_errS [OF replies_stream_node]]) simp
  consider (stopped) "partial_answer J s s'"
    | s1 s2 k where "?ready s = (Inr (), s1)" "stream_chunks short write_get_chunk src 0 content 0 s1 = (Inr k, s2)" "?fin s2 = (r, s')"
  proof -
    obtain x s1 where x: "?ready s = (x, s1)" by (rule prod.exhaust)
    obtain y s2 where y: "?st s1 = (y, s2)" by (rule prod.exhaust)
    note o1 = repliesD [OF q1 x] and o2 = repliesD [OF q2 y]
    show thesis
    proof (cases x)
      case (Inl e)
      then show thesis using that(1) run x o1 by (simp add: bindS_Inl [where m = "send _"])
    next
      case (Inr u)
      note run = run [unfolded bindS_Inr [where m = "send _", OF x [unfolded Inr]]]
      show thesis
      proof (cases y)
        case (Inl e)
        then show thesis using that(1) run y outputs_trans [OF o1 o2] by (simp add: bindS_Inl [where m = "errS _ _"])
      next
        case Inr2: (Inr k)
        then show thesis using that(2) [of s1 k s2] run x Inr y
          by (simp add: bindS_Inr [where m = "errS _ _"] errS_result_iffs stream_node_def)
      qed
    qed
  qed
  then show ?thesis
  proof cases
    case (2 s1 s2 k)
    obtain chunks out where st: "sent_as write_get_chunk chunks out" "concat chunks = as_bytes content" "outp s2 = outp s1 @ out"
      using stream_chunks_done [OF 2(2)] by blast
    have n: "?st s1 = (Inr k, s2)" using 2(2) by (simp add: errS_result_iffs stream_node_def)
    obtain a where a: "write_get_ready J \<lparr>tr_size = expected, tr_mode = None\<rparr> = Inr a" "outp s1 = outp s @ a"
      using 2(1) by (auto simp: send_def split: sum.splits if_splits)
    show ?thesis
    proof (cases r)
      case (Inl e)
      then have "outp s' = outp s2" using 2(3) by (auto simp: send_def split: sum.splits if_splits)
      then show ?thesis using outputs_trans [OF repliesD [OF q1 2(1)] repliesD [OF q2 n]] by simp
    next
      case (Inr z)
      then obtain b where b: "write_get_complete J \<lparr>tc_size = expected\<rparr> = Inr b" "outp s' = outp s2 @ b"
        using 2(3) by (auto simp: send_def split: sum.splits if_splits)
      have "full_answer J content s s'" unfolding full_answer_def using a b st
        by (intro exI [of _ "\<lparr>tr_size = expected, tr_mode = None\<rparr>"] exI [of _ a] exI [of _ chunks] exI [of _ out]
            exI [of _ "\<lparr>tc_size = expected\<rparr>"] exI [of _ b]) simp
      then show ?thesis using Inr by simp
    qed
  qed blast
qed

lemma probe_result: "\<exists>v. probe_download_size env src s = (Inr v, s)"
  by (simp add: probe_download_size_def Let_def split: sum.split node.split)

lemma single_get_outcome:
  assumes "handle_single_get J env ctx request s = (r, s')"
    and "resolve_path env ctx (gr_path request) = Inr src" and "lookup (fsys s) src = Some (File content mode)"
  shows "partial_answer J s s' \<or> r = Inr () \<and> full_answer J content s s'"
proof -
  obtain v where v: "probe_download_size env src s = (Inr v, s)" using probe_result by blast
  show ?thesis
  proof (cases v)
    case (Inl failure)
    have "send (write_transfer_error J failure) s = (r, s')"
      using assms(1) [unfolded handle_single_get_def assms(2) sum.case bindS_Inr [where m = "probe_download_size _ _", OF v [unfolded Inl]]] .
    from repliesD [OF replies_mono [OF replies_error, of "range FrameError \<union> range GetReady \<union> range GetChunk"] this]
    have "partial_answer J s s'" by blast
    then show ?thesis ..
  next
    case (Inr expected)
    note run = assms(1) [unfolded handle_single_get_def assms(2) sum.case bindS_Inr [where m = "probe_download_size _ _", OF v [unfolded Inr]]]
    show ?thesis
    proof (cases "fs_open (fsys s) src")
      case (Inl e)
      then obtain e' where "spawn_download_helper env src s = (Inl e', s)" by (simp add: spawn_download_helper_def)
      note fails = this
      have "partial_answer J s s'"
        using run [unfolded bindS_Inl [where m = "spawn_download_helper _ _", OF fails]] by (intro outputs_same) simp
      then show ?thesis ..
    next
      case Inr2: (Inr n)
      then have "n = File content mode" using assms(3) by (auto simp: fs_open_def split: if_splits)
      then have "spawn_download_helper env src s = (Inr (File content mode), s)" using Inr2 by (simp add: spawn_download_helper_def)
      from send_content_outcome [OF run [unfolded bindS_Inr [where m = "spawn_download_helper _ _", OF this]]] show ?thesis .
    qed
  qed
qed

lemma error_is_partial: "partial_answer J s (snd (send (write_transfer_error J e) s))"
  using repliesD [OF replies_mono [OF replies_error, of "range FrameError \<union> range GetReady \<union> range GetChunk"] surjective_pairing]
  by blast

lemma dispatch_get:
  assumes "handle_transfer_stream J env hs pid m s = (r, m', s')"
    and "read_next_frame J (inp s) = Inr (GetRequest request, rest)" and "\<not> gr_recursive request"
    and "resolve_path env (context_from_state pid) (gr_path request) = Inr src" and "lookup (fsys s) src = Some (File content mode)"
  shows "partial_answer J s s' \<or> full_answer J content s s'"
proof -
  obtain r1 s1 where h: "handle_single_get J env (context_from_state pid) request (s\<lparr>inp := rest\<rparr>) = (r1, s1)"
    by (rule prod.exhaust)
  have s': "if r1 = Inr () then s' = s1 else \<exists>e. s' = snd (send (write_transfer_error J e) s1)"
    using assms(1-3) h
    by (cases r1) (auto simp: handle_transfer_stream_def run_handler_def handle_get_request_def Let_def)
  from single_get_outcome [OF h assms(4)] assms(5) have "partial_answer J s s1 \<or> r1 = Inr () \<and> full_answer J content s s1"
    by (simp add: full_answer_def)
  then show ?thesis
  proof
    assume q: "partial_answer J s s1"
    have "partial_answer J s1 s'"
      using s' error_is_partial [of J _ s1] outputs_same [of s' s1] by (metis (lifting))
    from outputs_trans [OF q this] show ?thesis ..
  next
    assume "r1 = Inr () \<and> full_answer J content s s1"
    then show ?thesis using s' by simp
  qed
qed

section \<open>Both ends of a download\<close>

text \<open>Storing what was received sends nothing.\<close>

definition silent :: "(srv \<Rightarrow> 'r \<times> srv) \<Rightarrow> bool" where
  "silent m \<longleftrightarrow> (\<forall>s. outp (snd (m s)) = outp s)"

lemma silent_bindS: "silent m \<Longrightarrow> (\<And>v. silent (f v)) \<Longrightarrow> silent (bindS m f)"
  by (simp add: silent_def bindS_def split: prod.split sum.split) (metis snd_conv)

lemma silent_cases:
  "silent m \<Longrightarrow> (\<And>e. silent (f e)) \<Longrightarrow> (\<And>v. silent (g v)) \<Longrightarrow>
     silent (\<lambda>s. case m s of (Inl e, s1) \<Rightarrow> f e s1 | (Inr v, s1) \<Rightarrow> g v s1)"
  by (simp add: silent_def split: prod.split sum.split) (metis snd_conv)

lemma silent_at_disk: "outp (snd (at_disk m s)) = outp s"
  by (simp add: at_disk_def split: prod.split)

lemma silent_ops:
  "silent (retS v)" "silent (failS e)" "silent (at_disk call)" "silent (temp_transfer_path p)" "silent m \<Longrightarrow> silent (errS g m)"
  "silent m \<Longrightarrow> silent (ignoreS m)" "silent (open_transfer_stream env u)" "silent (take_frame J)"
  by (simp_all add: silent_def silent_at_disk temp_transfer_path_def errS_def ignoreS_def open_transfer_stream_def take_frame_def Let_def
      split: prod.split sum.split) (metis snd_conv)

lemma silent_get_loop: "outp (snd (get_loop J env remote expected temp buf received s)) = outp s"
proof (induction J env remote expected temp buf received s rule: get_loop.induct)
  case (1 J env remote expected temp buf received s)
  note unfold = get_loop.simps [of J env remote expected temp buf received s]
  show ?case
  proof (cases "read_next_frame_into J buf (inp s)")
    case (Inl e)
    then show ?thesis by (simp add: unfold)
  next
    case (Inr fr)
    obtain frame rest where fr: "fr = (frame, rest)" by (rule prod.exhaust)
    show ?thesis
    proof (cases "get_event_of frame")
      case (GotChunk chunk)
      let ?w = "at_disk (fs_append temp (str_of_bytes chunk)) (s\<lparr>inp := rest\<rparr>)"
      have w: "outp (snd ?w) = outp s" by (simp add: silent_at_disk)
      show ?thesis using 1(1) [OF Inr fr [symmetric] GotChunk refl] w Inr fr GotChunk
        by (cases "fst ?w") (simp_all add: unfold Let_def)
    qed (use Inr fr in \<open>auto simp: unfold\<close>)
  qed
qed

lemma silent_persist: "silent (persist_temp_file t p)"
proof -
  have "silent (\<lambda>s1. (Inr (), s1))" by (simp add: silent_def)
  then show ?thesis unfolding persist_temp_file_def
    by (auto intro!: silent_bindS silent_ops silent_cases split: option.split)
qed

lemma silent_store_download: "silent (store_download J env remote local expected mode)"
proof -
  have get: "silent (get_loop J env remote expected t buf n)" for t buf n by (simp add: silent_def silent_get_loop)
  have mode: "silent (apply_mode local mode)" by (auto simp: apply_mode_def intro!: silent_ops split: option.split)
  have rm: "silent (\<lambda>s1. (Inl err, snd (at_disk (fs_remove_file t) s1)))" for t and err :: client_error
    by (simp add: silent_def silent_at_disk)
  show ?thesis unfolding store_download_def
    by (auto intro!: silent_bindS silent_ops silent_cases get mode rm silent_persist split: option.split)
qed

lemma download_request_sent:
  assumes "download_file_with_progress J env remote local s = (Inr (), s')"
  shows "\<exists>b. write_get_request J \<lparr>gr_path = path_display remote, gr_recursive = False\<rparr> = Inr b \<and> outp s' = outp s @ b"
proof -
  let ?req = "write_get_request J \<lparr>gr_path = path_display remote, gr_recursive = False\<rparr>"
  obtain s1 where pf: "put_frame ?req s = (Inr (), s1)"
    and run: "bindS (errS ClientTransport (take_frame J)) (check_get_ready J env remote local) s1 = (Inr (), s')"
    using assms unfolding download_file_with_progress_def normalize_path_separators_def open_transfer_stream_def
    by (auto simp: bindS_eq_iff [where m = "retS _"] bindS_eq_iff [where m = "failS _"]
        bindS_eq_iff [where m = "errS _ (put_frame _)"] errS_result_iffs split: if_splits)
  have "silent (check_get_ready J env remote local f)" for f
    by (cases f) (auto simp: check_get_ready_def intro: silent_ops silent_store_download)
  then have "silent (bindS (errS ClientTransport (take_frame J)) (check_get_ready J env remote local))"
    by (intro silent_bindS silent_ops)
  then have "outp s' = outp s1" using run by (metis silent_def snd_conv)
  then show ?thesis using pf by (auto simp: put_frame_result)
qed

lemma download_stream_frames:
  "encodes J fs X \<Longrightarrow> download_stream J X chunks c rest \<Longrightarrow> \<exists>f \<in> set fs. frame_kind f = KIND_GET_COMPLETE"
proof (induction chunks arbitrary: fs X)
  case Nil
  from Nil(2) have "read_next_frame J X = Inr (GetComplete c, rest)" by (simp add: download_stream_cases)
  then obtain g gs where "fs = g # gs" "frame_kind (GetComplete c) = frame_kind g" by (rule read_encodes [OF Nil(1)])
  then show ?case by (auto simp: wire_defs)
next
  case (Cons x xs)
  then obtain X1 where "read_next_frame J X = Inr (GetChunk x, X1)" "download_stream J X1 xs c rest"
    by (auto simp: download_stream_cases)
  with Cons.IH read_encodes [OF Cons(2)] show ?case by (metis list.set_intros(2))
qed

lemma sent_chunks_read:
  "sent_as write_get_chunk chunks out \<Longrightarrow> encode_frame J (GetComplete fin) = Inr b \<Longrightarrow>
     download_stream J (out @ b) chunks' c rest \<Longrightarrow> chunks' = chunks"
proof (induction chunks arbitrary: out chunks')
  case Nil
  then show ?case using read_encoded_kind [of J "GetComplete fin" b "[]"]
    by (cases chunks') (auto simp: download_stream_cases wire_defs)
next
  case (Cons x xs)
  obtain bx out' where x: "write_get_chunk x = Inr bx" "sent_as write_get_chunk xs out'" "out = bx @ out'"
    using sent_as_ConsD [OF Cons(2)] by blast
  then have rd: "read_next_frame J (out @ b) = Inr (GetChunk x, out' @ b)"
    using read_next_frame_encode [of J "GetChunk x" bx "out' @ b"] by simp
  then obtain xs' where "chunks' = x # xs'" "download_stream J (out' @ b) xs' c rest"
    using Cons(4) by (cases chunks') (auto simp: download_stream_cases)
  then show ?case using Cons.IH x(2) Cons(3) by blast
qed

section \<open>Runs where nothing fails\<close>

text \<open>The server's half.\<close>

lemma download_server_healthy:
  assumes "healthy (fsys s)" and "write_fails s = (\<lambda>_. False)"
    and "read_next_frame J (inp s) = Inr (GetRequest request, X)" and "\<not> gr_recursive request"
    and "resolve_path env (context_from_state pid) (gr_path request) = Inr src" and "lookup (fsys s) src = Some (File content mode)"
    and a: "write_get_ready J \<lparr>tr_size = of_nat (length content), tr_mode = None\<rparr> = Inr a"
    and b: "write_get_complete J \<lparr>tc_size = of_nat (length content)\<rparr> = Inr b"
  shows "\<exists>s' chunks out. handle_transfer_stream J env hs pid m s
        = (Inr (), record_transfer_completed (record_transfer_initiated m), s')
      \<and> outp s' = outp s @ a @ out @ b \<and> sent_as write_get_chunk chunks out \<and> concat chunks = as_bytes content"
proof -
  let ?n = "File content mode" and ?ctx = "context_from_state pid"
  let ?s0 = "s\<lparr>inp := X\<rparr>" and ?s1 = "s\<lparr>inp := X, outp := outp s @ a, writes := Suc (writes s)\<rparr>"
  obtain k s2 where st: "stream_chunks (read_len env) write_get_chunk src 0 content 0 ?s1 = (Inr k, s2)" and w: "write_fails s2 = (\<lambda>_. False)"
    using stream_chunks_healthy [of ?s1 write_get_chunk "read_len env" src 0 content 0] write_get_chunk_ok assms(1,2) by auto
  obtain chunks out where so: "sent_as write_get_chunk chunks out" "concat chunks = as_bytes content" "outp s2 = outp s @ a @ out"
    using stream_chunks_done [OF st] by auto
  have "probe_download_size env src ?s0 = (Inr (Inr (of_nat (length content))), ?s0)" "spawn_download_helper env src ?s0 = (Inr ?n, ?s0)"
    using assms(1,6) by (simp_all add: probe_download_size_def fs_metadata_def healthy_def spawn_download_helper_def fs_open_def)
  then have "handle_single_get J env ?ctx request ?s0 = (Inr (), s2\<lparr>outp := outp s2 @ b, writes := Suc (writes s2)\<rparr>)"
    using assms(2,5) a b st w by (simp add: handle_single_get_def bindS_def send_def errS_def stream_node_def)
  then show ?thesis using assms(3,4) so
    by (auto simp: handle_transfer_stream_def run_handler_def handle_get_request_def Let_def)
qed

lemma get_frame_events:
  assumes "read_next_frame J s = Inr (f, rest)"
  shows "f = GetChunk chunk \<Longrightarrow> \<exists>b. read_next_frame_into J buf s = Inr (b, rest) \<and> get_event_of b = GotChunk chunk"
    and "f = GetComplete c \<Longrightarrow> \<exists>b. read_next_frame_into J buf s = Inr (b, rest) \<and> get_event_of b = GotComplete c"
proof -
  from assms obtain b where b: "read_next_frame_into J buf s = Inr (b, rest)" "own_frame b = f"
    using read_next_frame_into_own [of J buf s] by (auto simp: read_next_frame_eq and_then_eq_Inr_iff)
  have "decode_frame J k p \<noteq> Inr (GetChunk x)" for k p x
    by (auto simp: decode_frame_def decode_as_def and_then_eq_Inr_iff split: if_splits)
  then have "b = Owned g \<Longrightarrow> g \<noteq> GetChunk x" for g x
    using b(1) by (auto simp: read_next_frame_into_def and_then_eq_Inr_iff split: prod.splits if_splits)
  with b show "f = GetChunk chunk \<Longrightarrow> \<exists>b. read_next_frame_into J buf s = Inr (b, rest) \<and> get_event_of b = GotChunk chunk"
    "f = GetComplete c \<Longrightarrow> \<exists>b. read_next_frame_into J buf s = Inr (b, rest) \<and> get_event_of b = GotComplete c"
    by (cases b; auto)+
qed

lemma get_loop_completes:
  assumes "healthy (fsys s)" and "lookup (fsys s) temp = Some (File c m)" and "download_stream J (inp s) chunks fin rest"
    and "received + of_nat (length (concat chunks)) = expected" and "tc_size fin = expected"
  shows "\<exists>s'. get_loop J env remote expected temp buf received s = (Inr (), s') \<and> healthy (fsys s')
      \<and> (\<exists>c'. lookup (fsys s') temp = Some (File c' m)) \<and> (\<forall>q. q \<noteq> temp \<longrightarrow> lookup (fsys s') q = lookup (fsys s) q)"
  using assms
proof (induction chunks arbitrary: s c buf received)
  case Nil
  have "read_next_frame J (inp s) = Inr (GetComplete fin, rest)" using Nil(3) by (simp add: download_stream_cases)
  then obtain b where "read_next_frame_into J buf (inp s) = Inr (b, rest)" "get_event_of b = GotComplete fin"
    using get_frame_events(2) [OF _ refl] by blast
  then show ?case using Nil by (subst get_loop.simps) simp
next
  case (Cons x xs)
  then obtain X where X: "read_next_frame J (inp s) = Inr (GetChunk x, X)" "download_stream J X xs fin rest"
    by (auto simp: download_stream_cases)
  obtain b where b: "read_next_frame_into J buf (inp s) = Inr (b, X)" "get_event_of b = GotChunk x"
    using get_frame_events(1) [OF X(1) refl] by blast
  let ?s1 = "s\<lparr>inp := X, fsys := put_node temp (File (c @ str_of_bytes x) m) (fsys s)\<rparr>"
  have w: "at_disk (fs_append temp (str_of_bytes x)) (s\<lparr>inp := X\<rparr>) = (Inr (), ?s1)"
    using Cons.prems(1,2) by (simp add: at_disk_def fs_append_def healthy_def)
  have "\<exists>s'. get_loop J env remote expected temp x (received + of_nat (length x)) ?s1 = (Inr (), s') \<and> healthy (fsys s')
      \<and> (\<exists>c'. lookup (fsys s') temp = Some (File c' m)) \<and> (\<forall>q. q \<noteq> temp \<longrightarrow> lookup (fsys s') q = lookup (fsys ?s1) q)"
    by (rule Cons.IH) (use Cons.prems X(2) in \<open>simp_all add: add.assoc\<close>)
  then show ?case using b w by (subst get_loop.simps) (simp add: Let_def)
qed

lemma persist_healthy:
  assumes "healthy (fsys s)" and "dir_free (fsys s) dir" and "t = dir @ [Normal k]" and "lookup (fsys s) t = Some (File c m)"
    and "\<not> is_dir_node (lookup (fsys s) (dir @ [Normal n]))"
  shows "\<exists>s'. persist_temp_file t (dir @ [Normal n]) s = (Inr (), s')"
proof -
  obtain d where d: "fs_create_dir_all dir (fsys s) = (Inr (), d)" "healthy d" "is_dir_node (lookup d dir)"
    "\<And>q. q \<notin> set (ancestors dir) \<Longrightarrow> lookup d q = lookup (fsys s) q"
    using create_dir_all_healthy [OF assms(1,2)] by metis
  have "\<exists>d'. fs_rename t (dir @ [Normal n]) d = (Inr (), d')"
    using d(2-4) assms(3-5) not_own_ancestor by (auto simp: fs_rename_def healthy_def)
  moreover have "path_parent (dir @ [Normal n]) = Some dir" by (simp add: path_parent_def)
  ultimately show ?thesis using d(1) by (auto simp: persist_temp_file_def bindS_def errS_def at_disk_def map_err_def)
qed

lemma store_download_healthy:
  assumes "healthy (fsys s)" and "dir_free (fsys s) dir" and "proper_name n" and "\<not> is_dir_node (lookup (fsys s) (dir @ [Normal n]))"
    and "\<forall>u. \<not> is_dir_node (lookup (fsys s) (dir @ [Normal (temp_name n u)]))"
    and "download_stream J (inp s) chunks fin rest" and "of_nat (length (concat chunks)) = expected" and "tc_size fin = expected"
  shows "\<exists>s'. store_download J env remote (dir @ [Normal n]) expected mode s = (Inr (), s')"
proof -
  let ?p = "dir @ [Normal n]"
  obtain rt s1 where tp: "temp_transfer_path ?p s = (rt, s1)" by (rule prod.exhaust)
  obtain u where rt: "rt = Inr (dir @ [Normal (temp_name n u)])" and s1: "s1 = s\<lparr>fsys := snd (draw_u64 (fsys s))\<rparr>"
    using temp_transfer_path_eq [OF assms(3) tp] by blast
  let ?t = "dir @ [Normal (temp_name n u)]"
  have h1: "healthy (fsys s1)" "dir_free (fsys s1) dir" using assms(1,2) s1 by (simp_all add: healthy_def dir_free_def)
  obtain d where d: "fs_create_dir_all dir (fsys s1) = (Inr (), d)" "healthy d" "is_dir_node (lookup d dir)"
    "\<And>q. q \<notin> set (ancestors dir) \<Longrightarrow> lookup d q = lookup (fsys s1) q"
    using create_dir_all_healthy [OF h1] by metis
  have kind: "is_file_node x \<Longrightarrow> \<not> is_dir_node x" for x by (cases x; cases "the x") auto
  have "is_file_node (lookup d q) \<Longrightarrow> is_file_node (lookup (fsys s1) q)" for q
    using fs_create_dir_all_change [OF d(1), of q] kind by auto
  then have free: "dir_free d dir" using h1(2) by (auto simp: dir_free_def list_ex_iff)
  obtain m where cr: "fs_create ?t d = (Inr (), put_node ?t (File [] m) d)"
    using d(2,3,4) spec [OF assms(5), of u] not_own_ancestor [of dir "Normal (temp_name n u)"] s1
    by (cases "lookup (fsys s) ?t"; cases "the (lookup (fsys s) ?t)") (auto simp: fs_create_def healthy_def)
  let ?s3 = "s1\<lparr>fsys := put_node ?t (File [] m) d\<rparr>"
  obtain s4 c where gl: "get_loop J env remote expected ?t [] 0 ?s3 = (Inr (), s4)" "healthy (fsys s4)"
    "lookup (fsys s4) ?t = Some (File c m)" "\<And>q. q \<noteq> ?t \<Longrightarrow> lookup (fsys s4) q = lookup d q"
    using get_loop_completes [of ?s3 ?t "[]" m J chunks fin rest 0 expected env remote "[]"] d(2) assms(6-8) s1 by auto
  have "lookup (fsys s4) q = lookup d q" if "q \<in> set (ancestors dir)" for q
    using gl(4) [of q] not_own_ancestor [of dir "Normal (temp_name n u)"] that by auto
  then have "dir_free (fsys s4) dir" using free by (simp add: dir_free_def list_ex_iff)
  moreover have "\<not> is_dir_node (lookup (fsys s4) ?p)"
    using gl(4) [of ?p] assms(4) d(4) [of ?p] not_own_ancestor [of dir "Normal n"] s1 temp_name_neq [of n u] by auto
  ultimately obtain s5 where ps: "persist_temp_file ?t ?p s4 = (Inr (), s5)"
    using persist_healthy [OF gl(2) _ refl gl(3)] by blast
  have am: "\<exists>s6. apply_mode ?p mode s5 = (Inr (), s6)" by (cases mode) (simp_all add: apply_mode_def ignoreS_def)
  have sy: "at_disk (fs_sync ?t) s4 = (Inr (), s4)" using gl(2) by (cases s4) (simp add: at_disk_def fs_sync_def healthy_def)
  have mk: "at_disk (fs_create_dir_all dir) s1 = (Inr (), s1\<lparr>fsys := d\<rparr>)" using d(1) by (simp add: at_disk_def)
  have ct: "at_disk (fs_create ?t) (s1\<lparr>fsys := d\<rparr>) = (Inr (), ?s3)" using cr by (simp add: at_disk_def)
  have parent: "path_parent ?p = Some dir" by (simp add: path_parent_def)
  show ?thesis unfolding store_download_def parent
    using tp rt mk ct gl(1) sy ps am by (auto simp: bindS_def ignoreS_def errS_def map_err_def)
qed

lemma download_client_healthy:
  assumes "healthy (fsys s)" and "write_fails s = (\<lambda>_. False)" and "has_connection env" and "open_bi env" and "remote \<noteq> []"
    and "dir_free (fsys s) dir" and "proper_name n" and "\<not> is_dir_node (lookup (fsys s) (dir @ [Normal n]))"
    and "\<forall>u. \<not> is_dir_node (lookup (fsys s) (dir @ [Normal (temp_name n u)]))"
    and req: "write_get_request J \<lparr>gr_path = path_display remote, gr_recursive = False\<rparr> = Inr b"
    and ready: "read_next_frame J (inp s) = Inr (GetReady \<lparr>tr_size = expected, tr_mode = k\<rparr>, X)"
    and "download_stream J X chunks fin rest" and "of_nat (length (concat chunks)) = expected" and "tc_size fin = expected"
  shows "\<exists>s'. download_file_with_progress J env remote (dir @ [Normal n]) s = (Inr (), s')"
proof -
  let ?s1 = "s\<lparr>outp := outp s @ b, writes := Suc (writes s), inp := X\<rparr>"
  obtain s' where st: "store_download J env remote (dir @ [Normal n]) expected k ?s1 = (Inr (), s')"
    using store_download_healthy [of ?s1 dir n J chunks fin rest expected env remote k] assms by auto
  then show ?thesis using assms(2-5) req ready
    by (simp add: download_file_with_progress_def open_transfer_stream_def normalize_path_separators_def bindS_def errS_def put_frame_def
        take_frame_def check_get_ready_def)
qed

text \<open>Chunks and the completion frame that were sent are read as such.\<close>

lemma sent_download_stream:
  assumes "sent_as write_get_chunk chunks out" and "\<And>t. read_next_frame J (b @ t) = Inr (GetComplete fin, t)"
  shows "download_stream J (out @ b) chunks fin []"
  using assms(1)
proof (induction chunks arbitrary: out)
  case Nil
  then show ?case using assms(2) [of "[]"] by (simp add: download_stream_cases)
next
  case (Cons x xs)
  obtain bx out' where x: "write_get_chunk x = Inr bx" "sent_as write_get_chunk xs out'" "out = bx @ out'"
    using sent_as_ConsD [OF Cons(2)] by blast
  then show ?case using Cons.IH [OF x(2)] read_next_frame_encode [of J "GetChunk x" bx "out' @ b"]
    by (simp add: download_stream_cases)
qed

lemma download_joint_run:
  fixes content :: string
  defines "sz \<equiv> of_nat (length content) :: u64"
  assumes client: "healthy (fsys cs)" "write_fails cs = (\<lambda>_. False)" "has_connection cenv" "open_bi cenv" "remote \<noteq> []"
      "dir_free (fsys cs) dir" "proper_name n" "\<not> is_dir_node (lookup (fsys cs) (dir @ [Normal n]))"
      "\<forall>u. \<not> is_dir_node (lookup (fsys cs) (dir @ [Normal (temp_name n u)]))"
    and server: "healthy (fsys ss)" "write_fails ss = (\<lambda>_. False)"
      "resolve_path env (context_from_state pid) (path_display remote) = Inr src" "lookup (fsys ss) src = Some (File content mode)"
    and frames: "carries J (GetRequest \<lparr>gr_path = path_display remote, gr_recursive = False\<rparr>)"
      "carries J (GetReady \<lparr>tr_size = sz, tr_mode = None\<rparr>)" "carries J (GetComplete \<lparr>tc_size = sz\<rparr>)"
    and start: "outp cs = []" "outp ss = []"
  shows "\<exists>answer cs' ss'.
      download_file_with_progress J cenv remote (dir @ [Normal n]) (cs\<lparr>inp := answer\<rparr>) = (Inr (), cs')
      \<and> handle_transfer_stream J env hs pid m (ss\<lparr>inp := outp cs'\<rparr>)
          = (Inr (), record_transfer_completed (record_transfer_initiated m), ss')
      \<and> outp ss' = answer"
proof -
  let ?req = "\<lparr>gr_path = path_display remote, gr_recursive = False\<rparr>"
  obtain b1 where b1: "encode_frame J (GetRequest ?req) = Inr b1" "\<And>t. read_next_frame J (b1 @ t) = Inr (GetRequest ?req, t)"
    by (rule carries_read [OF frames(1)]) blast
  obtain b2 where b2: "encode_frame J (GetReady \<lparr>tr_size = sz, tr_mode = None\<rparr>) = Inr b2"
    "\<And>t. read_next_frame J (b2 @ t) = Inr (GetReady \<lparr>tr_size = sz, tr_mode = None\<rparr>, t)"
    by (rule carries_read [OF frames(2)]) blast
  obtain b3 where b3: "encode_frame J (GetComplete \<lparr>tc_size = sz\<rparr>) = Inr b3"
    "\<And>t. read_next_frame J (b3 @ t) = Inr (GetComplete \<lparr>tc_size = sz\<rparr>, t)"
    by (rule carries_read [OF frames(3)]) blast
  let ?ss = "ss\<lparr>inp := b1\<rparr>"
  have rd: "read_next_frame J (inp ?ss) = Inr (GetRequest ?req, [])" using b1(2) [of "[]"] by simp
  obtain ss' chunks out where s: "handle_transfer_stream J env hs pid m ?ss
        = (Inr (), record_transfer_completed (record_transfer_initiated m), ss')"
      "outp ss' = b2 @ out @ b3" "sent_as write_get_chunk chunks out" "concat chunks = as_bytes content"
    using download_server_healthy [of ?ss J ?req "[]" env pid src content mode b2 b3 hs m] server rd b2(1) b3(1) start(2)
    by (auto simp: sz_def)
  have ds: "download_stream J (out @ b3) chunks \<lparr>tc_size = sz\<rparr> []" by (rule sent_download_stream [OF s(3) b3(2)])
  let ?cs = "cs\<lparr>inp := b2 @ out @ b3\<rparr>"
  have "\<exists>cs'. download_file_with_progress J cenv remote (dir @ [Normal n]) ?cs = (Inr (), cs')"
    using client b1(1) b2(2) ds s(4)
    by (intro download_client_healthy [of ?cs cenv remote dir n J b1 sz None "out @ b3" chunks "\<lparr>tc_size = sz\<rparr>" "[]"])
      (simp_all add: sz_def)
  then obtain cs' where c: "download_file_with_progress J cenv remote (dir @ [Normal n]) ?cs = (Inr (), cs')" by blast
  have "outp cs' = b1" using download_request_sent [OF c] b1(1) start(1) by auto
  then show ?thesis using c s(1,2) by (intro exI [of _ "b2 @ out @ b3"] exI [of _ cs'] exI [of _ ss']) simp
qed

text \<open>
  C7. A downloaded file appears complete or not at all.  Whatever the server sends and whatever fails: on success
  the local file has exactly the bytes of the chunks of a complete download, as many as announced; on failure the local file is
  as it was, except where the move of the temporary file failed and the copy that replaces it failed as well.
\<close>

theorem download_publishes_complete:
  assumes "download_file_with_progress J env remote (dir @ [Normal n]) s = (r, s')" and "proper_name n"
  shows "if r = Inr () then complete_download J (inp s) (lookup (fsys s') (dir @ [Normal n]))
    else persist_error (dir @ [Normal n]) r \<or> lookup (fsys s') (dir @ [Normal n]) = lookup (fsys s) (dir @ [Normal n])"
  using assms by (rule download_file_result)

text \<open>
  C3. The two ends of a download agree.  Take any run of the client's download and any run of the server's transfer handler, joined by
  their streams, where the requested path is a file on the server.  If the client reports success then the local file has
  exactly the content of that file, whatever failed below and however the reads were cut into chunks.
\<close>

theorem download_agreement:
  assumes client: "download_file_with_progress J cenv remote (dir @ [Normal n]) cs = (Inr (), cs')" "proper_name n"
    and server: "handle_transfer_stream J env hs pid m ss = (r, m', ss')"
    and streams: "outp cs = []" "outp ss = []" "inp ss = outp cs'" "inp cs = outp ss'"
    and source: "resolve_path env (context_from_state pid) (path_display remote) = Inr src" "lookup (fsys ss) src = Some (File content mode)"
    and json: "json_ok J (GetRequest \<lparr>gr_path = path_display remote, gr_recursive = False\<rparr>)"
  shows "\<exists>k. lookup (fsys cs') (dir @ [Normal n]) = Some (File content k)"
proof -
  let ?req = "\<lparr>gr_path = path_display remote, gr_recursive = False\<rparr>"
  obtain ready X chunks comp rest k where d: "read_next_frame J (outp ss') = Inr (GetReady ready, X)" "download_stream J X chunks comp rest"
    "lookup (fsys cs') (dir @ [Normal n]) = Some (File (str_of_bytes (concat chunks)) k)"
    using download_file_result [OF client] streams(4) by (auto simp: complete_download_def stored_download_def)
  obtain b where "write_get_request J ?req = Inr b" "outp cs' = b"
    using download_request_sent [OF client(1)] streams(1) by auto
  then have rd: "read_next_frame J (inp ss) = Inr (GetRequest ?req, [])"
    using read_next_frame_encode [of J "GetRequest ?req" b "[]"] json streams(3) by simp
  consider "partial_answer J ss ss'" | "full_answer J content ss ss'" using dispatch_get [OF server rd _ _ source(2)] source(1) by auto
  then have "str_of_bytes (concat chunks) = content"
  proof cases
    case 1
    then obtain fs where fs: "encodes J fs (outp ss')" "set fs \<subseteq> range FrameError \<union> range GetReady \<union> range GetChunk"
      using streams(2) by auto
    obtain g gs where "fs = g # gs" "encodes J gs X" by (rule read_encodes [OF fs(1) d(1)]) blast
    then have "\<exists>f \<in> set fs. frame_kind f = KIND_GET_COMPLETE" using download_stream_frames d(2) by auto
    then show ?thesis using fs(2) by (auto simp: wire_defs)
  next
    case 2
    then obtain rdy a cks out fin b where f: "outp ss' = a @ out @ b" "encode_frame J (GetReady rdy) = Inr a"
      "sent_as write_get_chunk cks out" "concat cks = as_bytes content" "encode_frame J (GetComplete fin) = Inr b"
      using streams(2) by (auto simp: full_answer_def)
    have "X = out @ b" using read_encoded_kind [OF f(2)] d(1) f(1) by simp
    then have "chunks = cks" using sent_chunks_read [OF f(3,5)] d(2) by simp
    then show ?thesis using f(4) by simp
  qed
  then show ?thesis using d(3) by blast
qed

text \<open>Downloading \<^verbatim>\<open>f\<close> in the home directory of a server with the sample disk to \<^verbatim>\<open>/s/a\<close>.\<close>

definition download_json :: serde_json where
  "download_json = sample_json\<lparr>
     js_get_request := sample_serde \<lparr>gr_path = ''f'', gr_recursive = False\<rparr> [1],
     js_transfer_ready := sample_serde \<lparr>tr_size = 3, tr_mode = None\<rparr> [2],
     js_transfer_complete := sample_serde \<lparr>tc_size = 3\<rparr> [3]\<rparr>"

lemma download_json_carries:
  "carries download_json (GetRequest \<lparr>gr_path = ''f'', gr_recursive = False\<rparr>)"
  "carries download_json (GetReady \<lparr>tr_size = 3, tr_mode = None\<rparr>)"
  "carries download_json (GetComplete \<lparr>tc_size = 3\<rparr>)"
proof -
  let ?f = "GetRequest \<lparr>gr_path = ''f'', gr_recursive = False\<rparr>"
  have "\<not> isl (encode_frame download_json ?f)" by code_simp
  then show "carries download_json ?f" by (simp add: carries_def roundtrips_def download_json_def sample_serde_def)
next
  let ?f = "GetReady \<lparr>tr_size = 3, tr_mode = None\<rparr>"
  have "\<not> isl (encode_frame download_json ?f)" by code_simp
  then show "carries download_json ?f" by (simp add: carries_def roundtrips_def download_json_def sample_serde_def)
next
  let ?f = "GetComplete \<lparr>tc_size = 3\<rparr>"
  have "\<not> isl (encode_frame download_json ?f)" by code_simp
  then show "carries download_json ?f" by (simp add: carries_def roundtrips_def download_json_def sample_serde_def)
qed

lemma sample_download_sides:
  "path_display [Normal ''f''] = ''f''"
  "resolve_path sample_env (context_from_state None) ''f'' = Inr sample_local"
  "\<forall>u. \<not> is_dir_node (lookup sample_disk [RootDir, Normal ''s'', Normal (temp_name ''a'' u)])"
proof -
  show "path_display [Normal ''f''] = ''f''" by code_simp
  show "resolve_path sample_env (context_from_state None) ''f'' = Inr sample_local" by code_simp
qed (simp add: sample_disk_def lookup_def temp_name_def)

lemma sample_download_run:
  obtains answer cs' ss' where
    "download_file_with_progress download_json sample_client [Normal ''f''] ([RootDir, Normal ''s''] @ [Normal ''a''])
       ((sample_srv [])\<lparr>inp := answer\<rparr>) = (Inr (), cs')"
    "handle_transfer_stream download_json sample_env sample_handlers None metrics_new ((sample_srv [])\<lparr>inp := outp cs'\<rparr>)
       = (Inr (), record_transfer_completed (record_transfer_initiated metrics_new), ss')"
    "outp ss' = answer"
proof -
  have "\<exists>answer cs' ss'.
      download_file_with_progress download_json sample_client [Normal ''f''] ([RootDir, Normal ''s''] @ [Normal ''a''])
        ((sample_srv [])\<lparr>inp := answer\<rparr>) = (Inr (), cs')
      \<and> handle_transfer_stream download_json sample_env sample_handlers None metrics_new ((sample_srv [])\<lparr>inp := outp cs'\<rparr>)
          = (Inr (), record_transfer_completed (record_transfer_initiated metrics_new), ss')
      \<and> outp ss' = answer"
    using download_json_carries sample_upload_sides sample_download_sides
    by (intro download_joint_run [where content = "''old''" and mode = "0x1A4" and src = sample_local])
      (simp_all add: sample_srv_def proper_name_def)
  then show thesis using that by blast
qed

theorem download_publishes_complete_witness:
  "\<exists>answer cs'.
      download_file_with_progress download_json sample_client [Normal ''f''] ([RootDir, Normal ''s''] @ [Normal ''a''])
        ((sample_srv [])\<lparr>inp := answer\<rparr>) = (Inr (), cs')
      \<and> complete_download download_json answer (lookup (fsys cs') ([RootDir, Normal ''s''] @ [Normal ''a'']))"
proof -
  obtain answer cs' where c: "download_file_with_progress download_json sample_client [Normal ''f''] ([RootDir, Normal ''s''] @ [Normal ''a''])
      ((sample_srv [])\<lparr>inp := answer\<rparr>) = (Inr (), cs')" by (rule sample_download_run)
  have "proper_name ''a''" by (simp add: proper_name_def)
  from download_publishes_complete [OF c this] c show ?thesis by auto
qed

theorem download_agreement_witness:
  "\<exists>answer cs' r m' ss' k.
      download_file_with_progress download_json sample_client [Normal ''f''] ([RootDir, Normal ''s''] @ [Normal ''a''])
        ((sample_srv [])\<lparr>inp := answer\<rparr>) = (Inr (), cs')
      \<and> handle_transfer_stream download_json sample_env sample_handlers None metrics_new ((sample_srv [])\<lparr>inp := outp cs'\<rparr>)
          = (r, m', ss')
      \<and> outp ss' = answer \<and> lookup (fsys cs') ([RootDir, Normal ''s''] @ [Normal ''a'']) = Some (File ''old'' k)"
proof -
  let ?dir = "[RootDir, Normal ''s'']"
  have a: "proper_name ''a''" by (simp add: proper_name_def)
  obtain answer cs' ss' where
    c: "download_file_with_progress download_json sample_client [Normal ''f''] (?dir @ [Normal ''a'']) ((sample_srv [])\<lparr>inp := answer\<rparr>) = (Inr (), cs')"
    and h: "handle_transfer_stream download_json sample_env sample_handlers None metrics_new ((sample_srv [])\<lparr>inp := outp cs'\<rparr>)
          = (Inr (), record_transfer_completed (record_transfer_initiated metrics_new), ss')"
    and e: "outp ss' = answer" by (rule sample_download_run)
  have "\<exists>k. lookup (fsys cs') (?dir @ [Normal ''a'']) = Some (File ''old'' k)"
    using download_agreement [OF c a h, of sample_local "''old''" "0x1A4"] e download_json_carries sample_download_sides sample_upload_sides(5)
    by (simp add: sample_srv_def carries_def)
  then show ?thesis using c h e by blast
qed

end
