(* ===== verification/Pty_Session.thy ===== *)
theory Pty_Session
  imports Irosh_Prelude "HOL-Library.Sublist"
begin

text \<open>
  The pure parts of an interactive session on the server: terminal sizes (\<^verbatim>\<open>src/session/pty.rs\<close>), the
  echo filter (\<^verbatim>\<open>src/server/handler/pty.rs\<close>), the scanner of the reader thread that answers cursor
  queries and the command line of a request (\<^verbatim>\<open>handler/exec.rs\<close>, \<^verbatim>\<open>handler/shell.rs\<close>).  The scanner and
  the echo run where the kernel does not echo, that is with ConPTY.
\<close>

section \<open>Terminal sizes\<close>

record pty_size =
  rows :: u16
  cols :: u16
  pixel_width :: u16
  pixel_height :: u16

definition clamp :: "u32 \<Rightarrow> u32 \<Rightarrow> u32 \<Rightarrow> u32" where
  "clamp lo hi x = (if x < lo then lo else if hi < x then hi else x)"

definition pty_size_of :: "u32 \<Rightarrow> u32 \<Rightarrow> u32 \<Rightarrow> u32 \<Rightarrow> pty_size" where
  "pty_size_of c r pw ph =
     \<lparr>rows = ucast (clamp 1 0xFFFF r), cols = ucast (clamp 1 0xFFFF c),
      pixel_width = ucast (clamp 0 0xFFFF pw), pixel_height = ucast (clamp 0 0xFFFF ph)\<rparr>"

text \<open>\<^verbatim>\<open>str::parse::<u16>\<close>: an optional plus sign and at least one digit, within the range.\<close>

definition digit :: "char \<Rightarrow> bool" where
  "digit c \<longleftrightarrow> 48 \<le> (of_char c :: nat) \<and> (of_char c :: nat) \<le> 57"

definition decimal :: "string \<Rightarrow> nat" where
  "decimal ds = foldl (\<lambda>n c. 10 * n + (of_char c - 48)) 0 ds"

definition parse_u16 :: "string \<Rightarrow> u16 option" where
  "parse_u16 s =
     (let ds = (case s of CHR ''+'' # t \<Rightarrow> t | _ \<Rightarrow> s)
      in if ds \<noteq> [] \<and> list_all digit ds \<and> decimal ds < 65536 then Some (of_nat (decimal ds)) else None)"

definition env_dimension :: "string option \<Rightarrow> u16 \<Rightarrow> u16" where
  "env_dimension var fallback =
     (case Option.bind var parse_u16 of
        Some value \<Rightarrow> if 0 < value then value else fallback
      | None \<Rightarrow> fallback)"

definition default_pty_size :: "(string \<Rightarrow> string option) \<Rightarrow> pty_size" where
  "default_pty_size env =
     \<lparr>rows = env_dimension (env ''LINES'') 24, cols = env_dimension (env ''COLUMNS'') 80,
      pixel_width = 0, pixel_height = 0\<rparr>"

section \<open>The echo filter\<close>

text \<open>What is left of the input after the parameters and the final byte of a CSI sequence.\<close>

fun csi_rest :: "bytes \<Rightarrow> bytes" where
  "csi_rest [] = []"
| "csi_rest (f # xs) =
     (if (0x40 \<le> f \<and> f \<le> 0x7E) \<or> \<not> (0x20 \<le> f \<and> f \<le> 0x3F) then xs else csi_rest xs)"

text \<open>What is left after an OSC sequence, which ends with BEL or with ESC and perhaps a backslash.\<close>

fun osc_rest :: "bytes \<Rightarrow> bytes" where
  "osc_rest [] = []"
| "osc_rest (f # xs) =
     (if f = 0x07 then xs
      else if f = 0x1B then (if xs \<noteq> [] \<and> hd xs = 0x5C then tl xs else xs)
      else osc_rest xs)"

definition escape_rest :: "bytes \<Rightarrow> bytes" where
  "escape_rest xs =
     (case xs of
        [] \<Rightarrow> []
      | f # ys \<Rightarrow>
          if f = 0x5B then csi_rest ys
          else if f = 0x5D then osc_rest ys
          else if f = 0x28 \<or> f = 0x29 \<or> f = 0x23 then drop 1 ys
          else ys)"

definition is_ascii_graphic :: "u8 \<Rightarrow> bool" where
  "is_ascii_graphic b \<longleftrightarrow> 0x21 \<le> b \<and> b \<le> 0x7E"

definition echoed :: "u8 \<Rightarrow> bool" where
  "echoed b \<longleftrightarrow> b = 0x0A \<or> b = 0x09 \<or> b = 0x20 \<or> is_ascii_graphic b \<or> 0x80 \<le> b"

lemma csi_rest_length: "length (csi_rest xs) \<le> length xs"
  by (induction xs) auto

lemma osc_rest_length: "length (osc_rest xs) \<le> length xs"
  by (induction xs) auto

lemma escape_rest_length: "length (escape_rest xs) \<le> length xs"
  using csi_rest_length [of "tl xs"] osc_rest_length [of "tl xs"]
  by (cases xs) (auto simp: escape_rest_def)

function filter_echo_bytes :: "bytes \<Rightarrow> bytes" where
  "filter_echo_bytes [] = []"
| "filter_echo_bytes (b # xs) =
     (if b = 0x1B then filter_echo_bytes (escape_rest xs)
      else if b = 0x0D then 0x0A # filter_echo_bytes xs
      else if echoed b then b # filter_echo_bytes xs
      else filter_echo_bytes xs)"
  by pat_completeness auto
termination
  by (relation "measure length") (auto simp: less_Suc_eq_le escape_rest_length)

section \<open>The cursor query\<close>

definition DSR_AUTOREPLY_WINDOW :: nat where "DSR_AUTOREPLY_WINDOW = 10 * 10 ^ 9"

definition dsr_query :: bytes where "dsr_query = [0x1B, 0x5B, 0x36, 0x6E]"

text \<open>
  One byte, read \<open>elapsed\<close> nanoseconds after the start: the next state, and whether the reply
  \<^verbatim>\<open>ESC [ 1 ; 1 R\<close> is put into the input of the terminal.
\<close>

definition dsr_step :: "u8 \<Rightarrow> nat \<times> u8 \<Rightarrow> u8 \<times> bool" where
  "dsr_step dsr_state eb =
     (case eb of (elapsed, b) \<Rightarrow>
        if b = 0x1B then (1, False)
        else if dsr_state = 1 \<and> b = 0x5B then (2, False)
        else if dsr_state = 2 \<and> b = 0x36 then (3, False)
        else if dsr_state = 3 \<and> b = 0x6E then (0, elapsed < DSR_AUTOREPLY_WINDOW)
        else (0, False))"

fun dsr_scan :: "u8 \<Rightarrow> (nat \<times> u8) list \<Rightarrow> bool list" where
  "dsr_scan dsr_state [] = []"
| "dsr_scan dsr_state (eb # ebs) =
     (case dsr_step dsr_state eb of (dsr_state', reply) \<Rightarrow> reply # dsr_scan dsr_state' ebs)"

section \<open>Commands and signals\<close>

text \<open>A builder of \<^verbatim>\<open>portable_pty\<close>: the program with its arguments (or the user's shell) and the environment.\<close>

record command_builder =
  argv :: "string list option"
  cmd_env :: "(string \<times> string) list"

definition build_command :: "string option \<Rightarrow> command_builder" where
  "build_command command =
     (case command of
        Some c \<Rightarrow> \<lparr>argv = Some [''sh'', ''-lc'', c], cmd_env = []\<rparr>
      | None \<Rightarrow> \<lparr>argv = None, cmd_env = []\<rparr>)"

definition builder_env :: "string \<Rightarrow> string \<Rightarrow> command_builder \<Rightarrow> command_builder" where
  "builder_env key value b = b\<lparr>cmd_env := (key, value) # filter (\<lambda>kv. fst kv \<noteq> key) (cmd_env b)\<rparr>"

datatype sig = SigABRT | SigALRM | SigFPE | SigHUP | SigILL | SigINT | SigKILL | SigPIPE | SigQUIT | SigSEGV | SigTERM | SigUSR1 | SigCustom string

text \<open>The numbers are those of Linux.\<close>

fun map_sig :: "sig \<Rightarrow> nat option" where
  "map_sig SigABRT = Some 6"
| "map_sig SigALRM = Some 14"
| "map_sig SigFPE = Some 8"
| "map_sig SigHUP = Some 1"
| "map_sig SigILL = Some 4"
| "map_sig SigINT = Some 2"
| "map_sig SigKILL = Some 9"
| "map_sig SigPIPE = Some 13"
| "map_sig SigQUIT = Some 3"
| "map_sig SigSEGV = Some 11"
| "map_sig SigTERM = Some 15"
| "map_sig SigUSR1 = Some 10"
| "map_sig (SigCustom _) = None"

section \<open>Lemmas\<close>

subsection \<open>Sizes\<close>

lemma clamp_range: "lo \<le> hi \<Longrightarrow> lo \<le> clamp lo hi x \<and> clamp lo hi x \<le> hi"
  by (auto simp: clamp_def not_less)

lemma unat_ucast_clamp:
  assumes "lo \<le> (0xFFFF :: u32)"
  shows "unat (ucast (clamp lo 0xFFFF x) :: u16) = max (unat lo) (min 65535 (unat x))"
proof -
  have "unat lo \<le> 65535" using assms by (simp add: word_le_nat_alt)
  then have "unat (clamp lo 0xFFFF x) = max (unat lo) (min 65535 (unat x))"
    by (auto simp: clamp_def word_less_nat_alt)
  moreover have "max (unat lo) (min 65535 (unat x)) < 65536" using \<open>unat lo \<le> 65535\<close> by auto
  ultimately show ?thesis by (simp add: unsigned_ucast_eq take_bit_nat_eq_self)
qed

lemma env_dimension_pos: "0 < fallback \<Longrightarrow> 0 < env_dimension var fallback"
  by (auto simp: env_dimension_def split: option.splits)

subsection \<open>Echo\<close>

lemma filter_echo_bytes_echoed: "b \<in> set (filter_echo_bytes xs) \<Longrightarrow> echoed b"
  by (induction xs rule: filter_echo_bytes.induct) (auto simp: echoed_def split: if_splits)

lemma filter_echo_bytes_length: "length (filter_echo_bytes xs) \<le> length xs"
proof (induction xs rule: filter_echo_bytes.induct)
  case (2 b xs)
  then show ?case using escape_rest_length [of xs] by (auto intro: le_trans le_SucI)
qed simp

lemma filter_echo_bytes_append_plain:
  "0x1B \<notin> set xs \<Longrightarrow> filter_echo_bytes (xs @ ys) = filter_echo_bytes xs @ filter_echo_bytes ys"
  by (induction xs) auto

text \<open>A control sequence cut between two packets: its tail is echoed as text.\<close>

lemma split_sequence_is_echoed:
  "filter_echo_bytes [0x1B] @ filter_echo_bytes [0x5B, 0x41] = [0x5B, 0x41]"
  "filter_echo_bytes [0x1B, 0x5B, 0x41] = []"
  by (simp_all add: escape_rest_def echoed_def is_ascii_graphic_def)

subsection \<open>Cursor queries\<close>

text \<open>The state of the scanner is the length of the prefix of the query that the input ends with.\<close>

definition dsr_tracks :: "u8 \<Rightarrow> bytes \<Rightarrow> bool" where
  "dsr_tracks st seen \<longleftrightarrow>
     (suffix [0x1B] seen \<longleftrightarrow> st = 1) \<and> (suffix [0x1B, 0x5B] seen \<longleftrightarrow> st = 2) \<and>
     (suffix [0x1B, 0x5B, 0x36] seen \<longleftrightarrow> st = 3)"

lemma suffix_Cons_snoc: "suffix (x # xs @ [y]) (seen @ [b]) \<longleftrightarrow> y = b \<and> suffix (x # xs) seen"
  by (metis append_Cons snoc_suffix_snoc)

lemmas query_suffixes =
  suffix_Cons_snoc [where xs = "[]", simplified] suffix_Cons_snoc [where xs = "[z]" for z, simplified]
  suffix_Cons_snoc [where xs = "[z, z']" for z z', simplified]

lemma suffix_single: "suffix [x] (seen @ [b]) \<longleftrightarrow> x = b"
  by (auto simp: suffix_def)

lemma dsr_step_tracks:
  assumes "dsr_tracks st seen" and "dsr_step st (t, b) = (st', reply)"
  shows "dsr_tracks st' (seen @ [b])"
    and "reply \<longleftrightarrow> suffix dsr_query (seen @ [b]) \<and> t < DSR_AUTOREPLY_WINDOW"
  using assms
  by (auto simp: dsr_tracks_def dsr_step_def dsr_query_def query_suffixes suffix_single split: if_splits)

lemma dsr_scan_tracks:
  "dsr_tracks st seen \<Longrightarrow>
   dsr_scan st ebs =
     map (\<lambda>i. suffix dsr_query (seen @ map snd (take (Suc i) ebs)) \<and> fst (ebs ! i) < DSR_AUTOREPLY_WINDOW)
         [0..<length ebs]"
proof (induction ebs arbitrary: st seen)
  case (Cons eb ebs)
  obtain t b where eb: "eb = (t, b)" by (rule prod.exhaust)
  obtain st' reply where step: "dsr_step st eb = (st', reply)" by (rule prod.exhaust)
  note tracks = dsr_step_tracks [OF Cons.prems step [unfolded eb]]
  have upt: "[0..<length (eb # ebs)] = 0 # map Suc [0..<length ebs]" by (simp add: map_Suc_upt upt_conv_Cons del: upt_Suc)
  show ?case
    unfolding upt using Cons.IH [OF tracks(1)] tracks(2) step eb by simp
qed simp

section \<open>Properties\<close>

text \<open>Whatever a client types, the server echoes only printable ASCII, space, tab, line feed and the bytes of non-ASCII
  characters, never more bytes than were typed; text without escape characters is echoed chunk by chunk.\<close>

theorem echo_is_harmless:
  "list_all (\<lambda>b. b = 0x0A \<or> b = 0x09 \<or> 0x20 \<le> b \<and> b \<le> 0x7E \<or> 0x80 \<le> b) (filter_echo_bytes xs) \<and>
   length (filter_echo_bytes xs) \<le> length xs \<and>
   (0x1B \<in> set xs \<or> filter_echo_bytes (xs @ ys) = filter_echo_bytes xs @ filter_echo_bytes ys)"
proof -
  have "b = 0x0A \<or> b = 0x09 \<or> 0x20 \<le> b \<and> b \<le> 0x7E \<or> 0x80 \<le> b" if "echoed b" for b
    using that by (auto simp: echoed_def is_ascii_graphic_def word_le_nat_alt)
  then show ?thesis
    using filter_echo_bytes_echoed filter_echo_bytes_length [of xs] filter_echo_bytes_append_plain [of xs ys]
    by (auto simp: list_all_iff)
qed

text \<open>The scanner of the terminal output answers at a byte exactly when that byte completes the cursor query
  \<^verbatim>\<open>ESC [ 6 n\<close> anywhere in the output, also across reads, and the auto-reply window is still open.\<close>

theorem dsr_scan_finds_queries:
  "dsr_scan 0 ebs =
     map (\<lambda>i. suffix dsr_query (map snd (take (Suc i) ebs)) \<and> fst (ebs ! i) < DSR_AUTOREPLY_WINDOW) [0..<length ebs]"
  using dsr_scan_tracks [of 0 "[]" ebs] by (simp add: dsr_tracks_def)

text \<open>The size given to a terminal is the requested one, brought between 1 (0 for the pixels) and 65535 without wrapping;
  the fallback size is never empty.\<close>

theorem pty_sizes_in_range:
  "unat (rows (pty_size_of c r pw ph)) = max 1 (min 65535 (unat r)) \<and>
   unat (cols (pty_size_of c r pw ph)) = max 1 (min 65535 (unat c)) \<and>
   unat (pixel_width (pty_size_of c r pw ph)) = min 65535 (unat pw) \<and>
   unat (pixel_height (pty_size_of c r pw ph)) = min 65535 (unat ph) \<and>
   0 < rows (default_pty_size vars) \<and> 0 < cols (default_pty_size vars)"
  using unat_ucast_clamp [of 1 r] unat_ucast_clamp [of 1 c] unat_ucast_clamp [of 0 pw] unat_ucast_clamp [of 0 ph]
  by (simp add: pty_size_of_def default_pty_size_def env_dimension_pos)

end
