(* ===== verification/Utf8_Lossy.thy ===== *)
theory Utf8_Lossy
  imports Irosh_Prelude
begin

text \<open>
  \<^verbatim>\<open>String::from_utf8_lossy\<close>, which the server applies to the command of an exec request and the
  client to typed lines.  The input is split the way the standard library splits it: the bytes read
  until a character cannot be completed become one replacement character.
\<close>

abbreviation octet :: "char \<Rightarrow> nat" where "octet c \<equiv> of_char c"

text \<open>The byte at an index, or zero past the end.\<close>

definition safe_get :: "string \<Rightarrow> nat \<Rightarrow> char" where
  "safe_get s i = (if i < length s then s ! i else CHR 0x00)"

text \<open>May \<open>b\<close> follow the first byte \<open>a\<close> of a sequence of three or four bytes?\<close>

definition second3 :: "char \<Rightarrow> char \<Rightarrow> bool" where
  "second3 a b \<longleftrightarrow> continuation b \<and> (octet a \<noteq> 0xE0 \<or> 0xA0 \<le> octet b) \<and> (octet a \<noteq> 0xED \<or> octet b < 0xA0)"

definition second4 :: "char \<Rightarrow> char \<Rightarrow> bool" where
  "second4 a b \<longleftrightarrow> continuation b \<and> (octet a \<noteq> 0xF0 \<or> 0x90 \<le> octet b) \<and> (octet a \<noteq> 0xF4 \<or> octet b < 0x90)"

text \<open>How many bytes the next piece of a non-empty input has, and whether it is a character.\<close>

definition utf8_step :: "string \<Rightarrow> bool \<times> nat" where
  "utf8_step s =
     (let a = safe_get s 0; n = octet a; b = safe_get s 1; c = safe_get s 2; d = safe_get s 3 in
      if n < 0x80 then (True, 1)
      else if 0xC2 \<le> n \<and> n \<le> 0xDF then (if continuation b then (True, 2) else (False, 1))
      else if 0xE0 \<le> n \<and> n \<le> 0xEF then
        (if \<not> second3 a b then (False, 1) else if \<not> continuation c then (False, 2) else (True, 3))
      else if 0xF0 \<le> n \<and> n \<le> 0xF4 then
        (if \<not> second4 a b then (False, 1) else if \<not> continuation c then (False, 2)
         else if \<not> continuation d then (False, 3) else (True, 4))
      else (False, 1))"

definition replacement :: string where
  "replacement = [CHR 0xEF, CHR 0xBF, CHR 0xBD]"

lemma utf8_step_pos: "0 < snd (utf8_step s)"
  by (simp add: utf8_step_def Let_def)

function from_utf8_lossy :: "string \<Rightarrow> string" where
  "from_utf8_lossy [] = []"
| "from_utf8_lossy (a # s) =
     (case utf8_step (a # s) of (ok, n) \<Rightarrow>
        (if ok then take n (a # s) else replacement) @ from_utf8_lossy (drop n (a # s)))"
  by pat_completeness auto
termination
proof (relation "measure length")
  fix a s ok n
  assume "(ok, n) = utf8_step (a # s)"
  then have "0 < n" using utf8_step_pos [of "a # s"] by (metis snd_conv)
  then show "(drop n (a # s), a # s) \<in> measure length" by simp
qed simp

section \<open>The result is well-formed, and well-formed text is kept\<close>

lemma not_continuation_zero [simp]: "\<not> continuation (CHR 0x00)"
  by (simp add: continuation_def)

lemma safe_get_continuation: "continuation (safe_get s i) \<Longrightarrow> i < length s"
  by (auto simp: safe_get_def split: if_splits)

lemma utf8_valid_step:
  assumes "s \<noteq> []"
  shows "utf8_valid s \<longleftrightarrow> fst (utf8_step s) \<and> utf8_valid (drop (snd (utf8_step s)) s)"
proof -
  obtain a t where s: "s = a # t" using assms by (cases s) auto
  consider "t = []" | b where "t = [b]" | b c where "t = [b, c]" | b c d u where "t = b # c # d # u"
    by (metis list.exhaust)
  then show ?thesis
    by cases (auto simp: s utf8_step_def safe_get_def second3_def second4_def Let_def)
qed

lemma utf8_step_length: "s \<noteq> [] \<Longrightarrow> snd (utf8_step s) \<le> length s"
  using safe_get_continuation [of s 1] safe_get_continuation [of s 2] safe_get_continuation [of s 3]
  by (cases s) (auto simp: utf8_step_def Let_def second3_def second4_def Suc_le_eq numeral_2_eq_2 numeral_3_eq_3)

lemma safe_get_take_append: "n \<le> length s \<Longrightarrow> i < n \<Longrightarrow> safe_get (take n s @ t) i = safe_get s i"
  by (simp add: safe_get_def nth_append)

lemma utf8_step_append:
  assumes "s \<noteq> []" and step: "utf8_step s = (True, n)"
  shows "utf8_step (take n s @ t) = (True, n)"
proof -
  have n: "n \<le> length s" using utf8_step_length [OF assms(1)] step by simp
  define s' where "s' = take n s @ t"
  have get: "safe_get s' i = safe_get s i" if "i < n" for i
    unfolding s'_def by (rule safe_get_take_append [OF n that])
  from step consider
      "n = 1" "octet (safe_get s 0) < 0x80"
    | "n = 2" "0xC2 \<le> octet (safe_get s 0)" "octet (safe_get s 0) \<le> 0xDF" "continuation (safe_get s 1)"
    | "n = 3" "0xE0 \<le> octet (safe_get s 0)" "octet (safe_get s 0) \<le> 0xEF"
        "second3 (safe_get s 0) (safe_get s 1)" "continuation (safe_get s 2)"
    | "n = 4" "0xF0 \<le> octet (safe_get s 0)" "octet (safe_get s 0) \<le> 0xF4"
        "second4 (safe_get s 0) (safe_get s 1)" "continuation (safe_get s 2)" "continuation (safe_get s 3)"
    by (simp add: utf8_step_def Let_def split: if_splits)
  then have "utf8_step s' = (True, n)" by cases (simp_all add: utf8_step_def Let_def get)
  then show ?thesis by (simp add: s'_def)
qed

lemma utf8_valid_replacement: "utf8_valid (replacement @ t) = utf8_valid t"
  by (simp add: replacement_def continuation_def)

lemma from_utf8_lossy_valid: "utf8_valid (from_utf8_lossy s)"
proof (induction s rule: from_utf8_lossy.induct)
  case (2 a s)
  obtain ok n where step: "utf8_step (a # s) = (ok, n)" by (rule prod.exhaust)
  note IH = 2 [OF step [symmetric]]
  show ?case
  proof (cases ok)
    case True
    let ?r = "take n (a # s) @ from_utf8_lossy (drop n (a # s))"
    have n: "0 < n" "n \<le> length (a # s)"
      using utf8_step_pos [of "a # s"] utf8_step_length [of "a # s"] step by auto
    then have "utf8_step ?r = (True, n)" and "drop n ?r = from_utf8_lossy (drop n (a # s))" and "?r \<noteq> []"
      using utf8_step_append [of "a # s"] step True by auto
    then have "utf8_valid ?r" using utf8_valid_step [of ?r] IH by simp
    then show ?thesis using step True by simp
  qed (simp add: step utf8_valid_replacement IH)
qed simp

lemma from_utf8_lossy_id: "utf8_valid s \<Longrightarrow> from_utf8_lossy s = s"
proof (induction s rule: from_utf8_lossy.induct)
  case (2 a s)
  obtain ok n where step: "utf8_step (a # s) = (ok, n)" by (rule prod.exhaust)
  have "ok" and "utf8_valid (drop n (a # s))" using utf8_valid_step [of "a # s"] "2.prems" step by auto
  then show ?case using 2 step by simp
qed simp

lemma utf8_step_ascii: "octet a < 0x80 \<Longrightarrow> utf8_step (a # s) = (True, 1)"
  by (simp add: utf8_step_def safe_get_def)

lemma from_utf8_lossy_ascii:
  "(\<And>c. c \<in> set s \<Longrightarrow> octet c < 0x80) \<Longrightarrow> from_utf8_lossy (s @ t) = s @ from_utf8_lossy t"
  by (induction s) (simp_all add: utf8_step_ascii)

lemma utf8_valid_append: "utf8_valid s \<Longrightarrow> utf8_valid (s @ t) = utf8_valid t"
proof (induction s rule: from_utf8_lossy.induct)
  case (2 a s)
  obtain ok n where step: "utf8_step (a # s) = (ok, n)" by (rule prod.exhaust)
  have ok: "ok" "utf8_valid (drop n (a # s))" using utf8_valid_step [of "a # s"] "2.prems" step by auto
  have n: "n \<le> length (a # s)" using utf8_step_length [of "a # s"] step by simp
  have "take n (a # s) @ drop n (a # s) @ t = (a # s) @ t" by (metis append_assoc append_take_drop_id)
  then have "utf8_step ((a # s) @ t) = (True, n)"
    using utf8_step_append [of "a # s" n "drop n (a # s) @ t"] step ok by (metis list.distinct(1))
  moreover have "drop n ((a # s) @ t) = drop n (a # s) @ t" using n drop_append [of n "a # s" t] by simp
  ultimately have "utf8_valid ((a # s) @ t) = utf8_valid (drop n (a # s) @ t)"
    using utf8_valid_step [of "(a # s) @ t"] by (simp del: utf8_valid.simps)
  then show ?case using "2.IH" [OF step [symmetric] ok(2)] by (simp del: utf8_valid.simps)
qed simp

end
