(* ===== verification/Server_Handler.thy ===== *)
theory Server_Handler
  imports Pty_Session Utf8_Lossy Server_Dispatch Auth_Interface "HOL-Library.AList"
begin

text \<open>
  The SSH server handler of one connection: \<^verbatim>\<open>src/server/handler/mod.rs\<close>, \<^verbatim>\<open>pty.rs\<close> and \<^verbatim>\<open>exec.rs\<close>,
  on Unix.  Hash maps are association lists with distinct keys, so that an iteration has some order.
  The processes, the terminals and the messages to the client are logs of what the handler asked for:
  \<open>os\<close> and \<open>replies\<close>.  The SSH library calls one operation at a time; the reader tasks and the idle
  reaper run between them and are operations too.
\<close>

section \<open>State\<close>

type_synonym channel_id = u32

record pty_spec =
  term_name :: string
  dims :: pty_size
  echo_mode :: bool

definition pty_spec_default :: "(string \<Rightarrow> string option) \<Rightarrow> pty_spec" where
  "pty_spec_default vars = \<lparr>term_name = ''xterm-256color'', dims = default_pty_size vars, echo_mode = False\<rparr>"

text \<open>\<open>master\<close> and \<open>pty_tx\<close> say whether the handle of the terminal and the sender to its writer thread are still held.\<close>

record running_pty =
  master :: bool
  pty_tx :: bool
  pid :: "u32 option"
  pgid :: "int option"
  server_echo :: bool

record channel_state =
  pty :: pty_spec
  env_vars :: "(string \<times> string) list"
  process :: "running_pty option"

definition channel_state_default :: "(string \<Rightarrow> string option) \<Rightarrow> channel_state" where
  "channel_state_default vars = \<lparr>pty = pty_spec_default vars, env_vars = [], process = None\<rparr>"

datatype os_call =
    Spawned channel_id command_builder "u32 option"
  | ReaderCancelled channel_id
  | KillPg int nat
  | KillPid int nat
  | KillerKill channel_id
  | MasterResized channel_id pty_size
  | PtyInput channel_id bytes
  | MasterDropped channel_id
  | ReaderFinished channel_id "u32 option"

datatype reply =
    OpenAccepted channel_id
  | OpenRejected channel_id
  | ChannelSuccess channel_id
  | ChannelFailure channel_id
  | SentData channel_id bytes
  | SentExitStatus channel_id u32
  | SentEof channel_id
  | SentClose channel_id

datatype handler_error =
    ChannelError string string
  | PtyShellError string
  | SshError string

record handler =
  channels :: "(channel_id \<times> channel_state) list"
  streamed_channels :: "channel_id set"
  auth_gate :: "bool option"
  idle_timeout :: nat
  idle :: "(channel_id \<times> nat) list"
  reaper_started :: bool
  live_shell :: "nat option"
  h_metrics :: metrics
  readers :: "(channel_id \<times> u32 option) list"
  os :: "os_call list"
  replies :: "reply list"
  reply_results :: "(string + unit) list"

definition handler_with_metrics :: "metrics \<Rightarrow> handler" where
  "handler_with_metrics m =
     \<lparr>channels = [], streamed_channels = {}, auth_gate = None, idle_timeout = 0, idle = [], reaper_started = False,
      live_shell = None, h_metrics = m, readers = [], os = [], replies = [], reply_results = []\<rparr>"

definition handler_new :: handler where
  "handler_new = handler_with_metrics metrics_new"

definition with_idle_timeout :: "nat \<Rightarrow> handler \<Rightarrow> handler" where
  "with_idle_timeout timeout h = h\<lparr>idle_timeout := timeout\<rparr>"

definition with_auth_gate :: "bool \<Rightarrow> handler \<Rightarrow> handler" where
  "with_auth_gate gate h = h\<lparr>auth_gate := Some gate\<rparr>"

definition open_auth_gate :: "handler \<Rightarrow> handler" where
  "open_auth_gate h = (case auth_gate h of Some _ \<Rightarrow> h\<lparr>auth_gate := Some True\<rparr> | None \<Rightarrow> h)"

text \<open>A message to the client.  \<open>reply_results\<close> are the results the SSH library gives to the coming messages; past their end they succeed.\<close>

definition reply :: "reply \<Rightarrow> (handler, string, unit) op" where
  "reply r h =
     (case reply_results h of
        Inl e # others \<Rightarrow> (Inl e, h\<lparr>reply_results := others\<rparr>)
      | results \<Rightarrow> (Inr (), h\<lparr>replies := replies h @ [r], reply_results := tl results\<rparr>))"

definition call_os :: "os_call list \<Rightarrow> handler \<Rightarrow> handler" where
  "call_os cs h = h\<lparr>os := os h @ cs\<rparr>"

section \<open>Idle tracking\<close>

definition touch_idle :: "nat \<Rightarrow> channel_id \<Rightarrow> handler \<Rightarrow> handler" where
  "touch_idle now ch h = h\<lparr>idle := AList.update ch now (idle h)\<rparr>"

definition mark_channel_active :: "nat \<Rightarrow> channel_id \<Rightarrow> handler \<Rightarrow> handler" where
  "mark_channel_active now ch h = (if idle_timeout h = 0 then h else touch_idle now ch h)"

definition forget_channel :: "channel_id \<Rightarrow> handler \<Rightarrow> handler" where
  "forget_channel ch h = h\<lparr>idle := AList.delete ch (idle h)\<rparr>"

definition ensure_reaper :: "handler \<Rightarrow> handler" where
  "ensure_reaper h = (if idle_timeout h = 0 then h else h\<lparr>reaper_started := True\<rparr>)"

definition reaper_period :: "nat \<Rightarrow> nat" where
  "reaper_period timeout = max (10 * 10 ^ 6) (min (60 * 10 ^ 9) (timeout div 4))"

definition stale_channels :: "nat \<Rightarrow> handler \<Rightarrow> channel_id list" where
  "stale_channels now h = map fst (filter (\<lambda>(ch, last). now - last > idle_timeout h) (idle h))"

fun close_stale :: "channel_id list \<Rightarrow> handler \<Rightarrow> handler" where
  "close_stale [] h = h"
| "close_stale (ch # chs) h =
     (case reply (SentClose ch) (forget_channel ch h) of
        (Inl _, h1) \<Rightarrow> h1
      | (Inr _, h1) \<Rightarrow> close_stale chs h1)"

definition reaper_tick :: "nat \<Rightarrow> handler \<Rightarrow> handler" where
  "reaper_tick now h = (if reaper_started h then close_stale (stale_channels now h) h else h)"

section \<open>Authentication\<close>

datatype ssh_auth = Accept | Reject "auth_method list option" bool

definition remaining_methods :: "auth_method list \<Rightarrow> auth_method \<Rightarrow> auth_method list option" where
  "remaining_methods methods used =
     (let remaining = filter (\<lambda>m. m \<noteq> used) methods in if remaining = [] then None else Some remaining)"

definition auth_publickey ::
  "('w \<Rightarrow> auth_method list) \<Rightarrow> (nat \<Rightarrow> 'k \<Rightarrow> 'w \<Rightarrow> (irosh_error + bool) \<times> 'w) \<Rightarrow> nat \<Rightarrow> 'k
     \<Rightarrow> ('w \<times> handler, irosh_error, ssh_auth) op" where
  "auth_publickey supported check_public_key now key wh =
     (case wh of (w, h) \<Rightarrow>
        case check_public_key now key w of
          (Inl e, w1) \<Rightarrow> (Inl e, (w1, h))
        | (Inr accepted, w1) \<Rightarrow>
            if accepted then (Inr Accept, (w1, open_auth_gate h))
            else (Inr (Reject (remaining_methods (supported w1) PublicKey) False),
                  (w1, h\<lparr>h_metrics := record_error (h_metrics h)\<rparr>)))"

definition auth_password ::
  "('w \<Rightarrow> auth_method list) \<Rightarrow> (nat \<Rightarrow> string \<Rightarrow> 'w \<Rightarrow> (irosh_error + bool) \<times> 'w) \<Rightarrow> nat \<Rightarrow> string
     \<Rightarrow> ('w \<times> handler, irosh_error, ssh_auth) op" where
  "auth_password supported check_password now pw wh =
     (case wh of (w, h) \<Rightarrow>
        case check_password now pw w of
          (Inl e, w1) \<Rightarrow> (Inl e, (w1, h))
        | (Inr accepted, w1) \<Rightarrow>
            if accepted then (Inr Accept, (w1, open_auth_gate h))
            else (Inr (Reject (remaining_methods (supported w1) Password) False),
                  (w1, h\<lparr>h_metrics := record_error (h_metrics h)\<rparr>)))"

section \<open>Channels\<close>

definition channel_entry :: "(string \<Rightarrow> string option) \<Rightarrow> channel_id \<Rightarrow> handler \<Rightarrow> channel_state" where
  "channel_entry vars ch h =
     (case map_of (channels h) ch of Some st \<Rightarrow> st | None \<Rightarrow> channel_state_default vars)"

definition set_channel :: "channel_id \<Rightarrow> channel_state \<Rightarrow> handler \<Rightarrow> handler" where
  "set_channel ch st h = h\<lparr>channels := AList.update ch st (channels h)\<rparr>"

definition channel_open_session :: "(string \<Rightarrow> string option) \<Rightarrow> channel_id \<Rightarrow> (handler, handler_error, unit) op" where
  "channel_open_session vars ch h =
     ignoreS (reply (OpenAccepted ch)) (set_channel ch (channel_entry vars ch h) h)"

text \<open>\<open>connected\<close> is the outcome of the connection attempt to the target, within fifteen seconds.\<close>

definition channel_open_direct_tcpip :: "bool \<Rightarrow> channel_id \<Rightarrow> (handler, handler_error, unit) op" where
  "channel_open_direct_tcpip connected ch h =
     (if connected
      then ignoreS (reply (OpenAccepted ch)) (h\<lparr>streamed_channels := insert ch (streamed_channels h)\<rparr>)
      else ignoreS (reply (OpenRejected ch)) h)"

definition set_channel_pty :: "channel_id \<Rightarrow> string \<Rightarrow> pty_size \<Rightarrow> bool \<Rightarrow> (handler, handler_error, unit) op" where
  "set_channel_pty ch term sz echo h =
     (case map_of (channels h) ch of
        None \<Rightarrow> errS SshError (reply (ChannelFailure ch)) h
      | Some st \<Rightarrow>
          errS SshError (reply (ChannelSuccess ch))
            (set_channel ch (st\<lparr>pty := \<lparr>term_name = term, dims = sz, echo_mode = echo\<rparr>\<rparr>) h))"

text \<open>A terminal mode is its opcode and its value; 53 is \<^verbatim>\<open>ECHO\<close>.\<close>

definition pty_request ::
  "channel_id \<Rightarrow> string \<Rightarrow> u32 \<Rightarrow> u32 \<Rightarrow> u32 \<Rightarrow> u32 \<Rightarrow> (nat \<times> u32) list \<Rightarrow> (handler, handler_error, unit) op" where
  "pty_request ch term c r pw ph modes =
     (let echo = \<not> list_ex (\<lambda>(mode, value). mode = 53 \<and> value = 0) modes
      in set_channel_pty ch term (pty_size_of c r pw ph) echo)"

definition record_env :: "channel_id \<Rightarrow> string \<Rightarrow> string \<Rightarrow> (handler, handler_error, unit) op" where
  "record_env ch var value h =
     (case map_of (channels h) ch of
        None \<Rightarrow> errS SshError (reply (ChannelFailure ch)) h
      | Some st \<Rightarrow>
          errS SshError (reply (ChannelSuccess ch))
            (set_channel ch (st\<lparr>env_vars := AList.update var value (env_vars st)\<rparr>) h))"

definition resize_channel :: "channel_id \<Rightarrow> u32 \<Rightarrow> u32 \<Rightarrow> u32 \<Rightarrow> u32 \<Rightarrow> (handler, handler_error, unit) op" where
  "resize_channel ch c r pw ph h =
     (let sz = pty_size_of c r pw ph in
      case map_of (channels h) ch of
        None \<Rightarrow> errS SshError (reply (ChannelFailure ch)) h
      | Some st \<Rightarrow>
          let h1 = set_channel ch (st\<lparr>pty := (pty st)\<lparr>dims := sz\<rparr>\<rparr>) h;
              h2 = (case process st of
                      Some p \<Rightarrow> if master p then call_os [MasterResized ch sz] h1 else h1
                    | None \<Rightarrow> h1)
          in errS SshError (reply (ChannelSuccess ch)) h2)"

definition write_channel_data :: "channel_id \<Rightarrow> bytes \<Rightarrow> handler \<Rightarrow> handler" where
  "write_channel_data ch data h =
     (case Option.bind (map_of (channels h) ch) process of
        Some p \<Rightarrow> if pty_tx p then call_os [PtyInput ch data] h else h
      | None \<Rightarrow> h)"

definition channel_server_echo :: "channel_id \<Rightarrow> handler \<Rightarrow> bool" where
  "channel_server_echo ch h =
     (case Option.bind (map_of (channels h) ch) process of Some p \<Rightarrow> server_echo p | None \<Rightarrow> False)"

definition handle_data :: "nat \<Rightarrow> channel_id \<Rightarrow> bytes \<Rightarrow> (handler, handler_error, unit) op" where
  "handle_data now ch data h =
     (if ch \<in> streamed_channels h then (Inr (), h)
      else
        let h1 = write_channel_data ch data (mark_channel_active now ch h); echo = filter_echo_bytes data in
        if channel_server_echo ch h1 \<and> echo \<noteq> [] then ignoreS (reply (SentData ch echo)) h1 else (Inr (), h1))"

definition close_channel_writer :: "channel_id \<Rightarrow> handler \<Rightarrow> handler" where
  "close_channel_writer ch h =
     (case map_of (channels h) ch of
        Some st \<Rightarrow>
          (case process st of
             Some p \<Rightarrow> set_channel ch (st\<lparr>process := Some (p\<lparr>pty_tx := False\<rparr>)\<rparr>) h
           | None \<Rightarrow> h)
      | None \<Rightarrow> h)"

definition channel_eof :: "channel_id \<Rightarrow> handler \<Rightarrow> handler" where
  "channel_eof ch h = close_channel_writer ch (forget_channel ch h)"

section \<open>Processes\<close>

text \<open>What the terminal library and the system answer to the steps of a start.\<close>

record start_outcome =
  openpty :: "pty_size \<Rightarrow> string + unit"
  spawn_command :: "command_builder \<Rightarrow> string + u32 option"
  try_clone_reader :: "string + unit"
  take_writer :: "string + unit"
  spawn_writer :: "string + unit"

definition command_for :: "channel_state \<Rightarrow> string option \<Rightarrow> command_builder" where
  "command_for st command =
     fold (\<lambda>(key, value). builder_env key value) (env_vars st)
       (builder_env ''TERM'' (term_name (pty st)) (build_command command))"

text \<open>The handles of a spawned child: a failure here ends the request after the child has started.\<close>

definition attach_pty :: "start_outcome \<Rightarrow> handler_error + unit" where
  "attach_pty E =
     and_then (map_err (\<lambda>e. PtyShellError (''failed to clone PTY reader: '' @ e)) (try_clone_reader E)) (\<lambda>_.
     and_then (map_err (\<lambda>e. PtyShellError (''failed to take PTY writer: '' @ e)) (take_writer E)) (\<lambda>_.
     map_err (\<lambda>e. PtyShellError (''failed to spawn PTY writer thread: '' @ e)) (spawn_writer E)))"

definition new_process :: "u32 option \<Rightarrow> running_pty" where
  "new_process child_pid =
     \<lparr>master = True, pty_tx = True, pid = child_pid, pgid = map_option sint child_pid, server_echo = False\<rparr>"

definition run_child :: "channel_id \<Rightarrow> channel_state \<Rightarrow> u32 option \<Rightarrow> (handler, handler_error, unit) op" where
  "run_child ch st child_pid h =
     (case errS (ChannelError ''confirm channel success'') (reply (ChannelSuccess ch))
             (set_channel ch (st\<lparr>process := Some (new_process child_pid)\<rparr>) h) of
        (Inl e, h1) \<Rightarrow> (Inl e, h1)
      | (Inr _, h1) \<Rightarrow> (Inr (), h1\<lparr>readers := (ch, child_pid) # readers h1\<rparr>))"

definition start_command ::
  "(string \<Rightarrow> string option) \<Rightarrow> start_outcome \<Rightarrow> channel_id \<Rightarrow> string option \<Rightarrow> (handler, handler_error, unit) op" where
  "start_command vars E ch command h =
     (let st = channel_entry vars ch h; h1 = set_channel ch st h in
      if process st \<noteq> None
      then errS (ChannelError ''reject duplicate channel'') (reply (ChannelFailure ch)) h1
      else case openpty E (dims (pty st)) of
        Inl e \<Rightarrow> (Inl (PtyShellError (''failed to open PTY: '' @ e)), h1)
      | Inr _ \<Rightarrow>
          (case spawn_command E (command_for st command) of
             Inl e \<Rightarrow> (Inl (PtyShellError (''failed to spawn command in PTY: '' @ e)), h1)
           | Inr child_pid \<Rightarrow>
               let h2 = call_os [Spawned ch (command_for st command) child_pid] h1;
                   h3 = (if command = None then h2\<lparr>live_shell := map_option unat child_pid\<rparr> else h2)
               in case attach_pty E of
                    Inl e \<Rightarrow> (Inl e, h3)
                  | Inr _ \<Rightarrow> run_child ch st child_pid h3))"

definition start_request ::
  "nat \<Rightarrow> (string \<Rightarrow> string option) \<Rightarrow> start_outcome \<Rightarrow> channel_id \<Rightarrow> string option \<Rightarrow> (handler, handler_error, unit) op" where
  "start_request now vars E ch command h =
     (case start_command vars E ch command h of
        (Inl e, h1) \<Rightarrow> (Inl e, h1)
      | (Inr _, h1) \<Rightarrow> (Inr (), ensure_reaper (mark_channel_active now ch h1)))"

definition shell_request ::
  "nat \<Rightarrow> (string \<Rightarrow> string option) \<Rightarrow> start_outcome \<Rightarrow> channel_id \<Rightarrow> (handler, handler_error, unit) op" where
  "shell_request now vars E ch = start_request now vars E ch None"

definition exec_request ::
  "nat \<Rightarrow> (string \<Rightarrow> string option) \<Rightarrow> start_outcome \<Rightarrow> channel_id \<Rightarrow> bytes \<Rightarrow> (handler, handler_error, unit) op" where
  "exec_request now vars E ch data =
     start_request now vars E ch (Some (trim (from_utf8_lossy (str_of_bytes data))))"

text \<open>The signals of \<^verbatim>\<open>kill_pty_process\<close>: to the group, to the child, and the kill of the library; 9 is \<^verbatim>\<open>SIGKILL\<close>.\<close>

definition kill_pty_process :: "channel_id \<Rightarrow> running_pty \<Rightarrow> os_call list" where
  "kill_pty_process ch p =
     (case pgid p of Some g \<Rightarrow> [KillPg g 9] | None \<Rightarrow> []) @
     (case pid p of Some q \<Rightarrow> [KillPid (sint q) 9] | None \<Rightarrow> []) @ [KillerKill ch]"

definition close_channel :: "channel_id \<Rightarrow> handler \<Rightarrow> handler" where
  "close_channel ch h =
     (case map_of (channels h) ch of
        None \<Rightarrow> h
      | Some st \<Rightarrow>
          let h1 = h\<lparr>channels := AList.delete ch (channels h)\<rparr> in
          (case process st of
             None \<Rightarrow> h1
           | Some p \<Rightarrow>
               call_os ([ReaderCancelled ch] @ kill_pty_process ch p @ (if master p then [MasterDropped ch] else []))
                 (h1\<lparr>live_shell := clear_shell_pid_if_matches (map_option unat (pid p)) (live_shell h1)\<rparr>)))"

definition channel_close :: "channel_id \<Rightarrow> handler \<Rightarrow> handler" where
  "channel_close ch h =
     close_channel ch (forget_channel ch (h\<lparr>streamed_channels := streamed_channels h - {ch}\<rparr>))"

definition terminate_all_channels :: "handler \<Rightarrow> handler" where
  "terminate_all_channels h = fold close_channel (map fst (channels h)) h"

definition forward_signal :: "channel_id \<Rightarrow> sig \<Rightarrow> handler \<Rightarrow> handler" where
  "forward_signal ch signal h =
     (case Option.bind (map_of (channels h) ch) process of
        Some p \<Rightarrow>
          (case (pgid p, map_sig signal) of
             (Some g, Some n) \<Rightarrow> call_os [KillPg g n] h
           | _ \<Rightarrow> h)
      | None \<Rightarrow> h)"

text \<open>
  The reader task forwards a chunk of output; and, when the terminal is at its end, it reports the exit
  status, closes the channel and drops its \<^verbatim>\<open>CleanupGuard\<close>.
\<close>

definition reader_output :: "nat \<Rightarrow> channel_id \<Rightarrow> bytes \<Rightarrow> handler \<Rightarrow> handler" where
  "reader_output now ch chunk h =
     (case reply (SentData ch chunk) h of
        (Inl _, h1) \<Rightarrow> h1
      | (Inr _, h1) \<Rightarrow> mark_channel_active now ch h1)"

definition cleanup_guard_drop :: "channel_id \<Rightarrow> u32 option \<Rightarrow> handler \<Rightarrow> handler" where
  "cleanup_guard_drop ch child_pid h =
     h\<lparr>live_shell := clear_shell_pid_if_matches (Some (case child_pid of Some q \<Rightarrow> unat q | None \<Rightarrow> 0)) (live_shell h),
       channels := AList.delete ch (channels h),
       idle := AList.delete ch (idle h)\<rparr>"

text \<open>What the waiter of the child reports: its exit, an error of the wait, a failed task, or nothing within thirty seconds of the end.\<close>

datatype wait_outcome = ChildExited "io_error + u32" | WaiterFailed | StillRunning

fun exit_status_of :: "wait_outcome \<Rightarrow> u32" where
  "exit_status_of (ChildExited (Inr status)) = status"
| "exit_status_of _ = 255"

definition reader_finish :: "channel_id \<Rightarrow> u32 option \<Rightarrow> wait_outcome \<Rightarrow> handler \<Rightarrow> handler" where
  "reader_finish ch child_pid waited h =
     (if (ch, child_pid) \<in> set (readers h)
      then let h1 = snd (reply (SentClose ch) (snd (reply (SentEof ch) (snd (reply (SentExitStatus ch (exit_status_of waited)) h)))));
               h2 = cleanup_guard_drop ch child_pid h1
           in call_os [ReaderFinished ch child_pid] (h2\<lparr>readers := removeAll (ch, child_pid) (readers h2)\<rparr>)
      else h)"

end
