(* ===== verification/Handler_Lifecycle.thy ===== *)
theory Handler_Lifecycle
  imports Server_Handler
begin

text \<open>
  The life of the channels of a connection: the calls of the SSH library, the output and the end of the
  reader tasks and the ticks of the idle reaper as a sequence of events, and what holds of every sequence.
\<close>

section \<open>Runs of a handler\<close>

datatype handler_event =
    OpenSession channel_id
  | OpenDirectTcpip bool channel_id
  | PtyRequest channel_id string u32 u32 u32 u32 "(nat \<times> u32) list"
  | EnvRequest channel_id string string
  | ShellRequest nat start_outcome channel_id
  | ExecRequest nat start_outcome channel_id bytes
  | DataReceived nat channel_id bytes
  | WindowChange channel_id u32 u32 u32 u32
  | EofReceived channel_id
  | CloseReceived channel_id
  | SignalReceived channel_id sig
  | ReaderOutput nat channel_id bytes
  | ReaderEnd channel_id "u32 option" wait_outcome
  | ReaperTick nat

fun handle_event :: "(string \<Rightarrow> string option) \<Rightarrow> handler_event \<Rightarrow> (handler, handler_error, unit) op" where
  "handle_event vars (OpenSession ch) h = channel_open_session vars ch h"
| "handle_event vars (OpenDirectTcpip connected ch) h = channel_open_direct_tcpip connected ch h"
| "handle_event vars (PtyRequest ch term c r pw ph modes) h = pty_request ch term c r pw ph modes h"
| "handle_event vars (EnvRequest ch var value) h = record_env ch var value h"
| "handle_event vars (ShellRequest now E ch) h = shell_request now vars E ch h"
| "handle_event vars (ExecRequest now E ch data) h = exec_request now vars E ch data h"
| "handle_event vars (DataReceived now ch data) h = handle_data now ch data h"
| "handle_event vars (WindowChange ch c r pw ph) h = resize_channel ch c r pw ph h"
| "handle_event vars (EofReceived ch) h = (Inr (), channel_eof ch h)"
| "handle_event vars (CloseReceived ch) h = (Inr (), channel_close ch h)"
| "handle_event vars (SignalReceived ch signal) h = (Inr (), forward_signal ch signal h)"
| "handle_event vars (ReaderOutput now ch chunk) h = (Inr (), reader_output now ch chunk h)"
| "handle_event vars (ReaderEnd ch child_pid status) h = (Inr (), reader_finish ch child_pid status h)"
| "handle_event vars (ReaperTick now) h = (Inr (), reaper_tick now h)"

text \<open>The SSH library ends the session at the first error of the handler.\<close>

fun run_events :: "(string \<Rightarrow> string option) \<Rightarrow> handler_event list \<Rightarrow> (handler, handler_error, unit) op" where
  "run_events vars [] h = (Inr (), h)"
| "run_events vars (e # es) h =
     (case handle_event vars e h of
        (Inl err, h1) \<Rightarrow> (Inl err, h1)
      | (Inr _, h1) \<Rightarrow> run_events vars es h1)"

definition session_end :: "(string \<Rightarrow> string option) \<Rightarrow> handler_event list \<Rightarrow> handler \<Rightarrow> handler" where
  "session_end vars es h = terminate_all_channels (snd (run_events vars es h))"

fun start_of :: "handler_event \<Rightarrow> (channel_id \<times> start_outcome) option" where
  "start_of (ShellRequest now E ch) = Some (ch, E)"
| "start_of (ExecRequest now E ch data) = Some (ch, E)"
| "start_of _ = None"

definition starts :: "handler_event list \<Rightarrow> channel_id list" where
  "starts es = map fst (List.map_filter start_of es)"

section \<open>What a channel runs\<close>

text \<open>The process and the process group of a channel; a child leads the group with its own number.\<close>

definition tracked :: "handler \<Rightarrow> channel_id \<Rightarrow> (u32 option \<times> int option) option" where
  "tracked h ch = map_option (\<lambda>p. (pid p, pgid p)) (Option.bind (map_of (channels h) ch) process)"

definition leader :: "u32 option \<Rightarrow> u32 option \<times> int option" where
  "leader q = (q, map_option sint q)"

definition not_spawned :: "os_call \<Rightarrow> bool" where
  "not_spawned c = (case c of Spawned _ _ _ \<Rightarrow> False | _ \<Rightarrow> True)"

text \<open>A step that neither starts, nor drops, nor stops a process.\<close>

definition quiet :: "handler \<Rightarrow> handler \<Rightarrow> bool" where
  "quiet h h' \<longleftrightarrow>
     tracked h' = tracked h \<and> readers h' = readers h \<and> (\<exists>cs. os h' = os h @ cs \<and> list_all not_spawned cs)"

lemma quiet_refl [simp, intro]: "quiet h h"
  by (simp add: quiet_def)

lemma quiet_trans: "quiet h h1 \<Longrightarrow> quiet h1 h2 \<Longrightarrow> quiet h h2"
  by (fastforce simp: quiet_def)

lemma quiet_same:
  "channels h' = channels h \<Longrightarrow> readers h' = readers h \<Longrightarrow> os h' = os h \<Longrightarrow> quiet h h'"
  by (simp add: quiet_def tracked_def fun_eq_iff)

lemma reply_quiet [simp, intro]: "quiet h (snd (reply r h))"
  by (rule quiet_same) (auto simp: reply_def split: list.splits sum.splits)

lemma reply_fields [simp]:
  "channels (snd (reply r h)) = channels h" "readers (snd (reply r h)) = readers h" "os (snd (reply r h)) = os h"
  "idle (snd (reply r h)) = idle h" "idle_timeout (snd (reply r h)) = idle_timeout h"
  by (auto simp: reply_def split: list.splits sum.splits)

lemma errS_reply_quiet: "quiet h h1 \<Longrightarrow> quiet h (snd (errS f (reply r) h1))"
  using quiet_trans [OF _ reply_quiet [of h1 r]] by (simp add: errS_def split_def)

lemma ignoreS_reply_quiet: "quiet h h1 \<Longrightarrow> quiet h (snd (ignoreS (reply r) h1))"
  using quiet_trans [OF _ reply_quiet [of h1 r]] by (simp add: ignoreS_def)

lemma call_os_quiet: "list_all not_spawned cs \<Longrightarrow> quiet h (call_os cs h)"
  by (simp add: quiet_def call_os_def tracked_def fun_eq_iff)

text \<open>Replacing the state of a channel by one with the same process.\<close>

lemma set_channel_quiet:
  "map_option (\<lambda>p. (pid p, pgid p)) (process st) = tracked h ch \<Longrightarrow> quiet h (set_channel ch st h)"
  by (auto simp: quiet_def set_channel_def tracked_def update_conv' fun_eq_iff)

lemma tracked_Some: "map_of (channels h) ch = Some st \<Longrightarrow> tracked h ch = map_option (\<lambda>p. (pid p, pgid p)) (process st)"
  by (simp add: tracked_def)

lemma tracked_entry: "map_option (\<lambda>p. (pid p, pgid p)) (process (channel_entry vars ch h)) = tracked h ch"
  by (auto simp: tracked_def channel_entry_def channel_state_default_def split: option.splits)

lemma idle_quiet [simp, intro]:
  "quiet h (forget_channel ch h)" "quiet h (touch_idle now ch h)" "quiet h (mark_channel_active now ch h)"
  "quiet h (ensure_reaper h)"
  by (auto intro!: quiet_same simp: forget_channel_def touch_idle_def mark_channel_active_def ensure_reaper_def)

lemma close_stale_quiet: "quiet h (close_stale chs h)"
proof (induction chs arbitrary: h)
  case (Cons ch chs)
  have q: "quiet h (snd (reply (SentClose ch) (forget_channel ch h)))"
    by (rule quiet_trans [OF _ reply_quiet]) simp
  obtain res h1 where r: "reply (SentClose ch) (forget_channel ch h) = (res, h1)" by (rule prod.exhaust)
  show ?case using q quiet_trans [OF _ Cons.IH [of h1]] r by (auto split: sum.splits)
qed simp

section \<open>Every event but a start, a close and the end of a reader is quiet\<close>

lemma pty_quiet: "quiet h (snd (set_channel_pty ch term sz echo h))"
  by (auto simp: set_channel_pty_def tracked_Some intro!: errS_reply_quiet set_channel_quiet split: option.splits)

lemma record_env_quiet: "quiet h (snd (record_env ch var value h))"
  by (auto simp: record_env_def tracked_Some intro!: errS_reply_quiet set_channel_quiet split: option.splits)

lemma resize_quiet: "quiet h (snd (resize_channel ch c r pw ph h))"
  by (auto simp: resize_channel_def Let_def tracked_Some not_spawned_def
      intro!: errS_reply_quiet quiet_trans [OF set_channel_quiet call_os_quiet] set_channel_quiet split: option.splits)

lemma write_quiet: "quiet h (write_channel_data ch data h)"
  by (auto simp: write_channel_data_def not_spawned_def intro!: call_os_quiet split: option.splits)

lemma data_quiet: "quiet h (snd (handle_data now ch data h))"
  using quiet_trans [OF idle_quiet(3) write_quiet]
  by (auto simp: handle_data_def Let_def intro!: ignoreS_reply_quiet)

lemma eof_quiet: "quiet h (channel_eof ch h)"
  unfolding channel_eof_def
  by (rule quiet_trans [of _ "forget_channel ch h"])
     (auto simp: close_channel_writer_def tracked_Some intro!: set_channel_quiet split: option.splits)

lemma signal_quiet: "quiet h (forward_signal ch signal h)"
  by (auto simp: forward_signal_def not_spawned_def intro!: call_os_quiet split: option.splits)

lemma output_quiet: "quiet h (reader_output now ch chunk h)"
proof -
  obtain res h1 where r: "reply (SentData ch chunk) h = (res, h1)" by (rule prod.exhaust)
  then have "quiet h h1" using reply_quiet [of h "SentData ch chunk"] by simp
  then show ?thesis using quiet_trans [OF _ idle_quiet(3)] by (auto simp: reader_output_def r split: sum.splits)
qed

lemma quiet_event:
  assumes "start_of e = None" and "\<And>ch. e \<noteq> CloseReceived ch" and "\<And>ch p c. e \<noteq> ReaderEnd ch p c"
  shows "quiet h (snd (handle_event vars e h))"
  using assms
  by (cases e)
     (auto simp: channel_open_session_def channel_open_direct_tcpip_def pty_request_def Let_def reaper_tick_def
        tracked_entry pty_quiet record_env_quiet resize_quiet data_quiet eof_quiet signal_quiet output_quiet
        close_stale_quiet intro!: ignoreS_reply_quiet set_channel_quiet quiet_same)

section \<open>No process is lost\<close>

text \<open>
  A child that was started is still the process of its channel, or it was killed, or its reader task has ended.
  \<open>S\<close> are the channels on which something was started.
\<close>

definition accounted :: "channel_id \<Rightarrow> u32 \<Rightarrow> handler \<Rightarrow> bool" where
  "accounted ch p h \<longleftrightarrow>
     KillPg (sint p) 9 \<in> set (os h) \<and> KillPid (sint p) 9 \<in> set (os h) \<or> ReaderFinished ch (Some p) \<in> set (os h)"

definition children_inv :: "channel_id set \<Rightarrow> handler \<Rightarrow> bool" where
  "children_inv S h \<longleftrightarrow>
     (\<forall>ch b p. Spawned ch b (Some p) \<in> set (os h) \<longrightarrow> tracked h ch = Some (leader (Some p)) \<or> accounted ch p h) \<and>
     (\<forall>ch q t. (ch, q) \<in> set (readers h) \<and> tracked h ch = Some t \<longrightarrow> t = leader q) \<and>
     (\<forall>ch q t. (ch, q) \<in> set (readers h) \<or> tracked h ch = Some t \<longrightarrow> ch \<in> S)"

lemma children_invI:
  assumes "\<And>ch b p. Spawned ch b (Some p) \<in> set (os h) \<Longrightarrow> tracked h ch = Some (leader (Some p)) \<or> accounted ch p h"
    and "\<And>ch q t. (ch, q) \<in> set (readers h) \<Longrightarrow> tracked h ch = Some t \<Longrightarrow> t = leader q"
    and "\<And>ch q. (ch, q) \<in> set (readers h) \<Longrightarrow> ch \<in> S" and "\<And>ch t. tracked h ch = Some t \<Longrightarrow> ch \<in> S"
  shows "children_inv S h"
  using assms unfolding children_inv_def by blast

lemma children_invD:
  assumes "children_inv S h"
  shows "Spawned ch b (Some p) \<in> set (os h) \<Longrightarrow> tracked h ch = Some (leader (Some p)) \<or> accounted ch p h"
    and "(ch, q) \<in> set (readers h) \<Longrightarrow> tracked h ch = Some t \<Longrightarrow> t = leader q"
    and "(ch, q) \<in> set (readers h) \<Longrightarrow> ch \<in> S" and "tracked h ch = Some t \<Longrightarrow> ch \<in> S"
  using assms unfolding children_inv_def by blast+

lemma children_inv_quiet:
  assumes "quiet h h'" and "children_inv S h"
  shows "children_inv S h'"
proof -
  obtain cs where cs: "os h' = os h @ cs" "list_all not_spawned cs" using assms(1) by (auto simp: quiet_def)
  have "Spawned ch b p \<notin> set cs" for ch b p
  proof
    assume "Spawned ch b p \<in> set cs"
    then have "not_spawned (Spawned ch b p)" using cs(2) by (simp only: list_all_iff)
    then show False by (simp add: not_spawned_def)
  qed
  then have "Spawned ch b p \<in> set (os h') \<longleftrightarrow> Spawned ch b p \<in> set (os h)" for ch b p using cs by simp
  moreover have "accounted ch p h \<Longrightarrow> accounted ch p h'" for ch p using cs by (auto simp: accounted_def)
  moreover have "tracked h' = tracked h" "readers h' = readers h" using assms(1) by (simp_all add: quiet_def)
  ultimately show ?thesis using assms(2) by (simp add: children_inv_def) blast
qed

lemma tracked_delete:
  "channels h' = AList.delete ch (channels h) \<Longrightarrow> tracked h' c = (if c = ch then None else tracked h c)"
  by (simp add: tracked_def delete_conv')

lemma close_channel_tracked: "tracked (close_channel ch h) c = (if c = ch then None else tracked h c)"
  by (cases "map_of (channels h) ch")
     (auto simp: close_channel_def tracked_def call_os_def Let_def delete_conv' split: option.splits)

lemma close_channel_readers [simp]: "readers (close_channel ch h) = readers h"
  by (auto simp: close_channel_def call_os_def Let_def split: option.splits)

lemma close_channel_os:
  "\<exists>cs. os (close_channel ch h) = os h @ cs \<and> list_all not_spawned cs \<and>
        (\<forall>p. tracked h ch = Some (leader (Some p)) \<longrightarrow> KillPg (sint p) 9 \<in> set cs \<and> KillPid (sint p) 9 \<in> set cs)"
  by (auto simp: close_channel_def call_os_def tracked_def leader_def kill_pty_process_def not_spawned_def Let_def
      split: option.splits)

lemma close_channel_inv:
  assumes "children_inv S h"
  shows "children_inv S (close_channel ch h)"
proof -
  let ?h = "close_channel ch h"
  obtain cs where cs: "os ?h = os h @ cs" "list_all not_spawned cs"
      "\<forall>p. tracked h ch = Some (leader (Some p)) \<longrightarrow> KillPg (sint p) 9 \<in> set cs \<and> KillPid (sint p) 9 \<in> set cs"
    using close_channel_os by blast
  have "tracked ?h c = Some (leader (Some p)) \<or> accounted c p ?h" if "Spawned c b (Some p) \<in> set (os ?h)" for c b p
  proof -
    have "Spawned c b (Some p) \<notin> set cs"
      using cs(2) by (auto simp: list_all_iff not_spawned_def)
    then have "tracked h c = Some (leader (Some p)) \<or> accounted c p h"
      using that assms cs(1) by (auto simp: children_inv_def)
    then show ?thesis using cs by (auto simp: close_channel_tracked accounted_def)
  qed
  then show ?thesis using assms by (auto simp: children_inv_def close_channel_tracked split: if_splits)
qed

lemma channel_close_inv: "children_inv S h \<Longrightarrow> children_inv S (channel_close ch h)"
  unfolding channel_close_def
  by (rule close_channel_inv, rule children_inv_quiet [OF idle_quiet(1)], rule children_inv_quiet [OF quiet_same]) simp_all

lemma reader_finish_inv:
  assumes inv: "children_inv S h"
  shows "children_inv S (reader_finish ch q status h)"
proof (cases "(ch, q) \<in> set (readers h)")
  case True
  let ?h = "reader_finish ch q status h"
  have fields: "readers ?h = removeAll (ch, q) (readers h)" "os ?h = os h @ [ReaderFinished ch q]"
      "channels ?h = AList.delete ch (channels h)"
    using True by (simp_all add: reader_finish_def Let_def cleanup_guard_drop_def call_os_def)
  have tr: "tracked ?h c = (if c = ch then None else tracked h c)" for c
    using tracked_delete [OF fields(3)] by simp
  have "tracked ?h c = Some (leader (Some p)) \<or> accounted c p ?h" if "Spawned c b (Some p) \<in> set (os ?h)" for c b p
  proof -
    have "tracked h c = Some (leader (Some p)) \<or> accounted c p h" using that inv fields by (auto simp: children_inv_def)
    moreover have "tracked h ch = Some (leader (Some p)) \<Longrightarrow> q = Some p"
      using children_invD(2) [OF inv True] by (auto simp: leader_def)
    ultimately show ?thesis using fields tr by (auto simp: accounted_def)
  qed
  then show ?thesis using inv tr fields by (auto simp: children_inv_def split: if_splits)
qed (simp add: reader_finish_def assms)

definition sets_up :: "start_outcome \<Rightarrow> bool" where
  "sets_up E \<longleftrightarrow> attach_pty E = Inr ()"

lemma children_inv_mono: "children_inv S h \<Longrightarrow> S \<subseteq> T \<Longrightarrow> children_inv T h"
  by (auto simp: children_inv_def)

lemma run_child_inv:
  assumes "children_inv S h" and "ch \<notin> S"
  shows "children_inv (insert ch S)
     (snd (run_child ch st q (call_os [Spawned ch b q] h\<lparr>live_shell := l\<rparr>)))"
proof -
  let ?hs = "set_channel ch (st\<lparr>process := Some (new_process q)\<rparr>) (call_os [Spawned ch b q] h\<lparr>live_shell := l\<rparr>)"
  let ?h = "snd (run_child ch st q (call_os [Spawned ch b q] h\<lparr>live_shell := l\<rparr>))"
  obtain r h1 where r: "reply (ChannelSuccess ch) ?hs = (r, h1)" by (rule prod.exhaust)
  have h1_eq: "h1 = snd (reply (ChannelSuccess ch) ?hs)" using r by simp
  have h1: "channels h1 = channels ?hs" "readers h1 = readers h" "os h1 = os h @ [Spawned ch b q]"
    unfolding h1_eq by (simp_all add: set_channel_def call_os_def)
  have run: "channels ?h = channels h1" "os ?h = os h1" "set (readers ?h) \<subseteq> insert (ch, q) (set (readers h1))"
    using r by (auto simp: run_child_def errS_def map_err_def split: sum.splits)
  have tr: "tracked ?h c = (if c = ch then Some (leader q) else tracked h c)" for c
    unfolding tracked_def run h1 by (simp add: leader_def set_channel_def call_os_def new_process_def update_conv')
  have fresh: "tracked h ch = None" "(ch, q') \<notin> set (readers h)" for q'
    using assms by (cases "tracked h ch"; auto simp: children_inv_def)+
  have "tracked ?h c = Some (leader (Some p)) \<or> accounted c p ?h" if "Spawned c b' (Some p) \<in> set (os ?h)" for c b' p
  proof -
    have "c = ch \<and> q = Some p \<or> tracked h c = Some (leader (Some p)) \<or> accounted c p h"
      using that assms(1) unfolding run h1 children_inv_def by (simp; blast)
    then show ?thesis using fresh by (auto simp: tr accounted_def run h1)
  qed
  moreover have rd: "c = ch \<and> q' = q \<or> (c, q') \<in> set (readers h)" if "(c, q') \<in> set (readers ?h)" for c q'
    using that run(3) by (auto simp: h1)
  have "t = leader q1" if "(c, q1) \<in> set (readers ?h)" and "tracked ?h c = Some t" for c q1 t
    using rd [OF that(1)] that(2) fresh children_invD(2) [OF assms(1)] by (auto simp: tr split: if_splits)
  moreover have "c \<in> insert ch S" if "(c, q1) \<in> set (readers ?h) \<or> tracked ?h c = Some t" for c q1 t
    using that rd [of c q1] children_invD(3,4) [OF assms(1)] by (cases t) (auto simp: tr split: if_splits)
  ultimately show ?thesis by (intro children_invI) blast+
qed

lemma start_inv:
  assumes inv: "children_inv S h" and ch: "ch \<notin> S" and "sets_up E"
  shows "children_inv (insert ch S) (snd (start_command vars E ch command h))"
proof -
  let ?st = "channel_entry vars ch h" and ?h1 = "set_channel ch (channel_entry vars ch h) h"
  have "tracked h ch = None" using inv ch by (cases "tracked h ch") (auto simp: children_inv_def)
  then have "process ?st = None" using tracked_entry [of vars ch h] by simp
  have inv1: "children_inv S ?h1"
    by (rule children_inv_quiet [OF set_channel_quiet inv]) (simp add: tracked_entry)
  have ins: "children_inv (insert ch S) ?h1" using children_inv_mono [OF inv1] by blast
  have same: "h\<lparr>live_shell := live_shell h\<rparr> = h" for h :: handler by simp
  note runs = run_child_inv [OF inv1 ch, where st = ?st and b = "command_for ?st command"]
  show ?thesis
    using ins runs runs [where l = "live_shell ?h1"] \<open>process ?st = None\<close> \<open>sets_up E\<close>
    by (auto simp: start_command_def Let_def sets_up_def call_os_def split: sum.splits)
qed

lemma start_request_inv:
  assumes "children_inv S h" and "ch \<notin> S" and "sets_up E"
  shows "children_inv (insert ch S) (snd (start_request now vars E ch command h))"
proof -
  obtain r h1 where r: "start_command vars E ch command h = (r, h1)" by (rule prod.exhaust)
  then have "children_inv (insert ch S) h1" using start_inv [OF assms, of vars command] by simp
  then have "children_inv (insert ch S) (ensure_reaper (mark_channel_active now ch h1))"
    by (intro children_inv_quiet [OF quiet_trans [OF idle_quiet(3) idle_quiet(4)]])
  then show ?thesis using r \<open>children_inv (insert ch S) h1\<close> by (auto simp: start_request_def split: sum.splits)
qed

lemma event_inv:
  assumes inv: "children_inv S h" and "\<And>ch E. start_of e = Some (ch, E) \<Longrightarrow> ch \<notin> S \<and> sets_up E"
  shows "children_inv (S \<union> fst ` set_option (start_of e)) (snd (handle_event vars e h))"
proof (cases "start_of e")
  case None
  show ?thesis
  proof (cases "(\<exists>ch. e = CloseReceived ch) \<or> (\<exists>ch p c. e = ReaderEnd ch p c)")
    case True
    then show ?thesis using channel_close_inv [OF inv] reader_finish_inv [OF inv] by auto
  next
    case False
    then show ?thesis using children_inv_quiet [OF quiet_event inv] None by auto
  qed
next
  case (Some cE)
  then show ?thesis
    using assms start_request_inv [OF inv] by (cases e) (auto simp: shell_request_def exec_request_def)
qed

lemma run_events_inv:
  assumes "children_inv S h" and "distinct (starts es)" and "S \<inter> set (starts es) = {}"
    and "\<forall>e \<in> set es. \<forall>ch E. start_of e = Some (ch, E) \<longrightarrow> sets_up E"
  shows "\<exists>T. children_inv T (snd (run_events vars es h))"
  using assms
proof (induction es arbitrary: S h)
  case (Cons e es)
  obtain r h1 where r: "handle_event vars e h = (r, h1)" by (rule prod.exhaust)
  let ?T = "S \<union> fst ` set_option (start_of e)"
  have dist: "distinct (starts es)" "?T \<inter> set (starts es) = {}"
      "\<And>ch E. start_of e = Some (ch, E) \<Longrightarrow> ch \<notin> S"
    using Cons.prems(2,3) by (auto simp: starts_def map_filter_simps split: option.splits)
  have "children_inv ?T h1"
    using event_inv [OF Cons.prems(1), of e vars] dist(3) Cons.prems(4) r by auto
  moreover have "\<exists>T. children_inv T (snd (run_events vars es h1))"
    by (rule Cons.IH [of ?T h1]) (use calculation dist(1,2) Cons.prems(4) in auto)
  ultimately show ?case using r by (auto split: sum.splits)
qed auto

lemma close_all_inv: "children_inv S h \<Longrightarrow> children_inv S (fold close_channel chs h)"
  by (induction chs arbitrary: h) (simp_all add: close_channel_inv)

lemma close_channel_map: "map_of (channels (close_channel ch h)) c = (if c = ch then None else map_of (channels h) c)"
  by (auto simp: close_channel_def call_os_def Let_def delete_conv' split: option.splits)

lemma close_all_map:
  "map_of (channels (fold close_channel chs h)) c = (if c \<in> set chs then None else map_of (channels h) c)"
  by (induction chs arbitrary: h) (auto simp: close_channel_map)

lemma terminate_all_empty: "channels (terminate_all_channels h) = []"
proof -
  have "map_of (channels (terminate_all_channels h)) c = None" for c
    by (auto simp: terminate_all_channels_def close_all_map map_of_eq_None_iff)
  then have "c \<notin> fst ` set (channels (terminate_all_channels h))" for c by (simp add: map_of_eq_None_iff)
  then show ?thesis by (metis image_is_empty set_empty ex_in_conv)
qed

lemma handler_new_inv: "children_inv {} (with_idle_timeout t (with_auth_gate g (handler_with_metrics m)))"
  by (simp add: children_inv_def tracked_def with_idle_timeout_def with_auth_gate_def handler_with_metrics_def)

section \<open>The idle reaper\<close>

lemma reply_ok: "list_all (\<lambda>r. r = Inr ()) (reply_results h) \<Longrightarrow>
   reply r h = (Inr (), h\<lparr>replies := replies h @ [r], reply_results := tl (reply_results h)\<rparr>)"
  by (cases "reply_results h") (auto simp: reply_def)

lemma close_stale_replies:
  "list_all (\<lambda>r. r = Inr ()) (reply_results h) \<Longrightarrow>
   replies (close_stale chs h) = replies h @ map SentClose chs \<and> idle (close_stale chs h) = fold AList.delete chs (idle h)"
proof (induction chs arbitrary: h)
  case (Cons ch chs)
  have ok: "list_all (\<lambda>r. r = Inr ()) (reply_results (forget_channel ch h))" using Cons.prems by (simp add: forget_channel_def)
  have "list_all (\<lambda>r. r = Inr ()) (tl (reply_results (forget_channel ch h)))"
    using ok by (cases "reply_results (forget_channel ch h)") auto
  then show ?case by (simp add: reply_ok [OF ok] Cons.IH) (simp add: forget_channel_def)
qed simp

lemma fold_delete_set: "set (fold AList.delete chs al) = {e \<in> set al. fst e \<notin> set chs}"
  by (induction chs arbitrary: al) (auto simp: AList.delete_eq)

lemma stale_in_idle:
  assumes "distinct (map fst (idle h))" and "(ch, since) \<in> set (idle h)"
  shows "ch \<in> set (stale_channels now h) \<longleftrightarrow> now - since > idle_timeout h"
proof -
  have "since' = since" if "(ch, since') \<in> set (idle h)" for since'
    using eq_key_imp_eq_value [OF assms(1) that assms(2)] .
  moreover have "ch \<in> set (stale_channels now h) \<longleftrightarrow> (\<exists>l. (ch, l) \<in> set (idle h) \<and> now - l > idle_timeout h)"
    unfolding stale_channels_def set_map set_filter by (auto simp: image_iff split_def)
  ultimately show ?thesis using assms(2) by blast
qed


definition sample_outcome :: start_outcome where
  "sample_outcome =
     \<lparr>openpty = (\<lambda>_. Inr ()), spawn_command = (\<lambda>_. Inr (Some 4242)), try_clone_reader = Inr (), take_writer = Inr (),
      spawn_writer = Inr ()\<rparr>"

definition sample_session :: "handler_event list" where
  "sample_session = [OpenSession 0, PtyRequest 0 ''xterm'' 80 24 0 0 [], ShellRequest 7 sample_outcome 0, DataReceived 8 0 [0x6C, 0x73, 0x0D]]"


text \<open>A tick of the idle reaper closes exactly the channels without traffic for longer than the timeout, stops tracking
  them, and leaves the others alone.\<close>

theorem reaper_closes_exactly_idle:
  assumes "distinct (map fst (idle h))" and "list_all (\<lambda>r. r = Inr ()) (reply_results h)" and "reaper_started h"
  shows "replies (reaper_tick now h) = replies h @ map SentClose (stale_channels now h) \<and>
     set (idle (reaper_tick now h)) = {(ch, since). (ch, since) \<in> set (idle h) \<and> now - since \<le> idle_timeout h}"
proof -
  have tick: "reaper_tick now h = close_stale (stale_channels now h) h" using assms(3) by (simp add: reaper_tick_def)
  have "{e \<in> set (idle h). fst e \<notin> set (stale_channels now h)} =
      {(ch, since). (ch, since) \<in> set (idle h) \<and> now - since \<le> idle_timeout h}"
    using stale_in_idle [OF assms(1), of _ _ now] by (fastforce simp: not_less)
  then show ?thesis
    unfolding tick using close_stale_replies [OF assms(2), of "stale_channels now h"] by (simp add: fold_delete_set)
qed

definition idle_sample :: handler where
  "idle_sample = (with_idle_timeout 100 handler_new)\<lparr>idle := [(1, 10), (2, 900)], reaper_started := True\<rparr>"

theorem reaper_closes_exactly_idle_witness:
  "replies (reaper_tick 950 idle_sample) = [SentClose 1] \<and> (2, 900) \<in> set (idle (reaper_tick 950 idle_sample))"
  using reaper_closes_exactly_idle [of idle_sample 950]
  by (simp add: idle_sample_def with_idle_timeout_def handler_new_def handler_with_metrics_def stale_channels_def)

text \<open>A request for a terminal, a variable or a new size on a channel that is not open is refused and leaves no trace:
  no state is made up for it.\<close>

theorem unknown_channel_untouched:
  assumes "map_of (channels h) ch = None"
    and "e \<in> {PtyRequest ch term c r pw ph modes, EnvRequest ch var value, WindowChange ch c r pw ph}"
  shows "channels (snd (handle_event vars e h)) = channels h \<and> os (snd (handle_event vars e h)) = os h \<and>
     (fst (handle_event vars e h) = Inr () \<longrightarrow> replies (snd (handle_event vars e h)) = replies h @ [ChannelFailure ch])"
proof -
  have "handle_event vars e h = errS SshError (reply (ChannelFailure ch)) h"
    using assms by (auto simp: pty_request_def set_channel_pty_def record_env_def resize_channel_def Let_def)
  then show ?thesis by (auto simp: errS_def map_err_def reply_def split: list.splits sum.splits)
qed

theorem unknown_channel_untouched_witness:
  "channels (snd (handle_event (\<lambda>_. None) (EnvRequest 7 ''LANG'' ''C'') handler_new)) = []"
  using unknown_channel_untouched [of handler_new 7 "EnvRequest 7 ''LANG'' ''C''" _ _ _ _ _ _ "''LANG''" "''C''"]
  by (simp add: handler_new_def handler_with_metrics_def)

end
