(* ===== verification/Side_Streams.thy ===== *)
theory Side_Streams
  imports Handler_Lifecycle Unified_Auth Metadata_Codec
begin

text \<open>
  One connection of the server: the SSH session with its handler, and the side streams that carry file
  transfers and metadata (\<^verbatim>\<open>src/server/side_streams.rs\<close>, \<^verbatim>\<open>src/server/protocol.rs\<close>).  The side streams wait at
  a gate that the handler opens on authentication: a \<^verbatim>\<open>tokio::sync::watch\<close> channel, whose receiver is told
  \<^verbatim>\<open>Err\<close> by \<^verbatim>\<open>wait_for\<close> when every sender is gone.  The handler and its clone hold the senders, so they
  are gone when \<^verbatim>\<open>accept\<close> returns; the task that listens for side streams goes on for as long as the connection.
\<close>

section \<open>Serving a side stream\<close>

datatype side_error =
    SideIo io_error
  | SideMetadata metadata_error
  | SideServer server_error

record side_env =
  json :: serde_json
  metadata_json :: "peer_metadata serde"
  current_metadata :: peer_metadata
  senv :: server_env
  handlers :: transfer_handlers

definition send_metadata :: "metadata_error + bytes \<Rightarrow> (srv, side_error, unit) op" where
  "send_metadata f s =
     (case f of
        Inl e \<Rightarrow> (Inl (SideMetadata e), s)
      | Inr b \<Rightarrow>
          if write_fails s (writes s) then (Inl (SideMetadata (MIo IoOther)), s\<lparr>writes := Suc (writes s)\<rparr>)
          else (Inr (), s\<lparr>outp := outp s @ b, writes := Suc (writes s)\<rparr>))"

definition serve_metadata :: "side_env \<Rightarrow> (srv, side_error, unit) op" where
  "serve_metadata se s =
     (case read_metadata_request (inp s) of
        Inl e \<Rightarrow> (Inl (SideMetadata e), s)
      | Inr (_, rest) \<Rightarrow> send_metadata (write_metadata (metadata_json se) (current_metadata se)) (s\<lparr>inp := rest\<rparr>))"

text \<open>After the gate: the magic, which was read and is put back in front of the stream, selects the protocol.\<close>

definition serve_side_stream ::
  "side_env \<Rightarrow> nat option \<Rightarrow> metrics \<Rightarrow> srv \<Rightarrow> (side_error + unit) \<times> metrics \<times> srv" where
  "serve_side_stream se shell m s =
     (let magic = take 4 (inp s) in
      if magic = MD_MAGIC then (case serve_metadata se s of (r, s1) \<Rightarrow> (r, m, s1))
      else if magic = MAGIC then
        (case handle_transfer_stream (json se) (senv se) (handlers se) shell m s of
           (r, m1, s1) \<Rightarrow> (map_err SideServer r, m1, s1))
      else (Inr (), m, s))"

section \<open>A connection\<close>

text \<open>
  A side stream before its look at the gate, waiting at the gate, served, or refused.  A stream that ends
  before its magic is complete is refused at once.
\<close>

datatype side =
    Unchecked srv
  | Parked srv
  | Served "side_error + unit" srv
  | Refused side_error

record 'a link =
  auth_state :: 'a
  files :: disk
  hdl :: handler
  session_alive :: bool
  conn_closed :: bool
  sides :: "(nat \<times> side) list"

datatype 'k link_event =
    TryKey nat 'k
  | TryPassword nat string
  | SessionCall handler_event
  | SessionEnds
  | ConnectionCloses
  | StreamArrives nat srv
  | StreamPolled nat bool

record ('a, 'k) backend =
  methods_of :: "'a \<times> disk \<Rightarrow> auth_method list"
  key_check :: "nat \<Rightarrow> 'k \<Rightarrow> 'a \<times> disk \<Rightarrow> (irosh_error + bool) \<times> 'a \<times> disk"
  password_check :: "nat \<Rightarrow> string \<Rightarrow> 'a \<times> disk \<Rightarrow> (irosh_error + bool) \<times> 'a \<times> disk"

text \<open>The session is over: the channels are torn down and the handlers, with the senders of the gate, are dropped.\<close>

definition end_session :: "'a link \<Rightarrow> 'a link" where
  "end_session L = L\<lparr>hdl := terminate_all_channels (hdl L), session_alive := False\<rparr>"

text \<open>An authentication request; an error of the handler ends the session.\<close>

definition auth_request :: "('a \<times> disk) \<times> handler \<Rightarrow> irosh_error + ssh_auth \<Rightarrow> 'a link \<Rightarrow> 'a link" where
  "auth_request wh r L =
     (let L1 = L\<lparr>auth_state := fst (fst wh), files := snd (fst wh), hdl := snd wh\<rparr>
      in case r of Inl _ \<Rightarrow> end_session L1 | Inr _ \<Rightarrow> L1)"

definition gate_open :: "'a link \<Rightarrow> bool" where
  "gate_open L \<longleftrightarrow> auth_gate (hdl L) = Some True"

definition serve :: "side_env \<Rightarrow> nat \<Rightarrow> srv \<Rightarrow> 'a link \<Rightarrow> 'a link" where
  "serve se i s L =
     (case serve_side_stream se (live_shell (hdl L)) (h_metrics (hdl L)) (s\<lparr>fsys := files L\<rparr>) of
        (r, m, s1) \<Rightarrow>
          L\<lparr>files := fsys s1, hdl := (hdl L)\<lparr>h_metrics := m\<rparr>, sides := AList.update i (Served r s1) (sides L)\<rparr>)"

text \<open>
  The task of a side stream runs: first the look at the gate, then the wait for the connection to close or
  for \<^verbatim>\<open>wait_for\<close> to return, with a value or with an error.  When both are ready, \<open>closed_first\<close> says which one
  \<^verbatim>\<open>select!\<close> takes.
\<close>

definition poll_side :: "side_env \<Rightarrow> nat \<Rightarrow> bool \<Rightarrow> 'a link \<Rightarrow> 'a link" where
  "poll_side se i closed_first L =
     (case map_of (sides L) i of
        Some (Unchecked s) \<Rightarrow>
          if gate_open L then serve se i s L else L\<lparr>sides := AList.update i (Parked s) (sides L)\<rparr>
      | Some (Parked s) \<Rightarrow>
          let wait_returns = gate_open L \<or> \<not> session_alive L in
          if conn_closed L \<and> (closed_first \<or> \<not> wait_returns)
          then L\<lparr>sides := AList.update i (Refused (SideIo IoOther)) (sides L)\<rparr>
          else if wait_returns then serve se i s L
          else L
      | _ \<Rightarrow> L)"

fun link_step ::
  "side_env \<Rightarrow> (string \<Rightarrow> string option) \<Rightarrow> ('a, 'k) backend \<Rightarrow> 'k link_event \<Rightarrow> 'a link \<Rightarrow> 'a link" where
  "link_step se vars B (TryKey now k) L =
     (if session_alive L
      then case auth_publickey (methods_of B) (key_check B) now k ((auth_state L, files L), hdl L) of
             (r, wh) \<Rightarrow> auth_request wh r L
      else L)"
| "link_step se vars B (TryPassword now p) L =
     (if session_alive L
      then case auth_password (methods_of B) (password_check B) now p ((auth_state L, files L), hdl L) of
             (r, wh) \<Rightarrow> auth_request wh r L
      else L)"
| "link_step se vars B (SessionCall e) L =
     (if session_alive L
      then case handle_event vars e (hdl L) of
             (Inl _, h) \<Rightarrow> end_session (L\<lparr>hdl := h\<rparr>)
           | (Inr _, h) \<Rightarrow> L\<lparr>hdl := h\<rparr>
      else L)"
| "link_step se vars B SessionEnds L = end_session L"
| "link_step se vars B ConnectionCloses L = L\<lparr>conn_closed := True\<rparr>"
| "link_step se vars B (StreamArrives i s) L =
     (if conn_closed L \<or> map_of (sides L) i \<noteq> None then L
      else L\<lparr>sides := AList.update i
               (if length (inp s) < 4 then Refused (SideIo UnexpectedEof) else Unchecked s) (sides L)\<rparr>)"
| "link_step se vars B (StreamPolled i closed_first) L = poll_side se i closed_first L"

definition link_run ::
  "side_env \<Rightarrow> (string \<Rightarrow> string option) \<Rightarrow> ('a, 'k) backend \<Rightarrow> 'k link_event list \<Rightarrow> 'a link \<Rightarrow> 'a link" where
  "link_run se vars B es L = fold (link_step se vars B) es L"

section \<open>Accepting a connection\<close>

record active_wormhole =
  wh_code :: string
  wh_password :: "string option"
  wh_persistent :: bool
  wh_task :: nat
  wh_failed_attempts :: u32
  wh_success :: bool
  wh_expiry_task :: nat

record 'k ssh_protocol =
  is_pairing :: bool
  sp_state :: state_config
  sp_policy :: host_key_policy
  sp_auth :: "'k unified"
  sp_wormhole :: "active_wormhole option"
  sp_idle_timeout :: nat

definition pairing_authenticator :: "'k ssh_keys \<Rightarrow> disk \<Rightarrow> 'k ssh_protocol \<Rightarrow> active_wormhole \<Rightarrow> 'k unified" where
  "pairing_authenticator ks d p wh =
     (let vault = (case load_all_authorized_clients ks (sp_state p) d of Inr v \<Rightarrow> v | Inl _ \<Rightarrow> []) in
      with_tracking (sp_state p) (sp_policy p) (map snd vault) (wh_password wh)
        \<lparr>pm_success_flag = wh_success wh, pm_failed_attempts = wh_failed_attempts wh,
         pm_success_tx = Some 0, pm_failure_tx = Some 0\<rparr>)"

text \<open>
  The connection once its first stream is there: the listener for side streams runs already.  A pairing
  connection without an active wormhole returns here, which drops the only sender of the gate.
\<close>

definition accept_link :: "'k ssh_keys \<Rightarrow> disk \<Rightarrow> metrics \<Rightarrow> 'k ssh_protocol \<Rightarrow> 'k unified link" where
  "accept_link ks d m p =
     (let link = (\<lambda>a alive. \<lparr>auth_state = a, files = d,
            hdl = with_idle_timeout (sp_idle_timeout p) (with_auth_gate False (handler_with_metrics m)),
            session_alive = alive, conn_closed = False, sides = []\<rparr>)
      in if is_pairing p
         then (case sp_wormhole p of
                 None \<Rightarrow> link (for_new_session (sp_auth p)) False
               | Some wh \<Rightarrow> link (pairing_authenticator ks d p wh) True)
         else link (for_new_session (sp_auth p)) True)"

definition unified_backend :: "verifier \<Rightarrow> 'k ssh_keys \<Rightarrow> ('k unified, 'k) backend" where
  "unified_backend V ks =
     \<lparr>methods_of = unified_supported_methods, key_check = unified_check_public_key ks, password_check = unified_check_password V ks\<rparr>"

section \<open>The gate\<close>

text \<open>Was a credential accepted in the course of the events?\<close>

definition accepts :: "('a, 'k) backend \<Rightarrow> 'k link_event \<Rightarrow> 'a link \<Rightarrow> bool" where
  "accepts B e L \<longleftrightarrow>
     session_alive L \<and>
     (case e of
        TryKey now k \<Rightarrow> fst (key_check B now k (auth_state L, files L)) = Inr True
      | TryPassword now pw \<Rightarrow> fst (password_check B now pw (auth_state L, files L)) = Inr True
      | _ \<Rightarrow> False)"

fun accepted ::
  "side_env \<Rightarrow> (string \<Rightarrow> string option) \<Rightarrow> ('a, 'k) backend \<Rightarrow> 'k link_event list \<Rightarrow> 'a link \<Rightarrow> bool" where
  "accepted se vars B [] L = False"
| "accepted se vars B (e # es) L = (accepts B e L \<or> accepted se vars B es (link_step se vars B e L))"

lemma reply_gate [simp]: "auth_gate (snd (reply r h)) = auth_gate h"
  by (auto simp: reply_def split: list.splits sum.splits)

lemma simple_gates [simp]:
  "auth_gate (set_channel ch st h) = auth_gate h" "auth_gate (call_os cs h) = auth_gate h"
  "auth_gate (forget_channel ch h) = auth_gate h" "auth_gate (mark_channel_active now ch h) = auth_gate h"
  "auth_gate (ensure_reaper h) = auth_gate h" "auth_gate (write_channel_data ch data h) = auth_gate h"
  by (auto simp: set_channel_def call_os_def forget_channel_def mark_channel_active_def touch_idle_def ensure_reaper_def
      write_channel_data_def split: option.splits)

lemma message_gates [simp]:
  "auth_gate (snd (ignoreS (reply r) h)) = auth_gate h" "auth_gate (snd (errS f (reply r) h)) = auth_gate h"
  by (simp_all add: ignoreS_def errS_def split_def)

lemma close_channel_gate [simp]: "auth_gate (close_channel ch h) = auth_gate h"
  by (auto simp: close_channel_def Let_def split: option.splits)

lemma terminate_gate [simp]: "auth_gate (terminate_all_channels h) = auth_gate h"
proof -
  have "auth_gate (fold close_channel chs h) = auth_gate h" for chs by (induction chs arbitrary: h) simp_all
  then show ?thesis by (simp add: terminate_all_channels_def)
qed

lemma close_stale_gate [simp]: "auth_gate (close_stale chs h) = auth_gate h"
proof (induction chs arbitrary: h)
  case (Cons ch chs)
  obtain r h1 where r: "reply (SentClose ch) (forget_channel ch h) = (r, h1)" by (rule prod.exhaust)
  then have "auth_gate h1 = auth_gate h" using reply_gate [of "SentClose ch" "forget_channel ch h"] by simp
  then show ?case by (auto simp: r Cons.IH split: sum.splits)
qed simp

lemma run_child_gate [simp]: "auth_gate (snd (run_child ch st q h)) = auth_gate h"
  using message_gates(2) [of "ChannelError ''confirm channel success''" "ChannelSuccess ch"
      "set_channel ch (st\<lparr>process := Some (new_process q)\<rparr>) h"]
  by (auto simp: run_child_def split: prod.splits sum.splits simp del: message_gates)

lemma start_gate [simp]: "auth_gate (snd (start_command vars E ch command h)) = auth_gate h"
  by (auto simp: start_command_def Let_def split: sum.splits)

lemma start_request_gate [simp]: "auth_gate (snd (start_request now vars E ch command h)) = auth_gate h"
  using start_gate [of vars E ch command h]
  by (auto simp: start_request_def simp del: start_gate split: prod.splits sum.splits)

lemma reader_gates [simp]:
  "auth_gate (reader_output now ch chunk h) = auth_gate h" "auth_gate (reader_finish ch q status h) = auth_gate h"
  using reply_gate [of "SentData ch chunk" h]
  by (auto simp: reader_output_def reader_finish_def cleanup_guard_drop_def Let_def simp del: reply_gate
      split: prod.splits sum.splits) simp

text \<open>Nothing but an authentication touches the gate.\<close>

lemma handle_event_gate: "auth_gate (snd (handle_event vars e h)) = auth_gate h"
  by (cases e)
     (auto simp: channel_open_session_def channel_open_direct_tcpip_def pty_request_def set_channel_pty_def record_env_def
        resize_channel_def handle_data_def channel_eof_def close_channel_writer_def channel_close_def forward_signal_def
        reaper_tick_def shell_request_def exec_request_def Let_def split: option.splits)

lemma serve_fields [simp]:
  "auth_gate (hdl (serve se i s L)) = auth_gate (hdl L)" "session_alive (serve se i s L) = session_alive L"
  by (auto simp: serve_def split: prod.splits)

lemma poll_fields [simp]:
  "auth_gate (hdl (poll_side se i b L)) = auth_gate (hdl L)" "session_alive (poll_side se i b L) = session_alive L"
  by (auto simp: poll_side_def Let_def split: option.splits side.splits)

lemma auth_request_fields:
  "auth_gate (hdl (auth_request wh r L)) = auth_gate (snd wh)" "session_alive (auth_request wh r L) \<Longrightarrow> session_alive L"
  "sides (auth_request wh r L) = sides L"
  by (auto simp: auth_request_def end_session_def Let_def split: sum.splits)

lemma open_auth_gate_some: "auth_gate h \<noteq> None \<Longrightarrow> auth_gate (open_auth_gate h) = Some True"
  by (auto simp: open_auth_gate_def)

text \<open>The gate opens exactly at an accepted credential.\<close>

lemma step_gate:
  assumes "auth_gate (hdl L) \<noteq> None"
  shows "auth_gate (hdl (link_step se vars B e L)) = (if accepts B e L then Some True else auth_gate (hdl L))"
proof (cases e)
  case (SessionCall ev)
  obtain r h where r: "handle_event vars ev (hdl L) = (r, h)" by (rule prod.exhaust)
  then have "auth_gate h = auth_gate (hdl L)" using handle_event_gate [of vars ev "hdl L"] by simp
  then show ?thesis using r SessionCall by (auto simp: accepts_def end_session_def split: sum.splits)
qed (auto simp: accepts_def auth_publickey_def auth_password_def auth_request_fields open_auth_gate_some assms end_session_def
      split: prod.splits sum.splits)

lemma step_alive: "session_alive (link_step se vars B e L) \<Longrightarrow> session_alive L"
proof (rule ccontr)
  assume alive: "session_alive (link_step se vars B e L)" and "\<not> session_alive L"
  then have "\<not> session_alive (link_step se vars B e L)" by (cases e) (simp_all add: end_session_def split: if_splits)
  then show False using alive by blast
qed

lemma poll_served:
  assumes "map_of (sides (poll_side se i b L)) j = Some (Served r s)"
  shows "map_of (sides L) j = Some (Served r s) \<or> gate_open L \<or> \<not> session_alive L"
proof (rule ccontr)
  assume neg: "\<not> ?thesis"
  then have shut: "\<not> gate_open L" "session_alive L" by simp_all
  have "map_of (sides L) j = Some (Served r s)"
  proof (cases "map_of (sides L) i")
    case (Some x)
    then show ?thesis
      using assms shut by (cases x) (simp_all add: poll_side_def Let_def update_conv' split: if_splits)
  qed (use assms in \<open>simp add: poll_side_def\<close>)
  then show False using neg by blast
qed

lemma step_served:
  assumes "map_of (sides (link_step se vars B e L)) j = Some (Served r s)"
  shows "map_of (sides L) j = Some (Served r s) \<or> gate_open L \<or> \<not> session_alive L"
proof (cases e)
  case (StreamArrives i s')
  then show ?thesis using assms by (simp add: update_conv' split: if_splits)
next
  case (StreamPolled i b)
  then show ?thesis using assms poll_served [of se i b L j r s] by simp
qed (use assms in \<open>simp_all add: auth_request_fields end_session_def split: prod.splits sum.splits if_splits\<close>)

lemma run_served:
  assumes "auth_gate (hdl L) \<noteq> None" and "\<And>r s. map_of (sides L) i = Some (Served r s) \<Longrightarrow> gate_open L \<or> \<not> session_alive L"
    and "map_of (sides (link_run se vars B es L)) i = Some (Served r s)"
  shows "gate_open L \<or> accepted se vars B es L \<or> \<not> session_alive (link_run se vars B es L)"
  using assms
proof (induction es arbitrary: L)
  case (Cons e es)
  let ?L = "link_step se vars B e L"
  note gate = step_gate [OF Cons.prems(1), of se vars B e]
  have "gate_open ?L \<or> \<not> session_alive ?L" if "map_of (sides ?L) i = Some (Served r s)" for r s
    using step_served [OF that] Cons.prems(2) gate step_alive [of se vars B e L] by (auto simp: gate_open_def)
  then have "gate_open ?L \<or> accepted se vars B es ?L \<or> \<not> session_alive (link_run se vars B es ?L)"
    using Cons.IH [of ?L] Cons.prems(1,3) gate by (auto simp: link_run_def split: if_splits)
  then show ?case using gate by (auto simp: gate_open_def link_run_def split: if_splits)
qed (auto simp: link_run_def)

lemma accept_link_fields:
  "auth_gate (hdl (accept_link ks d m p)) = Some False" "sides (accept_link ks d m p) = []"
  "conn_closed (accept_link ks d m p) = False" "files (accept_link ks d m p) = d"
  "session_alive (accept_link ks d m p) \<longleftrightarrow> (is_pairing p \<longrightarrow> sp_wormhole p \<noteq> None)"
  "terminate_all_channels (hdl (accept_link ks d m p)) = hdl (accept_link ks d m p)"
  "live_shell (hdl (accept_link ks d m p)) = None" "h_metrics (hdl (accept_link ks d m p)) = m"
  by (auto simp: accept_link_def Let_def with_auth_gate_def with_idle_timeout_def handler_with_metrics_def
      terminate_all_channels_def split: option.splits)

section \<open>Properties\<close>

text \<open>C1. While the SSH session of a connection lives, a side stream is served only after the server accepted a credential of
  that connection, in every interleaving of authentication, session traffic and side streams.\<close>

theorem side_streams_are_gated:
  assumes "map_of (sides (link_run se vars (unified_backend V ks) es (accept_link ks d m p))) i = Some (Served r s)"
    and "session_alive (link_run se vars (unified_backend V ks) es (accept_link ks d m p))"
  shows "accepted se vars (unified_backend V ks) es (accept_link ks d m p)"
  using run_served [OF _ _ assms(1)] assms(2) by (simp add: accept_link_fields gate_open_def)

definition sample_side_env :: side_env where
  "sample_side_env =
     \<lparr>json = sample_json, metadata_json = sample_serde sample_metadata [1], current_metadata = sample_metadata, senv = sample_env,
      handlers = \<lparr>best_message = (\<lambda>_. ''error''), on_blob_put = (\<lambda>_ s. (Inr (), s)), on_blob_get = (\<lambda>_ s. (Inr (), s))\<rparr>\<rparr>"

definition sample_protocol :: "bool \<Rightarrow> string ssh_protocol" where
  "sample_protocol pairing =
     \<lparr>is_pairing = pairing, sp_state = sample_state, sp_policy = Strict, sp_auth = unified_new sample_state Strict [''k''] None,
      sp_wormhole = None, sp_idle_timeout = 0\<rparr>"

lemma serve_unknown:
  "take 4 (inp s) \<noteq> MD_MAGIC \<Longrightarrow> take 4 (inp s) \<noteq> MAGIC \<Longrightarrow> serve_side_stream se shell m s = (Inr (), m, s)"
  by (simp add: serve_side_stream_def)

lemma serve_sample:
  "serve_side_stream se shell m (sample_srv [1, 2, 3, 4]\<lparr>fsys := d\<rparr>) = (Inr (), m, sample_srv [1, 2, 3, 4]\<lparr>fsys := d\<rparr>)"
  by (rule serve_unknown) (simp_all add: sample_srv_def MD_MAGIC_def MAGIC_def)

theorem side_streams_are_gated_witness:
  "accepted sample_side_env (\<lambda>_. None) (unified_backend sample_verifier sample_keys)
     [StreamArrives 0 (sample_srv [1, 2, 3, 4]), StreamPolled 0 True, TryKey 5 ''k'', StreamPolled 0 True]
     (accept_link sample_keys sample_disk metrics_new (sample_protocol False))"
proof -
  let ?L = "link_run sample_side_env (\<lambda>_. None) (unified_backend sample_verifier sample_keys)
     [StreamArrives 0 (sample_srv [1, 2, 3, 4]), StreamPolled 0 True, TryKey 5 ''k'', StreamPolled 0 True]
     (accept_link sample_keys sample_disk metrics_new (sample_protocol False))"
  have "map_of (sides ?L) 0 = Some (Served (Inr ()) (sample_srv [1, 2, 3, 4]\<lparr>fsys := sample_disk\<rparr>)) \<and> session_alive ?L"
    by (simp add: link_run_def accept_link_def sample_protocol_def poll_side_def gate_open_def update_conv' serve_def serve_sample
        with_auth_gate_def with_idle_timeout_def handler_with_metrics_def auth_publickey_def unified_backend_def
        unified_check_public_key_def is_locked_out_def for_new_session_def unified_new_def auth_request_def open_auth_gate_def
        sample_srv_def [of "[1, 2, 3, 4]"] serve_unknown MD_MAGIC_def MAGIC_def)
  then show ?thesis by (blast intro: side_streams_are_gated)
qed

text \<open>C18. When the session of a connection has ended without any attempt to authenticate, a side stream that waited at the
  gate is served all the same, with the disk of the server: the error of the closed gate is taken for its opening.\<close>

theorem session_end_opens_the_gate:
  assumes "\<not> is_pairing p" and "4 \<le> length (inp s)"
    and "serve_side_stream se None m (s\<lparr>fsys := d\<rparr>) = (r, m', s')"
    and "es = [StreamArrives 0 s, StreamPolled 0 True, SessionEnds, StreamPolled 0 True]"
  shows "map_of (sides (link_run se vars B es (accept_link ks d m p))) 0 = Some (Served r s') \<and>
     files (link_run se vars B es (accept_link ks d m p)) = fsys s' \<and>
     \<not> accepted se vars B es (accept_link ks d m p)"
  using assms
  by (auto simp: link_run_def accept_link_fields poll_side_def gate_open_def end_session_def serve_def accepts_def update_conv')

theorem session_end_opens_the_gate_witness:
  "\<exists>s'. map_of (sides (link_run sample_side_env (\<lambda>_. None) (unified_backend sample_verifier sample_keys)
       [StreamArrives 0 (sample_srv [1, 2, 3, 4]), StreamPolled 0 True, SessionEnds, StreamPolled 0 True]
       (accept_link sample_keys sample_disk metrics_new (sample_protocol False)))) 0 = Some (Served (Inr ()) s')"
  using session_end_opens_the_gate [OF _ _ serve_sample refl, of "sample_protocol False"]
  by (simp add: sample_protocol_def) (simp add: sample_srv_def, blast)

text \<open>C19. A connection for pairing, while no pairing is under way, has no SSH session at all, and yet its side streams are
  served.\<close>

theorem pairing_without_wormhole_is_open:
  assumes "is_pairing p" and "sp_wormhole p = None" and "4 \<le> length (inp s)"
    and "serve_side_stream se None m (s\<lparr>fsys := d\<rparr>) = (r, m', s')"
    and "es = [StreamArrives 0 s, StreamPolled 0 True, StreamPolled 0 True]"
  shows "map_of (sides (link_run se vars B es (accept_link ks d m p))) 0 = Some (Served r s') \<and>
     files (link_run se vars B es (accept_link ks d m p)) = fsys s' \<and>
     \<not> accepted se vars B es (accept_link ks d m p)"
  using assms
  by (auto simp: link_run_def accept_link_fields poll_side_def gate_open_def serve_def accepts_def update_conv')

theorem pairing_without_wormhole_is_open_witness:
  "\<exists>s'. map_of (sides (link_run sample_side_env (\<lambda>_. None) (unified_backend sample_verifier sample_keys)
       [StreamArrives 0 (sample_srv [1, 2, 3, 4]), StreamPolled 0 True, StreamPolled 0 True]
       (accept_link sample_keys sample_disk metrics_new (sample_protocol True)))) 0 = Some (Served (Inr ()) s')"
  using pairing_without_wormhole_is_open [OF _ _ _ serve_sample refl, of "sample_protocol True"]
  by (simp add: sample_protocol_def) (simp add: sample_srv_def, blast)

end
