(* ===== verification/Server_Loop.thy ===== *)
theory Server_Loop
  imports Side_Streams
begin

text \<open>
  The daemon: the loop of \<^verbatim>\<open>Server::run\<close> in \<^verbatim>\<open>src/server/mod.rs\<close> with its pairing wormhole, the registry of sessions
  (\<^verbatim>\<open>session_tracker.rs\<close>), the bookkeeping of \<^verbatim>\<open>SshProtocol::accept\<close> around a session, and the control connection
  (\<^verbatim>\<open>ipc.rs\<close>, on Unix).

  The loop sleeps in a \<^verbatim>\<open>select!\<close> until one of its four channels has a message.  Sessions start and end in other tasks,
  which do not write to these channels.  Background tasks are numbered; \<open>broadcasts\<close> and \<open>expiries\<close> are those still running.
\<close>

section \<open>The registry of sessions\<close>

record active_session =
  peer_id :: string
  started_at :: string
  bytes_sent :: u64
  bytes_received :: u64

record session_tracker =
  sessions :: "(u64 \<times> active_session) list"
  next_id :: u64

definition tracker_new :: session_tracker where
  "tracker_new = \<lparr>sessions = [], next_id = 0\<rparr>"

definition tracker_register :: "string \<Rightarrow> string \<Rightarrow> session_tracker \<Rightarrow> u64 \<times> session_tracker" where
  "tracker_register peer now t =
     (next_id t,
      t\<lparr>next_id := next_id t + 1,
        sessions := AList.update (next_id t) \<lparr>peer_id = peer, started_at = now, bytes_sent = 0, bytes_received = 0\<rparr> (sessions t)\<rparr>)"

definition tracker_unregister :: "u64 \<Rightarrow> session_tracker \<Rightarrow> session_tracker" where
  "tracker_unregister i t = t\<lparr>sessions := AList.delete i (sessions t)\<rparr>"

definition tracker_snapshot :: "session_tracker \<Rightarrow> active_session list" where
  "tracker_snapshot t = map snd (sessions t)"

section \<open>Control messages\<close>

datatype ipc_command =
    EnableWormhole string "string option" bool
  | DisableWormhole
  | GetStatus
  | Shutdown

record daemon_status =
  endpoint_id :: string
  ds_ticket :: string
  wormhole_active :: bool
  wormhole_code :: "string option"
  ds_active_sessions :: u64
  ds_sessions :: "active_session list"

datatype ipc_response = IpcOk | IpcFailed string | IpcStatus daemon_status

datatype ipc_error = IpcIo io_error | IpcSerialization json_error | IpcTimeout

text \<open>
  A control connection: what the client delivers within the deadline (\<open>None\<close> when it does not finish), what becomes of
  the command in the server, and the response that is written.
\<close>

datatype control_outcome = ControlChannelClosed | Answered ipc_response | SenderDropped | NoAnswerInTime

definition ipc_response_of :: "control_outcome \<Rightarrow> ipc_response" where
  "ipc_response_of c =
     (case c of
        Answered r \<Rightarrow> r
      | SenderDropped \<Rightarrow> IpcFailed ''Server failed to provide a response''
      | NoAnswerInTime \<Rightarrow> IpcFailed ''IPC command timed out''
      | ControlChannelClosed \<Rightarrow> IpcFailed ''Server control channel closed'')"

definition handle_ipc_connection ::
  "ipc_command serde \<Rightarrow> ipc_response serde \<Rightarrow> (io_error + bytes) option \<Rightarrow> (ipc_command \<Rightarrow> control_outcome)
     \<Rightarrow> ipc_error + (ipc_command \<times> bytes)" where
  "handle_ipc_connection CJ RJ delivered control =
     (case delivered of
        None \<Rightarrow> Inl IpcTimeout
      | Some (Inl e) \<Rightarrow> Inl (IpcIo e)
      | Some (Inr bs) \<Rightarrow>
          and_then (map_err IpcSerialization (de CJ (take (1024 * 64) bs))) (\<lambda>command.
          and_then (map_err IpcSerialization (ser RJ (ipc_response_of (control command)))) (\<lambda>res_buf.
          Inr (command, res_buf))))"

section \<open>The loop\<close>

text \<open>
  The receiver of \<^verbatim>\<open>ipc_shutdown_tx\<close>, a channel for one message: the control server while it listens, dropped once it has
  stopped, and, when control is disabled, kept by the loop itself, which never reads it.
\<close>

datatype ipc_receiver = IpcListening | IpcStopped | IpcUnread nat

datatype stage = Listening | Draining | Finished | Stuck

record run_config =
  rc_endpoint_id :: string
  rc_ticket :: string
  ipc_enabled :: bool
  shutdown_on_wormhole_success :: bool

record run_state =
  wormhole :: "active_wormhole option"
  shutdown_requested :: bool
  active_sessions :: u64
  ipc :: ipc_receiver
  session_tracker :: session_tracker
  protocol_tracker :: session_tracker
  guards :: "u64 list"
  unregistering :: "u64 list"
  broadcasts :: "(nat \<times> string) list"
  expiries :: "nat list"
  next_task :: nat
  unpublished :: "string list"
  responses :: "ipc_response list"
  stage :: stage

definition run_init :: "run_config \<Rightarrow> run_state" where
  "run_init c =
     \<lparr>wormhole = None, shutdown_requested = False, active_sessions = 0,
      ipc = (if ipc_enabled c then IpcListening else IpcUnread 0),
      session_tracker = tracker_new, protocol_tracker = tracker_new, guards = [], unregistering = [],
      broadcasts = [], expiries = [], next_task = 0, unpublished = [], responses = [], stage = Listening\<rparr>"

definition send_ipc_shutdown :: "run_state \<Rightarrow> run_state" where
  "send_ipc_shutdown st =
     (case ipc st of
        IpcListening \<Rightarrow> st\<lparr>ipc := IpcStopped\<rparr>
      | IpcStopped \<Rightarrow> st
      | IpcUnread n \<Rightarrow> if n = 0 then st\<lparr>ipc := IpcUnread 1\<rparr> else st\<lparr>stage := Stuck\<rparr>)"

definition respond :: "ipc_response \<Rightarrow> run_state \<Rightarrow> run_state" where
  "respond r st = (if stage st = Stuck then st else st\<lparr>responses := responses st @ [r]\<rparr>)"

text \<open>Taking the wormhole out: its tasks are aborted and its record is overwritten.\<close>

definition burn_wormhole :: "run_state \<Rightarrow> run_state" where
  "burn_wormhole st =
     (case wormhole st of
        None \<Rightarrow> st
      | Some wh \<Rightarrow>
          st\<lparr>wormhole := None,
             broadcasts := filter (\<lambda>b. fst b \<noteq> wh_task wh) (broadcasts st),
             expiries := filter (\<lambda>t. t \<noteq> wh_expiry_task wh) (expiries st),
             unpublished := unpublished st @ [wh_code wh]\<rparr>)"

definition enable_wormhole :: "string \<Rightarrow> string option \<Rightarrow> bool \<Rightarrow> run_state \<Rightarrow> run_state" where
  "enable_wormhole code password persistent st0 =
     (let st = burn_wormhole st0; t = next_task st in
      st\<lparr>wormhole := Some \<lparr>wh_code = code, wh_password = password, wh_persistent = persistent, wh_task = t,
             wh_failed_attempts = 0, wh_success = False, wh_expiry_task = Suc t\<rparr>,
         broadcasts := (t, code) # broadcasts st, expiries := Suc t # expiries st, next_task := t + 2\<rparr>)"

definition daemon_status_of :: "run_config \<Rightarrow> run_state \<Rightarrow> daemon_status" where
  "daemon_status_of c st =
     \<lparr>endpoint_id = rc_endpoint_id c, ds_ticket = rc_ticket c,
      wormhole_active = wormhole st \<noteq> None,
      wormhole_code = Option.bind (wormhole st) (\<lambda>w. case wormhole_code_new (wh_code w) of Inr v \<Rightarrow> Some v | Inl _ \<Rightarrow> None),
      ds_active_sessions = active_sessions st, ds_sessions = tracker_snapshot (session_tracker st)\<rparr>"

fun control_command :: "run_config \<Rightarrow> ipc_command \<Rightarrow> run_state \<Rightarrow> run_state" where
  "control_command c (EnableWormhole code password persistent) st =
     respond IpcOk (enable_wormhole code password persistent st)"
| "control_command c DisableWormhole st = respond IpcOk (burn_wormhole st)"
| "control_command c GetStatus st = respond (IpcStatus (daemon_status_of c st)) st"
| "control_command c Shutdown st = respond IpcOk (send_ipc_shutdown (st\<lparr>shutdown_requested := True\<rparr>))"

definition pairing_succeeded :: "run_config \<Rightarrow> run_state \<Rightarrow> run_state" where
  "pairing_succeeded c st =
     (case wormhole st of
        Some wh \<Rightarrow>
          if wh_persistent wh then st
          else let st1 = burn_wormhole st in
               if shutdown_on_wormhole_success c then send_ipc_shutdown (st1\<lparr>shutdown_requested := True\<rparr>) else st1
      | None \<Rightarrow> st)"

text \<open>The check at the bottom of the loop, and at its top before it sleeps.\<close>

definition check_exit :: "run_state \<Rightarrow> run_state" where
  "check_exit st =
     (if stage st = Listening \<and> shutdown_requested st \<and> active_sessions st = 0 then st\<lparr>stage := Draining\<rparr> else st)"

datatype server_event =
    ShutdownSignal
  | Control ipc_command
  | ControlClosed
  | PairingSucceeded
  | PairingFailed
  | SessionOpened string string
  | SessionDropped u64
  | Unregistered u64
  | ExpirySent nat
  | DrainPoll

text \<open>A message of one of the four channels; the rest of the daemon's events do not wake the loop.\<close>

definition on_message :: "(run_state \<Rightarrow> run_state) \<Rightarrow> run_state \<Rightarrow> run_state" where
  "on_message act st = (if stage st = Listening then check_exit (act st) else st)"

definition session_opened :: "string \<Rightarrow> string \<Rightarrow> run_state \<Rightarrow> run_state" where
  "session_opened peer now st =
     (if stage st = Finished then st
      else case tracker_register peer now (protocol_tracker st) of
        (i, t) \<Rightarrow> st\<lparr>active_sessions := active_sessions st + 1, protocol_tracker := t, guards := i # guards st\<rparr>)"

text \<open>\<^verbatim>\<open>SessionGuard::drop\<close>: the counter goes down at once, the registry in a task of its own.\<close>

definition session_dropped :: "u64 \<Rightarrow> run_state \<Rightarrow> run_state" where
  "session_dropped i st =
     (if i \<in> set (guards st)
      then st\<lparr>active_sessions := active_sessions st - 1, guards := remove1 i (guards st), unregistering := i # unregistering st\<rparr>
      else st)"

definition session_unregistered :: "u64 \<Rightarrow> run_state \<Rightarrow> run_state" where
  "session_unregistered i st =
     (if i \<in> set (unregistering st)
      then st\<lparr>protocol_tracker := tracker_unregister i (protocol_tracker st), unregistering := remove1 i (unregistering st)\<rparr>
      else st)"

definition drain_poll :: "run_state \<Rightarrow> run_state" where
  "drain_poll st =
     (if stage st = Draining \<and> active_sessions st = 0 then (burn_wormhole st)\<lparr>stage := Finished\<rparr> else st)"

fun server_step :: "run_config \<Rightarrow> server_event \<Rightarrow> run_state \<Rightarrow> run_state" where
  "server_step c ShutdownSignal st = on_message (\<lambda>s. send_ipc_shutdown (s\<lparr>shutdown_requested := True\<rparr>)) st"
| "server_step c (Control cmd) st = on_message (control_command c cmd) st"
| "server_step c ControlClosed st = (if stage st = Listening then st\<lparr>stage := Draining\<rparr> else st)"
| "server_step c PairingSucceeded st = on_message (pairing_succeeded c) st"
| "server_step c PairingFailed st = on_message burn_wormhole st"
| "server_step c (SessionOpened peer now) st = session_opened peer now st"
| "server_step c (SessionDropped i) st = session_dropped i st"
| "server_step c (Unregistered i) st = session_unregistered i st"
| "server_step c (ExpirySent t) st = st\<lparr>expiries := filter (\<lambda>u. u \<noteq> t) (expiries st)\<rparr>"
| "server_step c DrainPoll st = drain_poll st"

definition server_run :: "run_config \<Rightarrow> server_event list \<Rightarrow> run_state" where
  "server_run c es = fold (server_step c) es (run_init c)"

section \<open>What each step leaves alone\<close>

definition books :: "run_state \<Rightarrow> u64 \<times> session_tracker \<times> u64 list \<times> u64 list" where
  "books st = (active_sessions st, protocol_tracker st, guards st, unregistering st)"

lemma small_books [simp]:
  "books (send_ipc_shutdown st) = books st" "books (respond r st) = books st" "books (burn_wormhole st) = books st"
  "books (st\<lparr>shutdown_requested := b\<rparr>) = books st" "books (st\<lparr>stage := g\<rparr>) = books st" "books (st\<lparr>expiries := ts\<rparr>) = books st"
  by (auto simp: books_def send_ipc_shutdown_def respond_def burn_wormhole_def split: ipc_receiver.splits option.splits)

lemma enable_books [simp]: "books (enable_wormhole wcode password persistent st) = books st"
  using small_books(3) [of st] by (simp add: books_def enable_wormhole_def Let_def)

lemma control_books [simp]: "books (control_command c cmd st) = books st"
  by (cases cmd) simp_all

lemma message_books:
  "books (check_exit st) = books st" "books (pairing_succeeded c st) = books st" "books (drain_poll st) = books st"
  by (auto simp: check_exit_def pairing_succeeded_def drain_poll_def Let_def split: option.splits)

lemma on_message_books: "(\<And>s. books (act s) = books s) \<Longrightarrow> books (on_message act st) = books st"
  by (simp add: on_message_def message_books)

lemma step_books:
  assumes "\<And>peer now. e \<noteq> SessionOpened peer now" and "\<And>i. e \<noteq> SessionDropped i" and "\<And>i. e \<noteq> Unregistered i"
  shows "books (server_step c e st) = books st"
  using assms by (cases e) (simp_all add: on_message_books message_books, blast+)

section \<open>The wormhole\<close>

definition wormhole_inv :: "run_state \<Rightarrow> bool" where
  "wormhole_inv st \<longleftrightarrow>
     broadcasts st = (case wormhole st of None \<Rightarrow> [] | Some wh \<Rightarrow> [(wh_task wh, wh_code wh)]) \<and>
     set (expiries st) \<subseteq> (case wormhole st of None \<Rightarrow> {} | Some wh \<Rightarrow> {wh_expiry_task wh}) \<and>
     (stage st = Finished \<longrightarrow> wormhole st = None)"

lemma burn_inv: "wormhole_inv st \<Longrightarrow> wormhole_inv (burn_wormhole st)"
  by (auto simp: wormhole_inv_def burn_wormhole_def filter_empty_conv split: option.splits)

lemma burn_clears [simp]: "wormhole (burn_wormhole st) = None" "stage (burn_wormhole st) = stage st"
  by (auto simp: burn_wormhole_def split: option.splits)

lemma enable_inv:
  assumes "wormhole_inv st" and "stage st \<noteq> Finished"
  shows "wormhole_inv (enable_wormhole wcode password persistent st)"
  using burn_inv [OF assms(1)] assms(2) by (auto simp: wormhole_inv_def enable_wormhole_def Let_def)

lemma ipc_inv: "wormhole_inv st \<Longrightarrow> wormhole_inv (send_ipc_shutdown st)"
  by (auto simp: wormhole_inv_def send_ipc_shutdown_def split: ipc_receiver.splits)

lemma respond_inv: "wormhole_inv st \<Longrightarrow> wormhole_inv (respond r st)"
  by (auto simp: wormhole_inv_def respond_def)

lemma flag_inv: "wormhole_inv st \<Longrightarrow> wormhole_inv (st\<lparr>shutdown_requested := b\<rparr>)"
  by (simp add: wormhole_inv_def)

lemma check_exit_inv: "wormhole_inv st \<Longrightarrow> wormhole_inv (check_exit st)"
  by (auto simp: wormhole_inv_def check_exit_def)

lemma control_inv: "wormhole_inv st \<Longrightarrow> stage st = Listening \<Longrightarrow> wormhole_inv (control_command c cmd st)"
  by (cases cmd) (simp_all add: respond_inv enable_inv burn_inv ipc_inv flag_inv)

lemma pairing_inv: "wormhole_inv st \<Longrightarrow> wormhole_inv (pairing_succeeded c st)"
  by (auto simp: pairing_succeeded_def Let_def burn_inv ipc_inv flag_inv split: option.splits)

lemma on_message_inv:
  "wormhole_inv st \<Longrightarrow> (stage st = Listening \<Longrightarrow> wormhole_inv (act st)) \<Longrightarrow> wormhole_inv (on_message act st)"
  by (simp add: on_message_def check_exit_inv)

lemma session_inv:
  "wormhole_inv st \<Longrightarrow> wormhole_inv (session_opened peer now st)" "wormhole_inv st \<Longrightarrow> wormhole_inv (session_dropped i st)"
  "wormhole_inv st \<Longrightarrow> wormhole_inv (session_unregistered i st)"
  by (simp_all add: wormhole_inv_def session_opened_def session_dropped_def session_unregistered_def tracker_register_def
      split: option.splits)

lemma drain_inv: "wormhole_inv st \<Longrightarrow> wormhole_inv (drain_poll st)"
  using burn_inv [of st] by (auto simp: wormhole_inv_def drain_poll_def)

lemma step_wormhole_inv: "wormhole_inv st \<Longrightarrow> wormhole_inv (server_step c e st)"
proof (cases e)
  case (ExpirySent t)
  assume "wormhole_inv st"
  then show ?thesis using ExpirySent by (auto simp: wormhole_inv_def split: option.splits)
qed (auto simp: on_message_inv control_inv pairing_inv burn_inv ipc_inv flag_inv session_inv drain_inv,
     auto simp: wormhole_inv_def)

lemma run_invariant:
  assumes "I (run_init c)" and "\<And>e st. I st \<Longrightarrow> I (server_step c e st)"
  shows "I (server_run c es)"
proof -
  have "I st \<Longrightarrow> I (fold (server_step c) es st)" for st by (induction es arbitrary: st) (simp_all add: assms(2))
  then show ?thesis using assms(1) by (simp add: server_run_def)
qed

text \<open>C23. In every run of the daemon at most one wormhole is published, and it is the active one: a replaced, burnt, disabled
  or expired wormhole has no broadcast and no expiry task left, and none is left when the daemon has shut down.\<close>

theorem one_wormhole_at_a_time:
  assumes "st = server_run c es"
  shows "map snd (broadcasts st) = (case wormhole st of None \<Rightarrow> [] | Some wh \<Rightarrow> [wh_code wh]) \<and>
     (wormhole st = None \<longrightarrow> expiries st = []) \<and> (stage st = Finished \<longrightarrow> wormhole st = None)"
proof -
  have "wormhole_inv st"
    unfolding assms by (rule run_invariant) (simp_all add: step_wormhole_inv, simp add: wormhole_inv_def run_init_def)
  then show ?thesis by (auto simp: wormhole_inv_def split: option.splits)
qed

definition sample_config :: run_config where
  "sample_config = \<lparr>rc_endpoint_id = ''node'', rc_ticket = ''ticket'', ipc_enabled = True, shutdown_on_wormhole_success = False\<rparr>"

theorem one_wormhole_at_a_time_witness:
  "map snd (broadcasts (server_run sample_config
     [Control (EnableWormhole ''fox-sky-1'' None False), Control (EnableWormhole ''dog-kite-2'' None False), PairingSucceeded,
      Control Shutdown, DrainPoll])) = [] \<and>
   stage (server_run sample_config
     [Control (EnableWormhole ''fox-sky-1'' None False), Control (EnableWormhole ''dog-kite-2'' None False), PairingSucceeded,
      Control Shutdown, DrainPoll]) = Finished"
proof -
  let ?st = "server_run sample_config
     [Control (EnableWormhole ''fox-sky-1'' None False), Control (EnableWormhole ''dog-kite-2'' None False), PairingSucceeded,
      Control Shutdown, DrainPoll]"
  have "stage ?st = Finished" by code_simp
  then show ?thesis using one_wormhole_at_a_time [OF refl, of sample_config
     "[Control (EnableWormhole ''fox-sky-1'' None False), Control (EnableWormhole ''dog-kite-2'' None False), PairingSucceeded,
      Control Shutdown, DrainPoll]"] by simp
qed

section \<open>The registry\<close>

text \<open>\<open>n\<close> sessions were opened so far.\<close>

definition registry_inv :: "nat \<Rightarrow> run_state \<Rightarrow> bool" where
  "registry_inv n st \<longleftrightarrow>
     next_id (protocol_tracker st) = of_nat n \<and> (\<forall>i \<in> set (guards st) \<union> set (unregistering st). unat i < n) \<and>
     distinct (guards st @ unregistering st) \<and> distinct (map fst (sessions (protocol_tracker st))) \<and>
     fst ` set (sessions (protocol_tracker st)) = set (guards st) \<union> set (unregistering st) \<and>
     active_sessions st = of_nat (length (guards st))"

lemma registry_books: "books st' = books st \<Longrightarrow> registry_inv n st' = registry_inv n st"
  by (simp add: books_def registry_inv_def)

lemma opened_inv:
  assumes "registry_inv n st" and "n < 2 ^ 64" and "stage st \<noteq> Finished"
  shows "registry_inv (Suc n) (session_opened peer now st)"
proof -
  have u: "unat (of_nat n :: u64) = n" using assms(2) by (simp add: unsigned_of_nat take_bit_nat_eq_self)
  have fresh: "of_nat n \<notin> set (guards st) \<union> set (unregistering st)"
    using assms(1) u unfolding registry_inv_def by (metis less_irrefl)
  then show ?thesis
    using assms u unfolding registry_inv_def session_opened_def tracker_register_def
    by (auto simp: AList.update_keys less_SucI distinct_update dom_update simp flip: set_map)
qed

lemma dropped_inv: "registry_inv n st \<Longrightarrow> registry_inv n (session_dropped i st)"
proof -
  assume inv: "registry_inv n st"
  have len: "i \<in> set (guards st) \<Longrightarrow> (of_nat (length (guards st)) :: u64) - 1 = of_nat (length (remove1 i (guards st)))"
    by (cases "length (guards st)") (auto simp: length_remove1)
  show ?thesis
    using inv len unfolding registry_inv_def session_dropped_def by (auto simp: distinct_remove1)
qed

lemma unregistered_inv: "registry_inv n st \<Longrightarrow> registry_inv n (session_unregistered i st)"
  unfolding registry_inv_def session_unregistered_def tracker_unregister_def
  by (auto simp: distinct_delete delete_keys simp flip: set_map) (auto simp: distinct_remove1 delete_keys distinct_removeAll)

lemma step_registry_inv:
  assumes "registry_inv n st" and "n < 2 ^ 64"
  shows "registry_inv n (server_step c e st) \<or> registry_inv (Suc n) (server_step c e st)"
proof (cases e)
  case (SessionOpened peer now)
  then show ?thesis using opened_inv [OF assms] assms(1) by (cases "stage st = Finished") (auto simp: session_opened_def)
next
  case (SessionDropped i)
  then show ?thesis using dropped_inv [OF assms(1)] by simp
next
  case (Unregistered i)
  then show ?thesis using unregistered_inv [OF assms(1)] by simp
qed (use assms(1) registry_books [OF step_books, of e n c st] in simp_all)

lemma run_registry_inv:
  "registry_inv n st \<Longrightarrow> n + length es \<le> 2 ^ 64 \<Longrightarrow> \<exists>m. registry_inv m (fold (server_step c) es st)"
proof (induction es arbitrary: n st)
  case (Cons e es)
  then show ?case using step_registry_inv [of n st c e] Cons.IH [of n] Cons.IH [of "Suc n"] by auto
qed auto

text \<open>In every run, up to the range of its identifiers, the counter of active sessions is the number of sessions that
  are open, and the registry of the protocol has exactly one entry for each of them and for those whose removal is under way.\<close>

theorem sessions_are_accounted:
  assumes "length es \<le> 2 ^ 64" and "st = server_run c es"
  shows "active_sessions st = of_nat (length (guards st)) \<and> distinct (guards st) \<and>
     distinct (map fst (sessions (protocol_tracker st))) \<and>
     fst ` set (sessions (protocol_tracker st)) = set (guards st) \<union> set (unregistering st)"
proof -
  have "registry_inv 0 (run_init c)" by (simp add: registry_inv_def run_init_def tracker_new_def)
  then obtain m where "registry_inv m st" using run_registry_inv [of 0 _ es c] assms by (auto simp: server_run_def)
  then show ?thesis by (simp add: registry_inv_def)
qed

theorem sessions_are_accounted_witness:
  "active_sessions (server_run sample_config [SessionOpened ''a'' ''t'', SessionOpened ''b'' ''t'', SessionDropped 0]) = 1"
proof -
  have "length (guards (server_run sample_config [SessionOpened ''a'' ''t'', SessionOpened ''b'' ''t'', SessionDropped 0])) = 1"
    by code_simp
  then show ?thesis
    using sessions_are_accounted [OF _ refl, of "[SessionOpened ''a'' ''t'', SessionOpened ''b'' ''t'', SessionDropped 0]" sample_config]
    by simp
qed

section \<open>Status and shutdown\<close>

definition silent_status :: "ipc_response \<Rightarrow> bool" where
  "silent_status r = (case r of IpcStatus d \<Rightarrow> ds_sessions d = [] | _ \<Rightarrow> True)"

definition status_inv :: "run_state \<Rightarrow> bool" where
  "status_inv st \<longleftrightarrow> session_tracker st = tracker_new \<and> list_all silent_status (responses st)"

lemma status_inv_small:
  "status_inv st \<Longrightarrow> status_inv (send_ipc_shutdown st)" "status_inv st \<Longrightarrow> status_inv (burn_wormhole st)"
  "status_inv st \<Longrightarrow> status_inv (st\<lparr>shutdown_requested := b\<rparr>)" "status_inv st \<Longrightarrow> status_inv (st\<lparr>stage := g\<rparr>)"
  "status_inv st \<Longrightarrow> silent_status r \<Longrightarrow> status_inv (respond r st)" "status_inv st \<Longrightarrow> status_inv (check_exit st)"
  by (auto simp: status_inv_def send_ipc_shutdown_def burn_wormhole_def respond_def check_exit_def
      split: ipc_receiver.splits option.splits)

lemma status_inv_control: "status_inv st \<Longrightarrow> status_inv (control_command c cmd st)"
proof (cases cmd)
  case (EnableWormhole wcode password persistent)
  assume "status_inv st"
  then have "status_inv (enable_wormhole wcode password persistent st)"
    using status_inv_small(2) [of st] by (simp add: status_inv_def enable_wormhole_def Let_def)
  then show ?thesis using EnableWormhole status_inv_small(5) by (simp add: silent_status_def)
next
  case GetStatus
  assume "status_inv st"
  then show ?thesis
    using GetStatus status_inv_small(5) by (simp add: silent_status_def daemon_status_of_def status_inv_def tracker_snapshot_def tracker_new_def)
qed (simp_all add: status_inv_small silent_status_def)

lemma step_status_inv: "status_inv st \<Longrightarrow> status_inv (server_step c e st)"
  by (cases e)
     (auto simp: on_message_def status_inv_small status_inv_control pairing_succeeded_def drain_poll_def Let_def split: option.splits,
      auto simp: status_inv_def session_opened_def session_dropped_def session_unregistered_def split: prod.splits)

text \<open>Every status that a running daemon reports lists no sessions, whatever the counter beside it says: the list is taken
  from the registry of the server object, and the sessions are entered in another one.\<close>

theorem status_never_lists_sessions:
  assumes "st = server_run c es" and "IpcStatus d \<in> set (responses st)"
  shows "ds_sessions d = []"
proof -
  have "status_inv st"
    unfolding assms(1) by (rule run_invariant) (simp_all add: step_status_inv, simp add: status_inv_def run_init_def)
  then show ?thesis using assms(2) by (auto simp: status_inv_def list_all_iff silent_status_def)
qed

theorem status_never_lists_sessions_witness:
  "(case responses (server_run sample_config [SessionOpened ''peer'' ''now'', Control GetStatus]) of
      [IpcStatus d] \<Rightarrow> ds_active_sessions d = 1 \<and> ds_sessions d = [] | _ \<Rightarrow> False)"
proof -
  let ?st = "server_run sample_config [SessionOpened ''peer'' ''now'', Control GetStatus]"
  have "\<exists>d. responses ?st = [IpcStatus d] \<and> ds_active_sessions d = 1"
    by (simp add: server_run_def run_init_def session_opened_def tracker_register_def on_message_def respond_def check_exit_def
        daemon_status_of_def)
  then obtain d where "responses ?st = [IpcStatus d]" "ds_active_sessions d = 1" by blast
  moreover have "ds_sessions d = []"
    by (rule status_never_lists_sessions [OF refl, where c = sample_config and
        es = "[SessionOpened ''peer'' ''now'', Control GetStatus]"])
       (use calculation in simp)
  ultimately show ?thesis by simp
qed

text \<open>Events of other tasks.\<close>

fun task_event :: "server_event \<Rightarrow> bool" where
  "task_event (SessionOpened _ _) = True"
| "task_event (SessionDropped _) = True"
| "task_event (Unregistered _) = True"
| "task_event DrainPoll = True"
| "task_event _ = False"

lemma task_event_stage:
  "task_event e \<Longrightarrow> stage st = Listening \<Longrightarrow>
   stage (server_step c e st) = Listening \<and> shutdown_requested (server_step c e st) = shutdown_requested st"
  by (cases e)
     (auto simp: session_opened_def session_dropped_def session_unregistered_def drain_poll_def split: prod.splits)

lemma task_events_stage:
  "list_all task_event es \<Longrightarrow> stage st = Listening \<Longrightarrow>
   stage (fold (server_step c) es st) = Listening \<and> shutdown_requested (fold (server_step c) es st) = shutdown_requested st"
  by (induction es arbitrary: st) (simp_all add: task_event_stage)

text \<open>A shutdown that is requested while a session is open does not happen when that session, and every other, has ended:
  the loop looks at the counter only after a message, and the end of a session sends none.\<close>

theorem shutdown_misses_the_last_session:
  assumes "list_all task_event es"
    and "st = server_run c ([SessionOpened peer now, Control Shutdown, SessionDropped 0] @ es)"
  shows "shutdown_requested st \<and> stage st = Listening"
proof -
  let ?st = "server_run c [SessionOpened peer now, Control Shutdown, SessionDropped 0]"
  have "stage ?st = Listening \<and> shutdown_requested ?st"
    by (cases "ipc_enabled c")
       (simp_all add: server_run_def run_init_def session_opened_def tracker_register_def tracker_new_def on_message_def
         send_ipc_shutdown_def respond_def check_exit_def session_dropped_def)
  then show ?thesis using task_events_stage [OF assms(1), of ?st c] assms(2) by (simp add: server_run_def)
qed

theorem shutdown_misses_the_last_session_witness:
  "stage (server_run sample_config ([SessionOpened ''p'' ''t'', Control Shutdown, SessionDropped 0] @ [Unregistered 0, DrainPoll]))
     = Listening"
  using shutdown_misses_the_last_session [OF _ refl, of "[Unregistered 0, DrainPoll]" sample_config "''p''" "''t''"] by simp

end
