(* ===== verification/Input_History.thy ===== *)
theory Input_History
  imports Storage_FS Utf8_Lossy
begin

text \<open>
  The history of the local command lines: \<^verbatim>\<open>src/cli/src/commands/connect/history.rs\<close>.  An index out of range is a
  panic, the value \<open>None\<close>.
\<close>

definition MAX_HISTORY_ENTRIES :: nat where "MAX_HISTORY_ENTRIES = 1000"

record command_history =
  hist_path :: "path option"
  entries :: "string list"
  nav_index :: "nat option"
  pending_line :: string

text \<open>\<^verbatim>\<open>str::lines\<close>: split at line feeds, drop a carriage return before one, and no last empty line.\<close>

definition strip_cr :: "string \<Rightarrow> string" where
  "strip_cr l = (if l \<noteq> [] \<and> last l = CHR 0x0D then butlast l else l)"

fun str_lines :: "string \<Rightarrow> string \<Rightarrow> string list" where
  "str_lines acc [] = (if acc = [] then [] else [rev acc])"
| "str_lines acc (c # s) =
     (if c = CHR 0x0A then strip_cr (rev acc) # str_lines [] s else str_lines (c # acc) s)"

definition history_new :: "disk \<Rightarrow> path option \<Rightarrow> command_history" where
  "history_new d p =
     \<lparr>hist_path = p,
      entries = (case p of
           None \<Rightarrow> []
         | Some q \<Rightarrow>
             (case fs_read_to_string d q of
                Inl _ \<Rightarrow> []
              | Inr content \<Rightarrow> let ls = str_lines [] content in drop (length ls - MAX_HISTORY_ENTRIES) ls)),
      nav_index = None, pending_line = []\<rparr>"

text \<open>Opening for append creates a missing file; every error is ignored.\<close>

definition open_append :: "path \<Rightarrow> (disk, io_error, unit) op" where
  "open_append p d = (if is_file_node (lookup d p) \<and> \<not> faults d (CallCreate p) then (Inr (), d) else fs_create p d)"

definition append_to_file :: "command_history \<Rightarrow> string \<Rightarrow> disk \<Rightarrow> disk" where
  "append_to_file h entry d =
     (case hist_path h of
        None \<Rightarrow> d
      | Some p \<Rightarrow>
          let d1 = (case path_parent p of Some parent \<Rightarrow> snd (fs_create_dir_all parent d) | None \<Rightarrow> d) in
          (case open_append p d1 of
             (Inl _, d2) \<Rightarrow> d2
           | (Inr _, d2) \<Rightarrow> snd (fs_append p (entry @ [CHR 0x0A]) d2)))"

definition history_add :: "string \<Rightarrow> command_history \<times> disk \<Rightarrow> command_history \<times> disk" where
  "history_add command hx =
     (case hx of (h, d) \<Rightarrow>
        let trimmed = trim command in
        if trimmed = [] then (h, d)
        else if entries h \<noteq> [] \<and> last (entries h) = trimmed
        then (h\<lparr>nav_index := None, pending_line := []\<rparr>, d)
        else
          let es = entries h @ [trimmed]; es1 = (if length es > MAX_HISTORY_ENTRIES then drop 1 es else es) in
          (h\<lparr>entries := es1, nav_index := None, pending_line := []\<rparr>, append_to_file h trimmed d))"

text \<open>The line to show (or none), in the history after the move.\<close>

definition history_up :: "string \<Rightarrow> command_history \<Rightarrow> (string option \<times> command_history) option" where
  "history_up current h =
     (if entries h = [] then Some (None, h)
      else
        let new_index = (case nav_index h of None \<Rightarrow> length (entries h) - 1 | Some i \<Rightarrow> i - 1);
            h1 = (case nav_index h of None \<Rightarrow> h\<lparr>pending_line := current\<rparr> | Some _ \<Rightarrow> h)
        in if new_index < length (entries h)
           then Some (Some (entries h ! new_index), h1\<lparr>nav_index := Some new_index\<rparr>)
           else None)"

definition history_down :: "command_history \<Rightarrow> (string option \<times> command_history) option" where
  "history_down h =
     (case nav_index h of
        None \<Rightarrow> Some (None, h)
      | Some i \<Rightarrow>
          if i + 1 \<ge> length (entries h) then Some (Some (pending_line h), h\<lparr>nav_index := None\<rparr>)
          else Some (Some (entries h ! (i + 1)), h\<lparr>nav_index := Some (i + 1)\<rparr>))"

definition abandon_navigation :: "string \<Rightarrow> command_history \<Rightarrow> command_history" where
  "abandon_navigation current h = h\<lparr>nav_index := None, pending_line := current\<rparr>"

section \<open>Well-formed histories\<close>

definition wf_history :: "command_history \<Rightarrow> bool" where
  "wf_history h \<longleftrightarrow>
     length (entries h) \<le> MAX_HISTORY_ENTRIES \<and>
     (case nav_index h of None \<Rightarrow> True | Some i \<Rightarrow> i < length (entries h))"

lemma wf_history_new [simp]: "wf_history (history_new d p)"
  by (auto simp: wf_history_def history_new_def Let_def MAX_HISTORY_ENTRIES_def split: option.splits sum.splits)

lemma wf_history_add [simp]: "wf_history h \<Longrightarrow> wf_history (fst (history_add command (h, d)))"
  by (auto simp: wf_history_def history_add_def Let_def MAX_HISTORY_ENTRIES_def split: option.splits)

lemma wf_abandon [simp]: "wf_history h \<Longrightarrow> wf_history (abandon_navigation current h)"
  by (simp add: wf_history_def abandon_navigation_def)

lemma history_up_progress:
  assumes "wf_history h"
  shows "\<exists>r h'. history_up current h = Some (r, h') \<and> wf_history h'"
proof (cases "entries h = []")
  case False
  then have "0 < length (entries h)" by simp
  then show ?thesis using assms by (auto simp: wf_history_def history_up_def Let_def split: option.splits)
qed (use assms in \<open>simp add: history_up_def\<close>)

lemma history_down_progress:
  assumes "wf_history h"
  shows "\<exists>r h'. history_down h = Some (r, h') \<and> wf_history h'"
  using assms by (auto simp: wf_history_def history_down_def split: option.splits)

section \<open>Walking through the history\<close>

text \<open>\<open>n\<close> steps up from a new line, and \<open>n\<close> steps down; the last line shown.\<close>

fun up_times :: "nat \<Rightarrow> string \<Rightarrow> command_history \<Rightarrow> (string option \<times> command_history) option" where
  "up_times 0 current h = Some (None, h)"
| "up_times (Suc n) current h = Option.bind (up_times n current h) (\<lambda>(_, h1). history_up current h1)"

fun down_times :: "nat \<Rightarrow> command_history \<Rightarrow> (string option \<times> command_history) option" where
  "down_times 0 h = Some (None, h)"
| "down_times (Suc n) h = Option.bind (down_times n h) (\<lambda>(_, h1). history_down h1)"

lemma up_times_index:
  assumes "nav_index h = None" and "0 < n" and "n \<le> length (entries h)"
  shows "up_times n current h =
     Some (Some (entries h ! (length (entries h) - n)),
       h\<lparr>pending_line := current, nav_index := Some (length (entries h) - n)\<rparr>)"
  using assms(2,3)
proof (induction n)
  case (Suc n)
  then show ?case using assms(1) by (cases n) (auto simp: history_up_def Let_def)
qed simp

lemma down_times_index:
  assumes "nav_index h = Some i" and "i < length (entries h)" and "n < length (entries h) - i"
  shows "\<exists>r. down_times n h = Some (r, h\<lparr>nav_index := Some (i + n)\<rparr>)"
  using assms(3)
proof (induction n)
  case 0
  then show ?case using assms(1) by simp
next
  case (Suc n)
  then show ?case by (auto simp: history_down_def)
qed

text \<open>Walking up any number of entries and down again the same number gives back the line that was being typed, and
  every entry on the way is the one stored there.\<close>

theorem history_walk_returns:
  assumes "nav_index h = None" and "0 < n" and "n \<le> length (entries h)"
    and "up_times n current h = Some (shown, h1)"
  shows "shown = Some (entries h ! (length (entries h) - n)) \<and>
     (\<exists>h2. down_times n h1 = Some (Some current, h2) \<and> nav_index h2 = None \<and> entries h2 = entries h)"
proof -
  let ?i = "length (entries h) - n"
  have h1: "shown = Some (entries h ! ?i)" "h1 = h\<lparr>pending_line := current, nav_index := Some ?i\<rparr>"
    using up_times_index [OF assms(1-3), of current] assms(4) by simp_all
  obtain m where m: "n = Suc m" using assms(2) by (cases n) auto
  obtain r where r: "down_times m h1 = Some (r, h1\<lparr>nav_index := Some (?i + m)\<rparr>)"
    using down_times_index [of h1 ?i m] assms(2,3) m unfolding h1(2) by (fastforce simp: less_diff_conv2)
  have "\<exists>h2. down_times n h1 = Some (Some current, h2) \<and> nav_index h2 = None \<and> entries h2 = entries h"
    using r m assms(3) h1 by (auto simp: history_down_def)
  then show ?thesis using h1 by blast
qed

definition sample_history :: command_history where
  "sample_history = \<lparr>hist_path = None, entries = [''ls'', ''put a'', ''get b''], nav_index = None, pending_line = []\<rparr>"

theorem history_walk_returns_witness:
  "\<exists>shown h1 h2. up_times 2 ''he'' sample_history = Some (shown, h1) \<and> shown = Some ''put a'' \<and>
     down_times 2 h1 = Some (Some ''he'', h2)"
proof -
  have "up_times 2 ''he'' sample_history =
      Some (Some ''put a'', sample_history\<lparr>pending_line := ''he'', nav_index := Some 1\<rparr>)"
    using up_times_index [of sample_history 2 "''he''"] by (simp add: sample_history_def)
  then show ?thesis
    using history_walk_returns [of sample_history 2 "''he''"] by (fastforce simp: sample_history_def)
qed

section \<open>The file\<close>

lemma str_lines_append_line:
  "CHR 0x0A \<notin> set e \<Longrightarrow> str_lines acc (e @ [CHR 0x0A]) = [strip_cr (rev acc @ e)]"
  by (induction e arbitrary: acc) auto

lemma str_lines_append:
  assumes "s = [] \<and> acc = [] \<or> s \<noteq> [] \<and> last s = CHR 0x0A"
  shows "str_lines acc (s @ t) = str_lines acc s @ str_lines [] t"
  using assms
proof (induction s arbitrary: acc)
  case (Cons c s)
  show ?case
  proof (cases "s = []")
    case False
    then show ?thesis using Cons.IH [of "if c = CHR 0x0A then [] else c # acc"] Cons.prems by auto
  qed (use Cons.prems in auto)
qed simp

lemma drop_last_1000:
  fixes ls :: "'a list"
  shows "drop (length (ls @ [e]) - MAX_HISTORY_ENTRIES) (ls @ [e]) =
    (let es = drop (length ls - MAX_HISTORY_ENTRIES) ls @ [e] in if length es > MAX_HISTORY_ENTRIES then drop 1 es else es)"
proof (cases "length ls < 1000")
  case False
  then have "length (ls @ [e]) - 1000 = Suc (length ls - 1000)" by simp
  moreover have "length (drop (length ls - 1000) ls) = 1000" using False by simp
  ultimately show ?thesis by (simp add: MAX_HISTORY_ENTRIES_def Let_def drop_Suc tl_drop)
qed (simp add: MAX_HISTORY_ENTRIES_def)

text \<open>Appending an entry to the file where nothing fails.\<close>

lemma append_to_file_healthy:
  assumes "hist_path h = Some (q @ [Normal n])" and "healthy d" and "lookup d (q @ [Normal n]) = Some (File c m)"
    and "list_all (\<lambda>a. is_dir_node (lookup d a)) (ancestors q)" and "q \<noteq> []"
  shows "\<exists>d'. append_to_file h e d = d' \<and> lookup d' (q @ [Normal n]) = Some (File (c @ e @ [CHR 0x0A]) m) \<and> healthy d'"
proof -
  let ?p = "q @ [Normal n]"
  have "path_parent ?p = Some q" using assms(5) by (simp add: path_parent_def)
  moreover have "\<not> list_ex (\<lambda>q. is_file_node (lookup d q)) (ancestors q)"
    using assms(4) by (fastforce simp: list_ex_iff list_all_iff elim: is_file_node.elims is_dir_node.elims)
  moreover let ?d1 = "fold make_dir (ancestors q) d"
  have "lookup ?d1 ?p = Some (File c m)" using fold_make_dir_frame [of d ?p] assms(3) by simp
  ultimately show ?thesis
    using assms(1,2) by (simp add: append_to_file_def fs_create_dir_all_def healthy_def open_append_def fs_append_def)
qed

lemma reload_after_append:
  assumes "fs_read_to_string d p = Inr c" and "fs_read_to_string d' p = Inr (c @ e @ [CHR 0x0A])"
    and "c = [] \<or> last c = CHR 0x0A" and "CHR 0x0A \<notin> set e" and "e = [] \<or> last e \<noteq> CHR 0x0D"
  shows "entries (history_new d' (Some p)) =
    (let es = entries (history_new d (Some p)) @ [e] in if length es > MAX_HISTORY_ENTRIES then drop 1 es else es)"
proof -
  have "str_lines [] (c @ e @ [CHR 0x0A]) = str_lines [] c @ [e]"
    using str_lines_append [of c "[]" "e @ [CHR 0x0A]"] str_lines_append_line [OF assms(4), of "[]"] assms(3,5)
    by (auto simp: strip_cr_def)
  then show ?thesis
    using assms(1,2) drop_last_1000 [of "str_lines [] c" e] by (simp add: history_new_def Let_def)
qed

text \<open>The file keeps the history: when a history agrees with its file, the file is readable text that ends with a complete
  line, and nothing fails, then after a command is added a new session loads from the file exactly the entries in memory, the
  last thousand.\<close>

theorem history_file_follows:
  assumes "hist_path h = Some (q @ [Normal n])" and "q \<noteq> []" and "healthy d"
    and "lookup d (q @ [Normal n]) = Some (File c m)" and "list_all (\<lambda>a. is_dir_node (lookup d a)) (ancestors q)"
    and "entries (history_new d (hist_path h)) = entries h"
    and "utf8_valid c" and "c = [] \<or> last c = CHR 0x0A"
    and "utf8_valid (trim command)" and "CHR 0x0A \<notin> set (trim command)" and "trim command = [] \<or> last (trim command) \<noteq> CHR 0x0D"
    and "history_add command (h, d) = (h', d')"
  shows "entries (history_new d' (hist_path h')) = entries h' \<and> length (entries h') \<le> MAX_HISTORY_ENTRIES"
proof -
  let ?p = "q @ [Normal n]" and ?e = "trim command"
  have len: "length (entries h) \<le> MAX_HISTORY_ENTRIES"
    using wf_history_new [of d "hist_path h"] assms(6) by (simp add: wf_history_def)
  have path: "hist_path h' = hist_path h" using assms(12) by (auto simp: history_add_def Let_def split: if_splits)
  show ?thesis
  proof (cases "?e = [] \<or> entries h \<noteq> [] \<and> last (entries h) = ?e")
    case True
    then have "entries h' = entries h" "d' = d" using assms(12) by (auto simp: history_add_def Let_def split: if_splits)
    then show ?thesis using path assms(6) len by simp
  next
    case False
    then have d': "d' = append_to_file h ?e d"
      and es: "entries h' = (let es = entries h @ [?e] in if length es > MAX_HISTORY_ENTRIES then drop 1 es else es)"
      using assms(12) by (auto simp: history_add_def Let_def split: if_splits)
    have stored: "lookup d' ?p = Some (File (c @ ?e @ [CHR 0x0A]) m)" "healthy d'"
      using append_to_file_healthy [OF assms(1,3,4,5,2), of ?e] d' by auto
    have "utf8_valid (c @ ?e @ [CHR 0x0A])"
      using utf8_valid_append [OF assms(7)] utf8_valid_append [OF assms(9)] by simp
    then have "fs_read_to_string d' ?p = Inr (c @ ?e @ [CHR 0x0A])" "fs_read_to_string d ?p = Inr c"
      using stored assms(3,4,7) by (simp_all add: fs_read_to_string_def fs_read_def healthy_def)
    then have "entries (history_new d' (Some ?p)) = entries h'"
      using reload_after_append [of d ?p c d' ?e] assms(1,6,8,10,11) es by simp
    moreover have "length (entries h') \<le> MAX_HISTORY_ENTRIES" using len es by (auto simp: Let_def MAX_HISTORY_ENTRIES_def)
    ultimately show ?thesis using path assms(1) by simp
  qed
qed

theorem history_file_follows_witness:
  "\<exists>h' d'. history_add '' put a '' (history_new (put_node [RootDir, Normal ''h''] (File [] 0) (put_node [RootDir] (Dir 0) sample_disk))
        (Some [RootDir, Normal ''h'']), put_node [RootDir, Normal ''h''] (File [] 0) (put_node [RootDir] (Dir 0) sample_disk)) = (h', d') \<and>
     entries (history_new d' (hist_path h')) = [''put a'']"
proof -
  let ?d = "put_node [RootDir, Normal ''h''] (File [] 0) (put_node [RootDir] (Dir 0) sample_disk)"
  let ?h = "history_new ?d (Some [RootDir, Normal ''h''])"
  obtain h' d' where add: "history_add '' put a '' (?h, ?d) = (h', d')" by (rule prod.exhaust)
  have tr: "trim '' put a '' = ''put a''" by code_simp
  have es: "entries ?h = []" by (simp add: history_new_def fs_read_to_string_def fs_read_def split: sum.splits)
  have "healthy ?d" by (simp add: healthy_def put_node_def sample_disk_def)
  moreover have "entries h' = [''put a'']" using add es by (auto simp: history_add_def tr Let_def MAX_HISTORY_ENTRIES_def)
  ultimately have "entries (history_new d' (hist_path h')) = [''put a'']"
    using history_file_follows [OF _ _ _ _ _ _ _ _ _ _ _ add, of "[RootDir]" "''h''" "[]" 0]
    by (simp add: tr history_new_def ancestors_def)
  then show ?thesis using add by blast
qed

end
