(* ===== verification/Line_Editor.thy ===== *)
theory Line_Editor
  imports Input_History
begin

text \<open>
  The editor of a local line: \<^verbatim>\<open>src/cli/src/commands/connect/input/editor.rs\<close>.  The line is a vector of bytes with a
  cursor; inserting or removing out of range is a panic, the value \<open>None\<close>.
\<close>

datatype editor_event =
    InsertByte u8
  | Backspace
  | Delete
  | MoveLeft
  | MoveRight
  | MoveHome
  | MoveEnd
  | HistoryUp
  | HistoryDown
  | Tab
  | Submit

datatype editor_effect =
    NoOp
  | Render
  | ClearAndExit
  | SubmitPrompt bytes
  | SubmitEscape bytes
  | RequestCompletion

datatype editor_mode = EscapeMode | PromptMode

record line_editor =
  ed_line :: bytes
  ed_cursor :: nat
  ed_mode :: editor_mode

definition new_escape :: line_editor where
  "new_escape = \<lparr>ed_line = [0x7E], ed_cursor = 1, ed_mode = EscapeMode\<rparr>"

definition new_prompt :: line_editor where
  "new_prompt = \<lparr>ed_line = [], ed_cursor = 0, ed_mode = PromptMode\<rparr>"

definition replace_line :: "bytes \<Rightarrow> nat \<Rightarrow> line_editor \<Rightarrow> line_editor" where
  "replace_line line cursor ed = ed\<lparr>ed_line := line, ed_cursor := min cursor (length line)\<rparr>"

text \<open>\<^verbatim>\<open>Vec::insert\<close> and \<^verbatim>\<open>Vec::remove\<close>.\<close>

definition vec_insert :: "nat \<Rightarrow> 'a \<Rightarrow> 'a list \<Rightarrow> 'a list option" where
  "vec_insert i x xs = (if i \<le> length xs then Some (take i xs @ x # drop i xs) else None)"

definition vec_remove :: "nat \<Rightarrow> 'a list \<Rightarrow> 'a list option" where
  "vec_remove i xs = (if i < length xs then Some (take i xs @ drop (Suc i) xs) else None)"

definition lossy :: "bytes \<Rightarrow> string" where
  "lossy bs = from_utf8_lossy (str_of_bytes bs)"

definition show_entry :: "line_editor \<Rightarrow> string option \<times> command_history \<Rightarrow> editor_effect \<times> line_editor \<times> command_history" where
  "show_entry ed rh =
     (case rh of
        (Some entry, h) \<Rightarrow> (Render, ed\<lparr>ed_line := as_bytes entry, ed_cursor := length (as_bytes entry)\<rparr>, h)
      | (None, h) \<Rightarrow> (NoOp, ed, h))"

fun editor_apply ::
  "editor_event \<Rightarrow> line_editor \<Rightarrow> command_history \<Rightarrow> (editor_effect \<times> line_editor \<times> command_history) option" where
  "editor_apply (InsertByte b) ed h =
     (case vec_insert (ed_cursor ed) b (ed_line ed) of
        None \<Rightarrow> None
      | Some line \<Rightarrow>
          Some (Render, ed\<lparr>ed_line := line, ed_cursor := ed_cursor ed + 1\<rparr>, abandon_navigation (lossy (ed_line ed)) h))"
| "editor_apply Backspace ed h =
     (if ed_cursor ed = 0 then Some (NoOp, ed, h)
      else case vec_remove (ed_cursor ed - 1) (ed_line ed) of
        None \<Rightarrow> None
      | Some line \<Rightarrow>
          Some (if line = [] \<and> ed_mode ed = EscapeMode then ClearAndExit else Render,
                ed\<lparr>ed_line := line, ed_cursor := ed_cursor ed - 1\<rparr>, abandon_navigation (lossy (ed_line ed)) h))"
| "editor_apply Delete ed h =
     (if length (ed_line ed) \<le> ed_cursor ed then Some (NoOp, ed, h)
      else case vec_remove (ed_cursor ed) (ed_line ed) of
        None \<Rightarrow> None
      | Some line \<Rightarrow> Some (Render, ed\<lparr>ed_line := line\<rparr>, abandon_navigation (lossy (ed_line ed)) h))"
| "editor_apply MoveLeft ed h =
     (if 0 < ed_cursor ed then Some (Render, ed\<lparr>ed_cursor := ed_cursor ed - 1\<rparr>, h) else Some (NoOp, ed, h))"
| "editor_apply MoveRight ed h =
     (if ed_cursor ed < length (ed_line ed) then Some (Render, ed\<lparr>ed_cursor := ed_cursor ed + 1\<rparr>, h) else Some (NoOp, ed, h))"
| "editor_apply MoveHome ed h = Some (Render, ed\<lparr>ed_cursor := 0\<rparr>, h)"
| "editor_apply MoveEnd ed h = Some (Render, ed\<lparr>ed_cursor := length (ed_line ed)\<rparr>, h)"
| "editor_apply HistoryUp ed h = map_option (show_entry ed) (history_up (lossy (ed_line ed)) h)"
| "editor_apply HistoryDown ed h = map_option (show_entry ed) (history_down h)"
| "editor_apply Tab ed h = Some (RequestCompletion, ed, h)"
| "editor_apply Submit ed h =
     Some ((case ed_mode ed of PromptMode \<Rightarrow> SubmitPrompt (ed_line ed) | EscapeMode \<Rightarrow> SubmitEscape (ed_line ed)), ed, h)"

section \<open>Well-formed editors\<close>

definition wf_editor :: "line_editor \<Rightarrow> bool" where
  "wf_editor ed \<longleftrightarrow> ed_cursor ed \<le> length (ed_line ed)"

lemma wf_new [simp]: "wf_editor new_escape" "wf_editor new_prompt"
  by (simp_all add: wf_editor_def new_escape_def new_prompt_def)

lemma wf_replace [simp]: "wf_editor (replace_line line cursor ed)"
  by (simp add: wf_editor_def replace_line_def)

lemma show_entry_wf:
  assumes "wf_editor ed" and "show_entry ed (r, h) = (eff, ed', h')"
  shows "wf_editor ed' \<and> h' = h \<and> ed_mode ed' = ed_mode ed"
  using assms by (auto simp: show_entry_def wf_editor_def split: option.splits)

lemma editor_apply_progress:
  assumes "wf_editor ed" and "wf_history h"
  shows "\<exists>eff ed' h'. editor_apply ev ed h = Some (eff, ed', h') \<and> wf_editor ed' \<and> wf_history h' \<and> ed_mode ed' = ed_mode ed"
proof (cases ev)
  case HistoryUp
  obtain r h1 where "history_up (lossy (ed_line ed)) h = Some (r, h1)" "wf_history h1"
    using history_up_progress [OF assms(2)] by blast
  then show ?thesis using HistoryUp show_entry_wf [OF assms(1), of r h1] by (cases "show_entry ed (r, h1)") auto
next
  case HistoryDown
  obtain r h1 where "history_down h = Some (r, h1)" "wf_history h1" using history_down_progress [OF assms(2)] by blast
  then show ?thesis using HistoryDown show_entry_wf [OF assms(1), of r h1] by (cases "show_entry ed (r, h1)") auto
qed (use assms in \<open>auto simp: wf_editor_def vec_insert_def vec_remove_def\<close>)

section \<open>The editor as two stacks\<close>

text \<open>What is before the cursor, the nearest byte first, and what is behind it.\<close>

type_synonym zipper = "bytes \<times> bytes"

definition zipper_of :: "line_editor \<Rightarrow> zipper" where
  "zipper_of ed = (rev (take (ed_cursor ed) (ed_line ed)), drop (ed_cursor ed) (ed_line ed))"

fun zipper_step :: "editor_event \<Rightarrow> zipper \<Rightarrow> zipper" where
  "zipper_step (InsertByte b) (l, r) = (b # l, r)"
| "zipper_step Backspace (l, r) = (tl l, r)"
| "zipper_step Delete (l, r) = (l, tl r)"
| "zipper_step MoveLeft (l, r) = (case l of [] \<Rightarrow> (l, r) | b # l' \<Rightarrow> (l', b # r))"
| "zipper_step MoveRight (l, r) = (case r of [] \<Rightarrow> (l, r) | b # r' \<Rightarrow> (b # l, r'))"
| "zipper_step MoveHome (l, r) = ([], rev l @ r)"
| "zipper_step MoveEnd (l, r) = (rev r @ l, [])"
| "zipper_step _ (l, r) = (l, r)"

lemma zipper_left:
  assumes "0 < i" and "i \<le> length xs"
  shows "rev (take i xs) = xs ! (i - 1) # rev (take (i - 1) xs)" and "drop (i - 1) xs = xs ! (i - 1) # drop i xs"
  using assms take_Suc_conv_app_nth [of "i - 1" xs] Cons_nth_drop_Suc [of "i - 1" xs] by simp_all

lemma zipper_right:
  assumes "i < length xs"
  shows "rev (take (Suc i) xs) = xs ! i # rev (take i xs)" and "drop i xs = xs ! i # drop (Suc i) xs"
  using assms take_Suc_conv_app_nth [of i xs] Cons_nth_drop_Suc [of i xs] by simp_all

lemma zipper_cursor0: "wf_editor ed \<Longrightarrow> rev (take (ed_cursor ed) (ed_line ed)) = [] \<longleftrightarrow> ed_cursor ed = 0"
  by (auto simp: wf_editor_def)

text \<open>C35. The editor refines two stacks of bytes around the cursor: every key that is not a walk through the history does to
  the line what the corresponding push or pop does to the stacks, at every cursor position, and never panics.\<close>

theorem editor_refines_zipper:
  assumes "wf_editor ed" and "ev \<notin> {HistoryUp, HistoryDown}" and "wf_history h"
  shows "\<exists>eff ed' h'. editor_apply ev ed h = Some (eff, ed', h') \<and> zipper_of ed' = zipper_step ev (zipper_of ed) \<and> wf_editor ed'"
proof -
  obtain eff ed' h' where run: "editor_apply ev ed h = Some (eff, ed', h')" "wf_editor ed'"
    using editor_apply_progress [OF assms(1,3)] by blast
  let ?i = "ed_cursor ed" and ?xs = "ed_line ed"
  have i: "?i \<le> length ?xs" using assms(1) by (simp add: wf_editor_def)
  have "zipper_of ed' = zipper_step ev (zipper_of ed)"
  proof (cases ev)
    case (InsertByte b)
    then show ?thesis using run i by (auto simp: zipper_of_def vec_insert_def)
  next
    case Backspace
    show ?thesis
    proof (cases "?i = 0")
      case False
      then have "ed' = ed\<lparr>ed_line := take (?i - 1) ?xs @ drop ?i ?xs, ed_cursor := ?i - 1\<rparr>"
        using Backspace run(1) i by (auto simp: vec_remove_def split: if_splits)
      then show ?thesis using Backspace False i zipper_left [of ?i ?xs] by (simp add: zipper_of_def)
    qed (use Backspace run in \<open>auto simp: zipper_of_def\<close>)
  next
    case Delete
    then show ?thesis using run i by (auto simp: zipper_of_def vec_remove_def tl_drop drop_Suc split: if_splits)
  next
    case MoveLeft
    then show ?thesis using run i zipper_left [of ?i ?xs] by (cases "?i = 0") (auto simp: zipper_of_def)
  next
    case MoveRight
    then show ?thesis using run i zipper_right [of ?i ?xs] by (cases "?i < length ?xs") (auto simp: zipper_of_def)
  next
    case MoveEnd
    then show ?thesis using run by (auto simp: zipper_of_def simp flip: rev_append)
  qed (use run assms(2) in \<open>auto simp: zipper_of_def\<close>)
  then show ?thesis using run by blast
qed

theorem editor_refines_zipper_witness:
  "\<exists>eff ed' h'. editor_apply Backspace \<lparr>ed_line = [0x61, 0x62, 0x63], ed_cursor = 2, ed_mode = PromptMode\<rparr> sample_history = Some (eff, ed', h')
     \<and> zipper_of ed' = ([0x61], [0x63])"
proof -
  let ?ed = "\<lparr>ed_line = [0x61, 0x62, 0x63], ed_cursor = 2, ed_mode = PromptMode\<rparr>"
  have "wf_editor ?ed" "wf_history sample_history" "zipper_step Backspace (zipper_of ?ed) = ([0x61], [0x63])"
    by (simp_all add: wf_editor_def zipper_of_def wf_history_def sample_history_def MAX_HISTORY_ENTRIES_def)
  then show ?thesis using editor_refines_zipper [of ?ed Backspace sample_history] by force
qed

end
