(* ===== verification/Local_Command.thy ===== *)
theory Local_Command
  imports Line_Editor
begin

text \<open>
  The commands of the local prompt and of escape lines: \<^verbatim>\<open>parse_local_command\<close> of
  \<^verbatim>\<open>src/cli/src/commands/connect/prompt.rs\<close> and \<^verbatim>\<open>parse_escape\<close> of \<^verbatim>\<open>input/actions.rs\<close>.  The word splitter of the
  library \<^verbatim>\<open>shell_words\<close> is the argument \<open>split\<close>; \<open>None\<close> is its error.
\<close>

datatype local_command =
    CmdHelp
  | CmdLpwd
  | CmdLls "string option"
  | CmdLcd string
  | CmdPaths
  | CmdExit
  | CmdDisconnect
  | CmdClear
  | CmdPut string "string option" bool
  | CmdGet string "string option" bool
  | CmdUsageError string
  | CmdUnknown string

type_synonym splitter = "string \<Rightarrow> string list option"

definition nth_arg :: "nat \<Rightarrow> string list \<Rightarrow> string option" where
  "nth_arg i args = (if i < length args then Some (args ! i) else None)"

definition is_recursive_flag :: "string \<Rightarrow> bool" where
  "is_recursive_flag arg \<longleftrightarrow> arg = ''-r'' \<or> arg = ''--recursive''"

text \<open>The two transfer commands: flags anywhere, then one or two paths.\<close>

definition transfer_args :: "(string \<Rightarrow> string option \<Rightarrow> bool \<Rightarrow> local_command) \<Rightarrow> string \<Rightarrow> string list \<Rightarrow> local_command" where
  "transfer_args cmd usage rest =
     (let args = filter (\<lambda>a. \<not> is_recursive_flag a) rest in
      case args of
        [] \<Rightarrow> CmdUsageError usage
      | a # _ \<Rightarrow> cmd a (nth_arg 1 args) (list_ex is_recursive_flag rest))"

definition keyword_command :: "string \<Rightarrow> string list \<Rightarrow> local_command" where
  "keyword_command keyword parts =
     (if keyword \<in> {''help'', ''?'', ''~?'', ''~help''} then CmdHelp
      else if keyword \<in> {''lpwd'', ''pwd'', ''~lpwd'', ''~pwd''} then CmdLpwd
      else if keyword \<in> {''lls'', ''ls'', ''~lls'', ''~ls''} then CmdLls (nth_arg 1 parts)
      else if keyword \<in> {''lcd'', ''cd'', ''~lcd'', ''~cd''} then
        (case nth_arg 1 parts of
           Some p \<Rightarrow> CmdLcd p
         | None \<Rightarrow> CmdUsageError ''lcd: missing directory path. Usage: lcd <path>'')
      else if keyword = ''paths'' then CmdPaths
      else if keyword \<in> {''exit'', ''~exit''} then CmdExit
      else if keyword \<in> {''disconnect'', ''~disconnect''} then CmdDisconnect
      else if keyword \<in> {''clear'', ''cls'', ''~clear'', ''~cls''} then CmdClear
      else if keyword \<in> {''put'', ''~put''} then
        transfer_args CmdPut ''put: missing local path. Usage: put [-r] <local> [remote]'' (tl parts)
      else if keyword \<in> {''get'', ''~get''} then
        transfer_args CmdGet ''get: missing remote path. Usage: get [-r] <remote> [local]'' (tl parts)
      else CmdUnknown keyword)"

definition parse_local_command :: "splitter \<Rightarrow> bytes \<Rightarrow> local_command option" where
  "parse_local_command split buf =
     (let trimmed = trim (lossy buf) in
      if trimmed = [] then None
      else case split trimmed of
        None \<Rightarrow> None
      | Some [] \<Rightarrow> None
      | Some (keyword # rest) \<Rightarrow> Some (keyword_command keyword (keyword # rest)))"

datatype escape_action =
    ActDisconnect
  | ActCommandPrompt
  | ActHelp
  | ActSendLiteral bytes
  | ActRunLocal local_command
  | ActRequestCompletion

definition is_ascii_whitespace :: "u8 \<Rightarrow> bool" where
  "is_ascii_whitespace b \<longleftrightarrow> b = 0x20 \<or> b = 0x09 \<or> b = 0x0A \<or> b = 0x0C \<or> b = 0x0D"

definition trim_bytes :: "bytes \<Rightarrow> bytes" where
  "trim_bytes s = rev (dropWhile is_ascii_whitespace (rev (dropWhile is_ascii_whitespace s)))"

definition strip_tilde :: "bytes \<Rightarrow> bytes" where
  "strip_tilde buf = (if buf \<noteq> [] \<and> hd buf = 0x7E then tl buf else buf)"

definition parse_escape :: "splitter \<Rightarrow> bytes \<Rightarrow> escape_action option" where
  "parse_escape split buf =
     (let cmd = trim_bytes (strip_tilde buf) in
      if cmd = as_bytes ''.'' then Some ActDisconnect
      else if cmd = as_bytes ''?'' \<or> cmd = as_bytes ''help'' then Some ActHelp
      else if cmd = as_bytes ''C'' \<or> cmd = as_bytes ''c'' then Some ActCommandPrompt
      else if cmd = [0x7E] then Some (ActSendLiteral [0x7E])
      else map_option ActRunLocal (parse_local_command split cmd))"

definition paired_enter_byte :: "u8 \<Rightarrow> u8 option" where
  "paired_enter_byte b = (if b = 0x0D then Some 0x0A else if b = 0x0A then Some 0x0D else None)"

section \<open>Lemmas\<close>

text \<open>A command that the splitter can split is always an action: an unknown word is one too.\<close>

lemma parse_escape_None:
  "parse_escape split buf = None \<Longrightarrow>
   trim (lossy (trim_bytes (strip_tilde buf))) = [] \<or>
   (\<forall>w ws. split (trim (lossy (trim_bytes (strip_tilde buf)))) \<noteq> Some (w # ws))"
  by (auto simp: parse_escape_def parse_local_command_def Let_def split: if_splits option.splits list.splits)

end
