(* ===== verification/Input_Engine.thy ===== *)
theory Input_Engine
  imports Local_Command Server_Context
begin

text \<open>
  The input engine of an interactive session: \<^verbatim>\<open>src/cli/src/commands/connect/input/engine.rs\<close>.  It decides byte by byte
  whether what is typed goes to the remote host or to a local line, and draws the local line.  The disk, to which
  submitted lines are appended, is a field of the engine.  The result \<open>None\<close> is a panic.  \<open>local_line_len\<close> is a natural
  number: its 64 bits are not exhausted by typing.
\<close>

datatype input_mode = Remote | LocalEdit

datatype control_sequence_state = CtlNone | CtlEscape | CtlCsi

datatype remote_ansi_state = AnsiNone | AfterEsc | InCsi | InOsc | InOscEsc

record line_session =
  editor :: line_editor
  display_cursor :: nat
  control_state :: control_sequence_state

record input_engine =
  in_mode :: input_mode
  at_start_of_line :: bool
  local_line_len :: nat
  active_line :: "line_session option"
  escape_history :: command_history
  prompt_history :: command_history
  swallow_next_enter_pair :: "u8 option"
  remote_ansi :: remote_ansi_state
  remote_is_windows :: bool
  engine_disk :: disk

record outputs =
  to_remote :: bytes
  to_local :: bytes
  actions :: "escape_action list"

definition no_outputs :: outputs where
  "no_outputs = \<lparr>to_remote = [], to_local = [], actions = []\<rparr>"

definition engine_new :: "disk \<Rightarrow> path \<Rightarrow> bool \<Rightarrow> input_engine" where
  "engine_new d state_root windows =
     (let history_dir = state_root @ [Normal ''history''] in
      \<lparr>in_mode = Remote, at_start_of_line = True, local_line_len = 0, active_line = None,
       escape_history = history_new d (Some (history_dir @ [Normal ''escape.history''])),
       prompt_history = history_new d (Some (history_dir @ [Normal ''prompt.history''])),
       swallow_next_enter_pair = None, remote_ansi = AnsiNone, remote_is_windows = windows, engine_disk = d\<rparr>)"

definition emit :: "bytes \<Rightarrow> outputs \<Rightarrow> outputs" where
  "emit bs out = out\<lparr>to_local := to_local out @ bs\<rparr>"

definition forward :: "bytes \<Rightarrow> outputs \<Rightarrow> outputs" where
  "forward bs out = out\<lparr>to_remote := to_remote out @ bs\<rparr>"

definition act :: "escape_action \<Rightarrow> outputs \<Rightarrow> outputs" where
  "act a out = out\<lparr>actions := actions out @ [a]\<rparr>"

section \<open>The remote side\<close>

fun observe_remote :: "bytes \<Rightarrow> input_engine \<Rightarrow> input_engine" where
  "observe_remote [] e = e"
| "observe_remote (b # bs) e =
     observe_remote bs (if b = 0x0A then e\<lparr>at_start_of_line := True, local_line_len := 0\<rparr> else e)"

definition in_params :: "u8 \<Rightarrow> bool" where
  "in_params b \<longleftrightarrow> 0x20 \<le> b \<and> b \<le> 0x3F"

definition track_remote_byte :: "u8 \<Rightarrow> input_engine \<Rightarrow> input_engine" where
  "track_remote_byte b e =
     (case remote_ansi e of
        AnsiNone \<Rightarrow>
          if b = 0x0D \<or> b = 0x0A then e\<lparr>at_start_of_line := True, local_line_len := 0\<rparr>
          else if b = 0x1B then e\<lparr>remote_ansi := AfterEsc\<rparr>
          else if b = 8 \<or> b = 127 then e\<lparr>local_line_len := local_line_len e - 1\<rparr>
          else e\<lparr>at_start_of_line := False, local_line_len := local_line_len e + 1\<rparr>
      | AfterEsc \<Rightarrow> e\<lparr>remote_ansi := (if b = 0x5B then InCsi else if b = 0x5D then InOsc else AnsiNone)\<rparr>
      | InCsi \<Rightarrow> if in_params b then e else e\<lparr>remote_ansi := AnsiNone\<rparr>
      | InOsc \<Rightarrow>
          if b = 0x07 then e\<lparr>remote_ansi := AnsiNone\<rparr>
          else if b = 0x1B then e\<lparr>remote_ansi := InOscEsc\<rparr> else e
      | InOscEsc \<Rightarrow> e\<lparr>remote_ansi := AnsiNone\<rparr>)"

definition handle_remote_byte :: "u8 \<Rightarrow> input_engine \<times> outputs \<Rightarrow> input_engine \<times> outputs" where
  "handle_remote_byte b eo = (track_remote_byte b (fst eo), forward [b] (snd eo))"

section \<open>Drawing\<close>

definition cursor_move :: "nat \<Rightarrow> string \<Rightarrow> bytes" where
  "cursor_move n final = (if 0 < n then [0x1B, 0x5B] @ as_bytes (nat_str n @ final) else [])"

definition render_line :: "line_session \<Rightarrow> outputs \<Rightarrow> line_session \<times> outputs" where
  "render_line line out =
     (let ed = editor line;
          prompt = (if ed_mode ed = PromptMode then as_bytes ''irosh> '' else []);
          tail_len = length (ed_line ed) - ed_cursor ed
      in (line\<lparr>display_cursor := ed_cursor ed\<rparr>,
          emit ([0x0D] @ prompt @ [0x1B, 0x5B, 0x4B] @ ed_line ed @ cursor_move tail_len ''D'') out))"

definition echo_escape_line :: "line_session \<Rightarrow> outputs \<Rightarrow> outputs" where
  "echo_escape_line line out =
     (if ed_line (editor line) = [] then out else emit [last (ed_line (editor line))] out)"

definition clear_line_preview :: "line_session \<Rightarrow> nat \<Rightarrow> outputs \<Rightarrow> outputs" where
  "clear_line_preview line chars_on_screen out =
     (if ed_mode (editor line) = EscapeMode
      then emit (concat (replicate (max chars_on_screen 1) [0x08, 0x20, 0x08])) out
      else emit [0x0D, 0x1B, 0x5B, 0x4B] out)"

text \<open>\<^verbatim>\<open>finalize_submitted_line\<close> and \<^verbatim>\<open>finalize_exit_line\<close>, which do the same.\<close>

definition finalize_submitted_line :: "line_session \<Rightarrow> outputs \<Rightarrow> line_session \<times> outputs" where
  "finalize_submitted_line line out =
     (let tail_len = length (ed_line (editor line)) - display_cursor line
      in (line\<lparr>display_cursor := 0\<rparr>, emit (cursor_move tail_len ''C'' @ [0x0D, 0x0A]) out))"

section \<open>The local side\<close>

definition exit_local_prompt :: "input_engine \<times> outputs \<Rightarrow> input_engine \<times> outputs" where
  "exit_local_prompt eo =
     ((fst eo)\<lparr>in_mode := Remote, at_start_of_line := True, local_line_len := 0, active_line := None\<rparr>,
      forward [0x0D] (snd eo))"

definition consume_local_ansi :: "control_sequence_state \<Rightarrow> u8 \<Rightarrow> control_sequence_state \<times> editor_event option" where
  "consume_local_ansi state b =
     (case state of
        CtlEscape \<Rightarrow> if b = 0x5B then (CtlCsi, None) else (CtlNone, None)
      | CtlCsi \<Rightarrow>
          if in_params b then (CtlCsi, None)
          else (CtlNone,
            (if b = 0x41 then Some HistoryUp
             else if b = 0x42 then Some HistoryDown
             else if b = 0x43 then Some MoveRight
             else if b = 0x44 then Some MoveLeft
             else if b = 0x48 then Some MoveHome
             else if b = 0x46 then Some MoveEnd
             else if b = 0x7E then Some Delete
             else None))
      | CtlNone \<Rightarrow> (CtlNone, None))"

definition fresh_prompt :: "line_session \<Rightarrow> line_session" where
  "fresh_prompt line = line\<lparr>editor := new_prompt, display_cursor := 0, control_state := CtlNone\<rparr>"

type_synonym engine_state = "input_engine \<times> line_session \<times> outputs"

definition add_escape_history :: "bytes \<Rightarrow> input_engine \<Rightarrow> input_engine" where
  "add_escape_history bs e =
     (case history_add (lossy bs) (escape_history e, engine_disk e) of
        (h, d) \<Rightarrow> e\<lparr>escape_history := h, engine_disk := d\<rparr>)"

definition add_prompt_history :: "bytes \<Rightarrow> input_engine \<Rightarrow> input_engine" where
  "add_prompt_history bs e =
     (case history_add (lossy bs) (prompt_history e, engine_disk e) of
        (h, d) \<Rightarrow> e\<lparr>prompt_history := h, engine_disk := d\<rparr>)"

definition submit_escape :: "splitter \<Rightarrow> bytes \<Rightarrow> engine_state \<Rightarrow> engine_state" where
  "submit_escape split bs st =
     (case st of (e0, line0, out0) \<Rightarrow>
        let e = add_escape_history bs e0; (line, out) = finalize_submitted_line line0 out0 in
        case parse_escape split bs of
          Some ActCommandPrompt \<Rightarrow>
            (e\<lparr>in_mode := LocalEdit, at_start_of_line := True, local_line_len := 0\<rparr>, fresh_prompt line,
             act ActCommandPrompt (emit (as_bytes ''irosh> '') out))
        | Some (ActSendLiteral payload) \<Rightarrow>
            (e\<lparr>in_mode := Remote, at_start_of_line := False, local_line_len := 1, active_line := None\<rparr>, line,
             act (ActSendLiteral payload) out)
        | Some a \<Rightarrow> (case exit_local_prompt (e, out) of (e1, out1) \<Rightarrow> (e1, line, act a out1))
        | None \<Rightarrow>
            (case exit_local_prompt (e, out) of (e1, out1) \<Rightarrow> (e1, line, forward ([0x7E] @ bs @ [0x0D]) out1)))"

definition submit_prompt :: "splitter \<Rightarrow> bytes \<Rightarrow> engine_state \<Rightarrow> engine_state" where
  "submit_prompt split bs st =
     (case st of (e0, line0, out0) \<Rightarrow>
        let e = add_prompt_history bs e0; (line, out) = finalize_submitted_line line0 out0 in
        case parse_local_command split bs of
          None \<Rightarrow> (e, fresh_prompt line, emit (as_bytes (CHR 0x0D # CHR 0x0A # ''irosh> '')) out)
        | Some a \<Rightarrow>
            if a = CmdExit \<or> a = CmdDisconnect
            then (case exit_local_prompt (e, out) of (e1, out1) \<Rightarrow> (e1, line, act (ActRunLocal a) out1))
            else (e, fresh_prompt line, act (ActRunLocal a) out))"

definition history_for :: "line_session \<Rightarrow> input_engine \<Rightarrow> command_history" where
  "history_for line e = (if ed_mode (editor line) = EscapeMode then escape_history e else prompt_history e)"

definition set_history_for :: "line_session \<Rightarrow> command_history \<Rightarrow> input_engine \<Rightarrow> input_engine" where
  "set_history_for line h e =
     (if ed_mode (editor line) = EscapeMode then e\<lparr>escape_history := h\<rparr> else e\<lparr>prompt_history := h\<rparr>)"

definition apply_editor_event :: "splitter \<Rightarrow> editor_event \<Rightarrow> engine_state \<Rightarrow> engine_state option" where
  "apply_editor_event split ev st =
     (case st of (e0, line0, out) \<Rightarrow>
        case editor_apply ev (editor line0) (history_for line0 e0) of
          None \<Rightarrow> None
        | Some (eff, ed, h) \<Rightarrow>
            let e = set_history_for line0 h e0; line = line0\<lparr>editor := ed\<rparr> in
            Some (case eff of
                NoOp \<Rightarrow> (e, line, out)
              | Render \<Rightarrow>
                  if ed_mode (editor line0) = EscapeMode then (e, line, echo_escape_line line out)
                  else (case render_line line out of (line1, out1) \<Rightarrow> (e, line1, out1))
              | ClearAndExit \<Rightarrow>
                  (case exit_local_prompt (e, clear_line_preview line (length (ed_line ed)) out) of
                     (e1, out1) \<Rightarrow> (e1, line, out1))
              | RequestCompletion \<Rightarrow> (e, line, act ActRequestCompletion out)
              | SubmitEscape bs \<Rightarrow> submit_escape split bs (e, line, out)
              | SubmitPrompt bs \<Rightarrow> submit_prompt split bs (e, line, out)))"

text \<open>What a byte typed into a local line means; the interrupt key is handled by the loop.\<close>

definition key_event :: "u8 \<Rightarrow> input_engine \<Rightarrow> line_session \<Rightarrow> editor_event option \<times> input_engine \<times> line_session" where
  "key_event b e line =
     (if control_state line \<noteq> CtlNone then
        (case consume_local_ansi (control_state line) b of (c, ev) \<Rightarrow> (ev, e, line\<lparr>control_state := c\<rparr>))
      else if b = 27 then (None, e, line\<lparr>control_state := CtlEscape\<rparr>)
      else if b = 8 \<or> b = 127 then (Some Backspace, e, line)
      else if b = 0x0D \<or> b = 0x0A then
        (Some Submit,
         e\<lparr>swallow_next_enter_pair := paired_enter_byte b, at_start_of_line := True, local_line_len := 0\<rparr>, line)
      else if b = 0x09 then (Some Tab, e, line)
      else if 0x21 \<le> b \<and> b \<le> 0x7E \<or> b = 0x20 then (Some (InsertByte b), e, line)
      else (None, e, line))"

fun local_loop :: "splitter \<Rightarrow> bytes \<Rightarrow> input_engine \<times> outputs \<Rightarrow> (input_engine \<times> outputs) option" where
  "local_loop split [] eo = Some eo"
| "local_loop split (b # bs) (e0, out) =
     (case active_line e0 of
        None \<Rightarrow> Some (e0\<lparr>in_mode := Remote\<rparr>, out)
      | Some line0 \<Rightarrow>
          let e = e0\<lparr>active_line := None\<rparr> in
          if control_state line0 = CtlNone \<and> b = 0x03
          then Some (exit_local_prompt (e, emit (as_bytes (''^C'' @ [CHR 0x0D, CHR 0x0A])) out))
          else (case key_event b e line0 of (ev, e1, line1) \<Rightarrow>
            (case (case ev of None \<Rightarrow> Some (e1, line1, out) | Some k \<Rightarrow> apply_editor_event split k (e1, line1, out)) of
               None \<Rightarrow> None
             | Some (e2, line2, out2) \<Rightarrow>
                 local_loop split bs
                   ((if in_mode e2 = LocalEdit then e2\<lparr>active_line := Some line2\<rparr> else e2), out2))))"

definition escape_session :: line_session where
  "escape_session = \<lparr>editor = new_escape, display_cursor = 0, control_state = CtlNone\<rparr>"

fun remote_loop :: "splitter \<Rightarrow> bytes \<Rightarrow> input_engine \<times> outputs \<Rightarrow> (input_engine \<times> outputs) option" where
  "remote_loop split [] eo = Some eo"
| "remote_loop split (b # bs) (e0, out) =
     (if swallow_next_enter_pair e0 = Some b
      then remote_loop split bs (e0\<lparr>swallow_next_enter_pair := None\<rparr>, out)
      else
        let e = e0\<lparr>swallow_next_enter_pair := None\<rparr> in
        if local_line_len e = 0 \<and> b = 0x7E
        then local_loop split bs (e\<lparr>in_mode := LocalEdit, active_line := Some escape_session\<rparr>, emit [0x7E] out)
        else remote_loop split bs (handle_remote_byte b (e, out)))"

definition process_local :: "splitter \<Rightarrow> bytes \<Rightarrow> input_engine \<Rightarrow> (input_engine \<times> outputs) option" where
  "process_local split data e =
     (if in_mode e = Remote then remote_loop split data (e, no_outputs) else local_loop split data (e, no_outputs))"

text \<open>What the completion of a line may answer, and its effect.\<close>

datatype completion_result = Applied bytes nat | Suggestions "string list" | NoCompletion

definition complete_active_line ::
  "(line_session \<Rightarrow> completion_result) \<Rightarrow> input_engine \<Rightarrow> input_engine \<times> outputs" where
  "complete_active_line complete e =
     (case active_line e of
        None \<Rightarrow> (e, no_outputs)
      | Some line \<Rightarrow>
          let escape = ed_mode (editor line) = EscapeMode;
              (line1, out) =
                (case complete line of
                   Applied l c \<Rightarrow>
                     let line' = line\<lparr>editor := replace_line l c (editor line)\<rparr> in
                     if escape then (line', echo_escape_line line' no_outputs) else render_line line' no_outputs
                 | Suggestions ms \<Rightarrow>
                     let out1 = emit ([0x0D, 0x0A] @ join_with [0x20, 0x20] (map as_bytes ms) @ [0x0D, 0x0A]) no_outputs in
                     if escape then (line, echo_escape_line line out1)
                     else render_line line (emit (as_bytes ''irosh> '') out1)
                 | NoCompletion \<Rightarrow> (line, no_outputs))
          in (e\<lparr>active_line := Some line1\<rparr>, out))"

definition handle_resize :: "input_engine \<Rightarrow> input_engine \<times> outputs option" where
  "handle_resize e =
     (case active_line e of
        None \<Rightarrow> (e, None)
      | Some line \<Rightarrow> (case render_line line no_outputs of (line1, out) \<Rightarrow> (e\<lparr>active_line := Some line1\<rparr>, Some out)))"

end
