(* ===== verification/Input_Safety.thy ===== *)
theory Input_Safety
  imports Input_Engine
begin

text \<open>
  What the input engine guarantees: it never panics, it is transparent while no escape is typed, and nothing typed at the
  local prompt reaches the remote host.
\<close>

section \<open>Progress and preservation\<close>

definition wf_histories :: "input_engine \<Rightarrow> bool" where
  "wf_histories e \<longleftrightarrow> wf_history (escape_history e) \<and> wf_history (prompt_history e)"

definition wf_engine :: "input_engine \<Rightarrow> bool" where
  "wf_engine e \<longleftrightarrow>
     wf_histories e \<and>
     (case active_line e of
        None \<Rightarrow> in_mode e = Remote
      | Some line \<Rightarrow> in_mode e = LocalEdit \<and> wf_editor (editor line))"

lemma wf_engine_new: "wf_engine (engine_new d state_root windows)"
  by (simp add: wf_engine_def wf_histories_def engine_new_def Let_def)

lemma add_history_fields [simp]:
  "wf_histories e \<Longrightarrow> wf_histories (add_escape_history bs e)" "wf_histories e \<Longrightarrow> wf_histories (add_prompt_history bs e)"
  "active_line (add_escape_history bs e) = active_line e" "active_line (add_prompt_history bs e) = active_line e"
  "in_mode (add_escape_history bs e) = in_mode e" "in_mode (add_prompt_history bs e) = in_mode e"
  using wf_history_add [of "escape_history e" "lossy bs" "engine_disk e"] wf_history_add [of "prompt_history e" "lossy bs" "engine_disk e"]
  by (auto simp: wf_histories_def add_escape_history_def add_prompt_history_def split_def)

lemma finalize_editor [simp]: "editor (fst (finalize_submitted_line line out)) = editor line"
  by (simp add: finalize_submitted_line_def Let_def)

lemma fresh_prompt_editor [simp]: "editor (fresh_prompt line) = new_prompt"
  by (simp add: fresh_prompt_def)

lemma render_editor [simp]: "editor (fst (render_line line out)) = editor line"
  by (simp add: render_line_def Let_def)

text \<open>A state inside the loop: the line is taken out of the engine, which is in the local mode.\<close>

definition wf_state :: "engine_state \<Rightarrow> bool" where
  "wf_state st \<longleftrightarrow>
     (case st of (e, line, out) \<Rightarrow> wf_histories e \<and> active_line e = None \<and> wf_editor (editor line))"

lemma wf_histories_exit [simp]: "wf_histories (fst (exit_local_prompt eo)) = wf_histories (fst eo)"
  "active_line (fst (exit_local_prompt eo)) = None" "in_mode (fst (exit_local_prompt eo)) = Remote"
  by (simp_all add: wf_histories_def exit_local_prompt_def)

lemma wf_histories_update [simp]:
  "wf_histories (e\<lparr>in_mode := m\<rparr>) = wf_histories e" "wf_histories (e\<lparr>at_start_of_line := b\<rparr>) = wf_histories e"
  "wf_histories (e\<lparr>local_line_len := n\<rparr>) = wf_histories e" "wf_histories (e\<lparr>active_line := l\<rparr>) = wf_histories e"
  "wf_histories (e\<lparr>swallow_next_enter_pair := p\<rparr>) = wf_histories e" "wf_histories (e\<lparr>remote_ansi := a\<rparr>) = wf_histories e"
  by (simp_all add: wf_histories_def)

lemma submit_escape_wf:
  assumes "wf_state (e, line, out)"
  shows "wf_state (submit_escape split bs (e, line, out))"
proof -
  obtain line1 out1 where f: "finalize_submitted_line line out = (line1, out1)" by (rule prod.exhaust)
  have line1: "editor line1 = editor line" using finalize_editor [of line out] f by simp
  obtain e2 out2 where x: "exit_local_prompt (add_escape_history bs e, out1) = (e2, out2)" by (rule prod.exhaust)
  have "wf_histories e2" "active_line e2 = None"
    using wf_histories_exit [of "(add_escape_history bs e, out1)"] x assms by (simp_all add: wf_state_def)
  then show ?thesis
    using assms line1 by (auto simp: submit_escape_def f x wf_state_def Let_def split: option.splits escape_action.splits)
qed

lemma submit_prompt_wf:
  assumes "wf_state (e, line, out)"
  shows "wf_state (submit_prompt split bs (e, line, out))"
proof -
  obtain line1 out1 where f: "finalize_submitted_line line out = (line1, out1)" by (rule prod.exhaust)
  have line1: "editor line1 = editor line" using finalize_editor [of line out] f by simp
  obtain e2 out2 where x: "exit_local_prompt (add_prompt_history bs e, out1) = (e2, out2)" by (rule prod.exhaust)
  have "wf_histories e2" "active_line e2 = None"
    using wf_histories_exit [of "(add_prompt_history bs e, out1)"] x assms by (simp_all add: wf_state_def)
  then show ?thesis
    using assms line1 by (auto simp: submit_prompt_def f x wf_state_def Let_def split: option.splits)
qed

lemma history_for_wf: "wf_histories e \<Longrightarrow> wf_history (history_for line e)"
  by (simp add: history_for_def wf_histories_def)

lemma set_history_for_wf [simp]: "wf_histories e \<Longrightarrow> wf_history h \<Longrightarrow> wf_histories (set_history_for line h e)"
  "active_line (set_history_for line h e) = active_line e" "in_mode (set_history_for line h e) = in_mode e"
  by (simp_all add: set_history_for_def wf_histories_def)

lemma apply_event_progress:
  assumes wf: "wf_state (e, line, out)"
  shows "\<exists>st. apply_editor_event split ev (e, line, out) = Some st \<and> wf_state st"
proof -
  obtain eff ed h where ap: "editor_apply ev (editor line) (history_for line e) = Some (eff, ed, h)"
    and "wf_editor ed" "wf_history h"
    using editor_apply_progress [of "editor line" "history_for line e" ev] wf history_for_wf by (auto simp: wf_state_def)
  then have wf1: "wf_state (set_history_for line h e, line\<lparr>editor := ed\<rparr>, out')" for out'
    using wf by (simp add: wf_state_def)
  obtain line2 out2 where r: "render_line (line\<lparr>editor := ed\<rparr>) out = (line2, out2)" by (rule prod.exhaust)
  have line2: "editor line2 = ed" using render_editor [of "line\<lparr>editor := ed\<rparr>" out] r by simp
  have exit: "wf_state (fst (exit_local_prompt (set_history_for line h e, o')), line\<lparr>editor := ed\<rparr>, out')" for o' out'
    using wf1 by (simp add: wf_state_def)
  show ?thesis
  proof (cases eff)
    case ClearAndExit
    then show ?thesis using ap exit by (simp add: apply_editor_event_def Let_def split_def)
  next
    case Render
    then show ?thesis using ap wf1 line2 by (simp add: apply_editor_event_def Let_def r wf_state_def)
  qed (use ap wf1 in \<open>simp_all add: apply_editor_event_def Let_def submit_escape_wf submit_prompt_wf\<close>)
qed

lemma key_event_wf:
  assumes "wf_histories e" and "active_line e = None" and "wf_editor (editor line)" and "key_event b e line = (ev, e1, line1)"
  shows "wf_state (e1, line1, out) \<and> in_mode e1 = in_mode e"
  using assms by (auto simp: key_event_def wf_state_def split: if_splits prod.splits)

lemma local_loop_progress:
  "wf_engine e \<Longrightarrow> \<exists>e' out'. local_loop split bs (e, out) = Some (e', out') \<and> wf_engine e'"
proof (induction bs arbitrary: e out)
  case (Cons b bs)
  show ?case
  proof (cases "active_line e")
    case None
    then show ?thesis using Cons.prems by (simp add: wf_engine_def)
  next
    case (Some line)
    let ?e = "e\<lparr>active_line := None\<rparr>"
    have wf: "wf_histories ?e" "wf_editor (editor line)" using Cons.prems Some by (simp_all add: wf_engine_def)
    obtain ev e1 line1 where key: "key_event b ?e line = (ev, e1, line1)" by (rule prod_cases3)
    have st: "wf_state (e1, line1, out)" using key_event_wf [OF wf(1) _ wf(2) key] by simp
    obtain e2 line2 out2 where ap:
      "(case ev of None \<Rightarrow> Some (e1, line1, out) | Some k \<Rightarrow> apply_editor_event split k (e1, line1, out)) = Some (e2, line2, out2)"
      and wf2: "wf_state (e2, line2, out2)"
      using st apply_event_progress [OF st, of split] by (cases ev) (auto, metis prod_cases3)
    let ?e2 = "if in_mode e2 = LocalEdit then e2\<lparr>active_line := Some line2\<rparr> else e2"
    have "wf_engine ?e2" using wf2 by (cases "in_mode e2") (auto simp: wf_engine_def wf_state_def)
    then have "\<exists>e' out'. local_loop split bs (?e2, out2) = Some (e', out') \<and> wf_engine e'" by (rule Cons.IH)
    moreover have "wf_engine (fst (exit_local_prompt (?e, out')))" for out' using wf by (simp add: wf_engine_def)
    ultimately show ?thesis
      using Some key ap by (cases "exit_local_prompt (?e, emit (as_bytes (''^C'' @ [CHR 0x0D, CHR 0x0A])) out)") (auto simp: Let_def, metis fst_conv)
  qed
qed simp

lemma wf_engine_update [simp]:
  "wf_engine (e\<lparr>at_start_of_line := b\<rparr>) = wf_engine e" "wf_engine (e\<lparr>local_line_len := n\<rparr>) = wf_engine e"
  "wf_engine (e\<lparr>swallow_next_enter_pair := p\<rparr>) = wf_engine e" "wf_engine (e\<lparr>remote_ansi := a\<rparr>) = wf_engine e"
  by (auto simp: wf_engine_def split: option.splits)

lemma track_wf [simp]: "wf_engine (track_remote_byte b e) = wf_engine e" "in_mode (track_remote_byte b e) = in_mode e"
  "swallow_next_enter_pair (track_remote_byte b e) = swallow_next_enter_pair e"
  by (cases "remote_ansi e"; simp add: track_remote_byte_def)+

lemma remote_loop_progress:
  "wf_engine e \<Longrightarrow> \<exists>e' out'. remote_loop split bs (e, out) = Some (e', out') \<and> wf_engine e'"
proof (induction bs arbitrary: e out)
  case (Cons b bs)
  have sw: "wf_engine (e\<lparr>swallow_next_enter_pair := None\<rparr>)" using Cons.prems by simp
  have esc: "wf_engine (e\<lparr>swallow_next_enter_pair := None, in_mode := LocalEdit, active_line := Some escape_session\<rparr>)"
    using Cons.prems by (simp add: wf_engine_def escape_session_def)
  show ?case
    using Cons.IH [OF sw] Cons.IH [of "track_remote_byte b (e\<lparr>swallow_next_enter_pair := None\<rparr>)"] sw local_loop_progress [OF esc]
    by (simp add: Let_def handle_remote_byte_def)
qed simp

lemma process_local_progress:
  "wf_engine e \<Longrightarrow> \<exists>e' out. process_local split data e = Some (e', out) \<and> wf_engine e'"
  using remote_loop_progress [of e split data no_outputs] local_loop_progress [of e split data no_outputs]
  by (simp add: process_local_def)

datatype engine_call =
    Typed bytes
  | RemoteData bytes
  | CompletionDone "line_session \<Rightarrow> completion_result"
  | Resized

fun engine_step :: "splitter \<Rightarrow> engine_call \<Rightarrow> input_engine \<Rightarrow> input_engine option" where
  "engine_step split (Typed data) e = map_option fst (process_local split data e)"
| "engine_step split (RemoteData data) e = Some (observe_remote data e)"
| "engine_step split (CompletionDone c) e = Some (fst (complete_active_line c e))"
| "engine_step split Resized e = Some (fst (handle_resize e))"

fun engine_run :: "splitter \<Rightarrow> engine_call list \<Rightarrow> input_engine \<Rightarrow> input_engine option" where
  "engine_run split [] e = Some e"
| "engine_run split (c # cs) e = Option.bind (engine_step split c e) (engine_run split cs)"

lemma observe_wf [simp]: "wf_engine (observe_remote bs e) = wf_engine e"
  by (induction bs e rule: observe_remote.induct) auto

lemma wf_engine_set_line:
  "wf_engine e \<Longrightarrow> active_line e = Some line \<Longrightarrow> wf_editor (editor line') \<Longrightarrow> wf_engine (e\<lparr>active_line := Some line'\<rparr>)"
  by (simp add: wf_engine_def)

lemma resize_wf: "wf_engine e \<Longrightarrow> wf_engine (fst (handle_resize e))"
proof (cases "active_line e")
  case (Some line)
  moreover assume "wf_engine e"
  moreover have "wf_editor (editor line)" using calculation by (simp add: wf_engine_def)
  ultimately show ?thesis
    using wf_engine_set_line [of e line "fst (render_line line no_outputs)"] by (simp add: handle_resize_def split_def)
qed (simp add: handle_resize_def)

lemma complete_wf: "wf_engine e \<Longrightarrow> wf_engine (fst (complete_active_line c e))"
proof (cases "active_line e")
  case (Some line)
  moreover assume wf: "wf_engine e"
  moreover have "wf_editor (editor line)" using calculation by (simp add: wf_engine_def)
  moreover have "wf_engine (e\<lparr>active_line := Some line'\<rparr>)" if "wf_editor (editor line')" for line'
    using wf_engine_set_line [OF wf Some that] .
  ultimately show ?thesis
    by (cases "c line") (simp_all add: complete_active_line_def Let_def split_def)
qed (simp add: complete_active_line_def)

lemma engine_step_progress: "wf_engine e \<Longrightarrow> \<exists>e'. engine_step split c e = Some e' \<and> wf_engine e'"
  using process_local_progress [of e split] by (cases c) (fastforce simp: resize_wf complete_wf)+

text \<open>C21. The input engine never panics: from its start, under every sequence of typed buffers, remote data, completions and
  resizes, every step returns, the cursor stays within the line, the walk through a history stays within its entries, a
  history holds at most a thousand entries, and a line is open exactly in the local mode.\<close>

theorem engine_never_panics:
  "\<exists>e. engine_run split cs (engine_new d state_root windows) = Some e \<and> wf_engine e"
proof -
  have "wf_engine e \<Longrightarrow> \<exists>e'. engine_run split cs e = Some e' \<and> wf_engine e'" for e
  proof (induction cs arbitrary: e)
    case (Cons c cs)
    then show ?case using engine_step_progress [of e split c] by auto
  qed simp
  then show ?thesis using wf_engine_new by blast
qed

section \<open>Transparency\<close>

definition line_ender :: "u8 \<Rightarrow> bool" where
  "line_ender b \<longleftrightarrow> b = 0x0D \<or> b = 0x0A \<or> b = 8 \<or> b = 127"

lemma track_line_len: "0 < local_line_len e \<Longrightarrow> \<not> line_ender b \<Longrightarrow> 0 < local_line_len (track_remote_byte b e)"
  by (cases "remote_ansi e") (simp_all add: track_remote_byte_def line_ender_def)

lemma remote_loop_forwards:
  assumes "swallow_next_enter_pair e = None"
    and "0x7E \<notin> set bs \<or> 0 < local_line_len e \<and> list_all (\<lambda>b. \<not> line_ender b) bs"
  shows "\<exists>e'. remote_loop split bs (e, out) = Some (e', out\<lparr>to_remote := to_remote out @ bs\<rparr>) \<and> in_mode e' = in_mode e
     \<and> swallow_next_enter_pair e' = None"
  using assms
proof (induction bs arbitrary: e out)
  case (Cons b bs)
  have e: "e\<lparr>swallow_next_enter_pair := None\<rparr> = e" using Cons.prems(1) by simp
  have "\<not> (local_line_len e = 0 \<and> b = 0x7E)" using Cons.prems(2) by auto
  moreover have "0x7E \<notin> set bs \<or> 0 < local_line_len (track_remote_byte b e) \<and> list_all (\<lambda>b. \<not> line_ender b) bs"
    using Cons.prems(2) track_line_len [of e b] by auto
  ultimately show ?case
    using Cons.IH [of "track_remote_byte b e" "forward [b] out"] Cons.prems(1)
    by (auto simp: e Let_def handle_remote_byte_def forward_def)
qed simp

text \<open>The engine is transparent: while the user types to the remote host, a buffer without a tilde, or typed in the middle
  of a line, is forwarded byte for byte, nothing is drawn and no command runs.\<close>

theorem remote_input_is_transparent:
  assumes "in_mode e = Remote" and "swallow_next_enter_pair e = None"
    and "0x7E \<notin> set data \<or> 0 < local_line_len e \<and> list_all (\<lambda>b. \<not> line_ender b) data"
  shows "\<exists>e'. process_local split data e = Some (e', \<lparr>to_remote = data, to_local = [], actions = []\<rparr>) \<and> in_mode e' = Remote"
  using remote_loop_forwards [OF assms(2,3), of split no_outputs] assms(1) by (auto simp: process_local_def no_outputs_def)

theorem remote_input_is_transparent_witness:
  "\<exists>e'. process_local (\<lambda>s. Some [s]) [0x6C, 0x73, 0x0D] (engine_new sample_disk [RootDir] False) =
     Some (e', \<lparr>to_remote = [0x6C, 0x73, 0x0D], to_local = [], actions = []\<rparr>)"
  using remote_input_is_transparent [of "engine_new sample_disk [RootDir] False" "[0x6C, 0x73, 0x0D]" "\<lambda>s. Some [s]"]
  by (auto simp: engine_new_def Let_def)

section \<open>The local prompt\<close>

lemma to_remote_drawing [simp]:
  "to_remote (emit bs out) = to_remote out" "to_remote (act a out) = to_remote out"
  "to_remote (echo_escape_line line out) = to_remote out" "to_remote (clear_line_preview line n out) = to_remote out"
  "to_remote (snd (render_line line out)) = to_remote out" "to_remote (snd (finalize_submitted_line line out)) = to_remote out"
  "to_remote (snd (exit_local_prompt eo)) = to_remote (snd eo) @ [0x0D]"
  by (simp_all add: emit_def act_def echo_escape_line_def clear_line_preview_def render_line_def finalize_submitted_line_def
      exit_local_prompt_def forward_def Let_def)

text \<open>Still at the prompt with nothing sent, or back in the remote mode with one carriage return sent.\<close>

definition prompt_kept :: "bytes \<Rightarrow> engine_state \<Rightarrow> bool" where
  "prompt_kept sent st \<longleftrightarrow>
     (case st of (e, line, out) \<Rightarrow>
        active_line e = None \<and>
        (in_mode e = LocalEdit \<and> ed_mode (editor line) = PromptMode \<and> to_remote out = sent \<or>
         in_mode e = Remote \<and> to_remote out = sent @ [0x0D]))"

lemma submit_prompt_kept:
  assumes "active_line e = None" and "in_mode e = LocalEdit"
  shows "prompt_kept (to_remote out) (submit_prompt split bs (e, line, out))"
proof -
  obtain line1 out1 where f: "finalize_submitted_line line out = (line1, out1)" by (rule prod.exhaust)
  have out1: "to_remote out1 = to_remote out" using to_remote_drawing(6) [of line out] f by simp
  obtain e2 out2 where x: "exit_local_prompt (add_prompt_history bs e, out1) = (e2, out2)" by (rule prod.exhaust)
  have "active_line e2 = None" "in_mode e2 = Remote" "to_remote out2 = to_remote out @ [0x0D]"
    using wf_histories_exit(2,3) [of "(add_prompt_history bs e, out1)"] to_remote_drawing(7) [of "(add_prompt_history bs e, out1)"] x out1
    by simp_all
  then show ?thesis
    using assms out1 by (auto simp: submit_prompt_def f x prompt_kept_def Let_def new_prompt_def split: option.splits)
qed

lemma editor_apply_prompt:
  "editor_apply ev ed h = Some (eff, ed', h') \<Longrightarrow> ed_mode ed = PromptMode \<Longrightarrow>
   ed_mode ed' = PromptMode \<and> eff \<noteq> ClearAndExit \<and> (\<forall>bs. eff \<noteq> SubmitEscape bs)"
  by (cases ev) (auto simp: show_entry_def split: option.splits if_splits prod.splits)

lemma apply_event_prompt:
  assumes "ed_mode (editor line) = PromptMode" and "active_line e = None" and "in_mode e = LocalEdit"
    and "apply_editor_event split ev (e, line, out) = Some st"
  shows "prompt_kept (to_remote out) st"
proof -
  obtain eff ed h where ap: "editor_apply ev (editor line) (history_for line e) = Some (eff, ed, h)"
    using assms(4) by (auto simp: apply_editor_event_def split: option.splits)
  note eff = editor_apply_prompt [OF ap assms(1)]
  obtain line2 out2 where r: "render_line (line\<lparr>editor := ed\<rparr>) out = (line2, out2)" by (rule prod.exhaust)
  have "editor line2 = ed" "to_remote out2 = to_remote out"
    using render_editor [of "line\<lparr>editor := ed\<rparr>" out] to_remote_drawing(5) [of "line\<lparr>editor := ed\<rparr>" out] r by simp_all
  moreover have kept: "prompt_kept (to_remote out) (submit_prompt split bs (set_history_for line h e, line\<lparr>editor := ed\<rparr>, out))" for bs
    using assms(2,3) by (simp add: submit_prompt_kept)
  ultimately show ?thesis
  proof (cases eff)
    case (SubmitPrompt bs)
    then show ?thesis using assms(4) ap kept [of bs] by (auto simp: apply_editor_event_def Let_def)
  qed (use assms ap eff in \<open>auto simp: apply_editor_event_def Let_def r prompt_kept_def\<close>)
qed

lemma local_loop_gone: "active_line e = None \<Longrightarrow> in_mode e = Remote \<Longrightarrow> local_loop split bs (e, out) = Some (e, out)"
  by (cases bs) simp_all

lemma key_event_prompt:
  "key_event b e line = (ev, e1, line1) \<Longrightarrow> editor line1 = editor line \<and> active_line e1 = active_line e \<and> in_mode e1 = in_mode e"
  by (auto simp: key_event_def split: if_splits prod.splits)

lemma local_loop_prompt:
  assumes "active_line e = Some line" and "in_mode e = LocalEdit" and "ed_mode (editor line) = PromptMode"
    and "local_loop split bs (e, out) = Some (e', out')"
  shows "to_remote out' = to_remote out \<or> to_remote out' = to_remote out @ [0x0D]"
  using assms
proof (induction bs arbitrary: e line out)
  case (Cons b bs)
  let ?e = "e\<lparr>active_line := None\<rparr>"
  show ?case
  proof (cases "control_state line = CtlNone \<and> b = 0x03")
    case True
    let ?x = "exit_local_prompt (?e, emit (as_bytes (''^C'' @ [CHR 0x0D, CHR 0x0A])) out)"
    have "out' = snd ?x" using Cons.prems True by (simp add: Let_def)
    then show ?thesis by simp
  next
    case False
    obtain ev e1 line1 where key: "key_event b ?e line = (ev, e1, line1)" by (rule prod_cases3)
    note k = key_event_prompt [OF key]
    obtain e2 line2 out2 where
      ap: "(case ev of None \<Rightarrow> Some (e1, line1, out) | Some k \<Rightarrow> apply_editor_event split k (e1, line1, out)) = Some (e2, line2, out2)"
      and rest: "local_loop split bs ((if in_mode e2 = LocalEdit then e2\<lparr>active_line := Some line2\<rparr> else e2), out2) = Some (e', out')"
      using Cons.prems False key by (auto simp: Let_def split: option.splits)
    have "prompt_kept (to_remote out) (e2, line2, out2)"
      using ap k Cons.prems apply_event_prompt [of line1 e1 split _ out] by (cases ev) (auto simp: prompt_kept_def)
    then consider
        "in_mode e2 = LocalEdit" "ed_mode (editor line2) = PromptMode" "to_remote out2 = to_remote out"
      | "active_line e2 = None" "in_mode e2 = Remote" "to_remote out2 = to_remote out @ [0x0D]"
      by (auto simp: prompt_kept_def)
    then show ?thesis
    proof cases
      case 1
      then show ?thesis using Cons.IH [of "e2\<lparr>active_line := Some line2\<rparr>" line2 out2] rest by simp
    next
      case 2
      then show ?thesis using rest local_loop_gone [of e2 split bs out2] by simp
    qed
  qed
qed simp

text \<open>C22. Nothing typed at the local prompt reaches the remote host: whatever is typed there, at most the one carriage return
  that wakes the remote shell is sent, when the prompt is left.\<close>

theorem prompt_input_stays_local:
  assumes "active_line e = Some line" and "in_mode e = LocalEdit" and "ed_mode (editor line) = PromptMode"
    and "process_local split data e = Some (e', out)"
  shows "to_remote out \<in> {[], [0x0D]}"
  using local_loop_prompt [OF assms(1-3), of split data no_outputs] assms(2,4) by (auto simp: process_local_def no_outputs_def)

definition prompt_engine :: input_engine where
  "prompt_engine = (engine_new sample_disk [RootDir] False)\<lparr>in_mode := LocalEdit,
     active_line := Some \<lparr>editor = new_prompt, display_cursor = 0, control_state = CtlNone\<rparr>\<rparr>"

theorem prompt_input_stays_local_witness:
  "\<exists>e' out. process_local (\<lambda>s. Some [s]) [0x70, 0x77, 0x64, 0x0D] prompt_engine = Some (e', out) \<and> to_remote out \<in> {[], [0x0D]}"
proof -
  have "wf_engine prompt_engine"
    using wf_engine_new [of sample_disk "[RootDir]" False] by (simp add: prompt_engine_def wf_engine_def)
  then obtain e' out where run: "process_local (\<lambda>s. Some [s]) [0x70, 0x77, 0x64, 0x0D] prompt_engine = Some (e', out)"
    using process_local_progress by blast
  have "to_remote out \<in> {[], [0x0D]}"
    by (rule prompt_input_stays_local [OF _ _ _ run,
          where line = "\<lparr>editor = new_prompt, display_cursor = 0, control_state = CtlNone\<rparr>"])
       (simp_all add: prompt_engine_def new_prompt_def)
  then show ?thesis using run by blast
qed

section \<open>What follows a submitted line in the same buffer\<close>

text \<open>What is pasted behind an escape command in the same buffer is lost: after \<^verbatim>\<open>~?\<close> and Enter the engine is back in the
  remote mode, but the rest of the buffer is neither forwarded nor edited, whatever it is.\<close>

theorem rest_of_buffer_is_lost:
  assumes "in_mode e = Remote" and "local_line_len e = 0" and "swallow_next_enter_pair e = None"
  shows "\<exists>e' out. process_local split ([0x7E, 0x3F, 0x0D] @ rest) e = Some (e', out) \<and> in_mode e' = Remote \<and>
     to_remote out = [0x0D] \<and> actions out = [ActHelp]"
proof -
  have parse: "parse_escape split [0x7E, 0x3F] = Some ActHelp"
    by (simp add: parse_escape_def strip_tilde_def trim_bytes_def is_ascii_whitespace_def)
  show ?thesis
    using assms local_loop_gone
    by (auto simp: process_local_def Let_def escape_session_def key_event_def new_escape_def apply_editor_event_def vec_insert_def
        set_history_for_def submit_escape_def parse split_def exit_local_prompt_def no_outputs_def emit_def forward_def act_def
        finalize_submitted_line_def echo_escape_line_def)
qed

theorem rest_of_buffer_is_lost_witness:
  "\<exists>e' out. process_local (\<lambda>s. Some [s]) ([0x7E, 0x3F, 0x0D] @ [0x6C, 0x73, 0x0D]) (engine_new sample_disk [RootDir] False) = Some (e', out) \<and>
     to_remote out = [0x0D]"
  using rest_of_buffer_is_lost [of "engine_new sample_disk [RootDir] False" "\<lambda>s. Some [s]" "[0x6C, 0x73, 0x0D]"]
  by (auto simp: engine_new_def Let_def)

end
