(* ===== verification/Client_Session.thy ===== *)
theory Client_Session
  imports Metadata_Codec
begin

text \<open>
  The client's session object, \<^verbatim>\<open>src/client/session.rs\<close>, with \<^verbatim>\<open>src/session/state.rs\<close> and \<^verbatim>\<open>session_event.rs\<close>.  The SSH and
  Iroh libraries are behind numbered calls: the state records which were made, and an oracle says which
  of them succeed.  Channel messages are a list; a call of \<^verbatim>\<open>wait\<close> on an empty list finds the stream ended.
  The tasks of a running port forward are not modelled, and calls do not interleave.
\<close>

section \<open>States and events\<close>

datatype session_state =
  Dialing | TransportConnected | SshHandshaking | Authenticated | ShellReady | AuthRejected | TrustMismatch | Closed

fun is_terminal :: "session_state \<Rightarrow> bool" where
  "is_terminal AuthRejected = True"
| "is_terminal TrustMismatch = True"
| "is_terminal Closed = True"
| "is_terminal _ = False"

datatype session_event =
    SessionData bytes
  | SessionExtended bytes u32
  | SessionExitStatus u32
  | SessionExitSignal string bool string string
  | SessionClosed
  | SessionIgnore

datatype channel_msg =
    MsgData bytes
  | MsgExtendedData bytes u32
  | MsgExitStatus u32
  | MsgExitSignal string bool string string
  | MsgClose
  | MsgOther

fun session_event_from :: "channel_msg \<Rightarrow> session_event" where
  "session_event_from (MsgData data) = SessionData data"
| "session_event_from (MsgExtendedData data ext) = SessionExtended data ext"
| "session_event_from (MsgExitStatus status) = SessionExitStatus status"
| "session_event_from (MsgExitSignal signal core msg lang) = SessionExitSignal signal core msg lang"
| "session_event_from MsgClose = SessionClosed"
| "session_event_from MsgOther = SessionIgnore"

datatype session_error =
    Unavailable string
  | ChannelOpenFailed
  | PtyRequestFailed
  | ShellRequestFailed
  | ExecFailed
  | DataSendFailed
  | EofSendFailed
  | WindowChangeFailed
  | DisconnectFailed
  | TunnelFailed string

datatype net_call =
    OpenChannel
  | RequestPty string
  | RequestShell
  | RequestExec string
  | ChannelData bytes
  | ChannelEof
  | WindowChange "u32 \<times> u32 \<times> u32 \<times> u32"
  | CloseChannel
  | SshDisconnect
  | CloseConnection
  | CloseBlobsConnection
  | CloseEndpoint
  | BindListener string
  | TcpipForward string u32

section \<open>The session\<close>

text \<open>A held channel, connection or endpoint is a flag; messages arrive on the primary channel.\<close>

record client_session =
  channel :: bool
  connection :: bool
  blobs_connection :: bool
  endpoint :: bool
  remote_metadata :: "peer_metadata option"
  state :: session_state
  messages :: "channel_msg list"
  tunnels :: "((string \<times> u32) \<times> (string \<times> u16)) list"
  net_calls :: "net_call list"
  net_ok :: "nat \<Rightarrow> bool"

type_synonym 'a session_op = "(client_session, session_error, 'a) op"

definition transport_resources_released :: "client_session \<Rightarrow> bool" where
  "transport_resources_released s \<longleftrightarrow> \<not> channel s \<and> \<not> connection s \<and> \<not> blobs_connection s \<and> \<not> endpoint s"

definition check_open :: "unit session_op" where
  "check_open s =
     (if is_terminal (state s)
      then (Inl (Unavailable (case state s of
              AuthRejected \<Rightarrow> ''session is rejected''
            | TrustMismatch \<Rightarrow> ''session is trust mismatch''
            | Closed \<Rightarrow> ''session is closed''
            | _ \<Rightarrow> ''session is unavailable'')), s)
      else (Inr (), s))"

text \<open>One call of a library, and its error.\<close>

definition net :: "net_call \<Rightarrow> session_error \<Rightarrow> unit session_op" where
  "net c e s =
     ((if net_ok s (length (net_calls s)) then Inr () else Inl e), s\<lparr>net_calls := net_calls s @ [c]\<rparr>)"

text \<open>A call whose result is ignored.\<close>

definition net_ignored :: "net_call \<Rightarrow> client_session \<Rightarrow> client_session" where
  "net_ignored c s = s\<lparr>net_calls := net_calls s @ [c]\<rparr>"

definition ensure_channel :: "unit session_op" where
  "ensure_channel s =
     (if channel s then (Inr (), s)
      else bindS (net OpenChannel ChannelOpenFailed) (\<lambda>_ s1. (Inr (), s1\<lparr>channel := True\<rparr>)) s)"

definition request_pty :: "string \<Rightarrow> unit session_op" where
  "request_pty term = bindS check_open (\<lambda>_. bindS ensure_channel (\<lambda>_. net (RequestPty term) PtyRequestFailed))"

definition start_shell :: "unit session_op" where
  "start_shell =
     bindS check_open (\<lambda>_. bindS ensure_channel (\<lambda>_.
     bindS (net RequestShell ShellRequestFailed) (\<lambda>_ s. (Inr (), s\<lparr>state := ShellReady\<rparr>))))"

definition exec :: "string \<Rightarrow> unit session_op" where
  "exec command = bindS check_open (\<lambda>_. bindS ensure_channel (\<lambda>_. net (RequestExec command) ExecFailed))"

record exec_output =
  out_stdout :: bytes
  out_stderr :: bytes
  out_exit_status :: u32

definition exec_output_default :: exec_output where
  "exec_output_default = \<lparr>out_stdout = [], out_stderr = [], out_exit_status = 0\<rparr>"

text \<open>The loop that collects the output; the list is what the secondary channel delivers before it ends.\<close>

fun collect_output :: "channel_msg list \<Rightarrow> exec_output \<Rightarrow> exec_output" where
  "collect_output [] out = out"
| "collect_output (MsgData data # ms) out = collect_output ms (out\<lparr>out_stdout := out_stdout out @ data\<rparr>)"
| "collect_output (MsgExtendedData data ext # ms) out =
     collect_output ms (if ext = 1 then out\<lparr>out_stderr := out_stderr out @ data\<rparr> else out)"
| "collect_output (MsgExitStatus status # ms) out = collect_output ms (out\<lparr>out_exit_status := status\<rparr>)"
| "collect_output (MsgClose # ms) out = out"
| "collect_output (_ # ms) out = collect_output ms out"

definition capture_exec :: "channel_msg list \<Rightarrow> string \<Rightarrow> exec_output session_op" where
  "capture_exec delivered command =
     bindS check_open (\<lambda>_.
     bindS (net OpenChannel ChannelOpenFailed) (\<lambda>_.
     bindS (net (RequestExec command) ExecFailed) (\<lambda>_.
     retS (collect_output delivered exec_output_default))))"

definition local_forward :: "string \<Rightarrow> unit session_op" where
  "local_forward addr =
     bindS check_open (\<lambda>_. net (BindListener addr) (TunnelFailed ''failed to bind local listener''))"

definition remote_forward :: "string \<Rightarrow> u32 \<Rightarrow> string \<Rightarrow> u16 \<Rightarrow> unit session_op" where
  "remote_forward remote_host remote_port local_host local_port =
     bindS check_open (\<lambda>_.
     bindS (net (TcpipForward remote_host remote_port) (TunnelFailed ''server rejected remote forward request'')) (\<lambda>_ s.
     (Inr (), s\<lparr>tunnels := ((remote_host, remote_port), (local_host, local_port))
                  # filter (\<lambda>(key, _). key \<noteq> (remote_host, remote_port)) (tunnels s)\<rparr>)))"

definition send_data :: "bytes \<Rightarrow> unit session_op" where
  "send_data data = bindS check_open (\<lambda>_. bindS ensure_channel (\<lambda>_. net (ChannelData data) DataSendFailed))"

definition send_eof :: "unit session_op" where
  "send_eof = bindS check_open (\<lambda>_. bindS ensure_channel (\<lambda>_. net ChannelEof EofSendFailed))"

text \<open>The four sizes are columns, rows and pixels, each of 16 bits in the code.\<close>

definition resize :: "u16 \<times> u16 \<times> u16 \<times> u16 \<Rightarrow> unit session_op" where
  "resize size4 =
     (case size4 of (cols, rows, pw, ph) \<Rightarrow>
        bindS check_open (\<lambda>_. bindS ensure_channel (\<lambda>_.
        net (WindowChange (ucast cols, ucast rows, ucast pw, ucast ph)) WindowChangeFailed)))"

definition next_event :: "session_event option session_op" where
  "next_event s =
     (if \<not> channel s then (Inr None, s)
      else case messages s of
        m # ms \<Rightarrow> (Inr (Some (session_event_from m)), s\<lparr>messages := ms\<rparr>)
      | [] \<Rightarrow> (Inr None, s\<lparr>state := Closed\<rparr>))"

definition release_transport :: "client_session \<Rightarrow> client_session" where
  "release_transport s =
     (let s1 = (if connection s then (net_ignored CloseConnection s)\<lparr>connection := False\<rparr> else s);
          s2 = (if blobs_connection s1 then (net_ignored CloseBlobsConnection s1)\<lparr>blobs_connection := False\<rparr> else s1)
      in if endpoint s2 then (net_ignored CloseEndpoint s2)\<lparr>endpoint := False\<rparr> else s2)"

definition disconnect :: "unit session_op" where
  "disconnect s =
     (let s1 = (if channel s then (net_ignored CloseChannel s)\<lparr>channel := False\<rparr> else s) in
      bindS (if is_terminal (state s1) then retS () else net SshDisconnect DisconnectFailed)
        (\<lambda>_ s2. (Inr (), (release_transport s2)\<lparr>state := Closed\<rparr>)) s1)"

section \<open>Calls of the session in any order\<close>

datatype session_cmd =
    DoPty string
  | DoShell
  | DoExec string
  | DoCapture "channel_msg list" string
  | DoLocalForward string
  | DoRemoteForward string u32 string u16
  | DoSend bytes
  | DoEof
  | DoResize "u16 \<times> u16 \<times> u16 \<times> u16"

fun session_call_op :: "session_cmd \<Rightarrow> unit session_op" where
  "session_call_op (DoPty term) = request_pty term"
| "session_call_op DoShell = start_shell"
| "session_call_op (DoExec command) = exec command"
| "session_call_op (DoCapture ms command) = bindS (capture_exec ms command) (\<lambda>_. retS ())"
| "session_call_op (DoLocalForward addr) = local_forward addr"
| "session_call_op (DoRemoteForward rh rp lh lp) = remote_forward rh rp lh lp"
| "session_call_op (DoSend data) = send_data data"
| "session_call_op DoEof = send_eof"
| "session_call_op (DoResize size4) = resize size4"

lemma check_open_closed: "is_terminal (state s) \<Longrightarrow> \<exists>d. check_open s = (Inl (Unavailable d), s)"
  by (simp add: check_open_def)

text \<open>
  A session that has ended is inert: every operation but \<^verbatim>\<open>disconnect\<close> and \<^verbatim>\<open>next_event\<close> is refused as unavailable,
  without a call to the network and without a change of the session.
\<close>

theorem ended_session_is_inert:
  assumes "is_terminal (state s)"
  shows "\<exists>details. session_call_op cmd s = (Inl (Unavailable details), s)"
  using check_open_closed [OF assms]
  by (cases cmd)
    (auto simp: request_pty_def start_shell_def exec_def capture_exec_def local_forward_def remote_forward_def send_data_def
      send_eof_def resize_def bindS_def split: prod.split)

section \<open>Disconnecting\<close>

lemma release_released:
  "\<not> connection (release_transport s) \<and> \<not> blobs_connection (release_transport s) \<and> \<not> endpoint (release_transport s)"
  "channel (release_transport s) = channel s"
  by (simp_all add: release_transport_def net_ignored_def Let_def)

lemma release_idle:
  "\<not> connection s \<Longrightarrow> \<not> blobs_connection s \<Longrightarrow> \<not> endpoint s \<Longrightarrow> release_transport s = s"
  by (simp add: release_transport_def)


text \<open>
  A disconnect that fails leaks: when the SSH disconnect message cannot be sent, the connections and the endpoint that
  the session holds stay open, and the session is not closed.
\<close>

theorem failed_disconnect_leaks:
  assumes "disconnect s = (Inl e, s')"
  shows "connection s' = connection s \<and> blobs_connection s' = blobs_connection s \<and> endpoint s' = endpoint s
    \<and> state s' = state s \<and> \<not> is_terminal (state s')"
  using assms
  by (auto simp: disconnect_def bindS_def net_def retS_def Let_def transport_resources_released_def release_released release_idle net_ignored_def split: if_splits)

section \<open>Captured commands\<close>

text \<open>What a command wrote and how it ended, read off the messages before the channel closes.\<close>

definition before_close :: "channel_msg list \<Rightarrow> channel_msg list" where
  "before_close ms = takeWhile (\<lambda>m. m \<noteq> MsgClose) ms"

fun stdout_part :: "channel_msg \<Rightarrow> bytes" where
  "stdout_part (MsgData data) = data"
| "stdout_part _ = []"

fun stderr_part :: "channel_msg \<Rightarrow> bytes" where
  "stderr_part (MsgExtendedData data ext) = (if ext = 1 then data else [])"
| "stderr_part _ = []"

definition statuses :: "channel_msg list \<Rightarrow> u32 list" where
  "statuses ms = List.map_filter (\<lambda>m. case m of MsgExitStatus st \<Rightarrow> Some st | _ \<Rightarrow> None) ms"

lemma statuses_simps [simp]:
  "statuses [] = []" "statuses (m # ms) = (case m of MsgExitStatus st \<Rightarrow> [st] | _ \<Rightarrow> []) @ statuses ms"
  by (auto simp: statuses_def List.map_filter_simps split: channel_msg.split)

lemma collect_output_spec:
  "collect_output ms out =
     \<lparr>out_stdout = out_stdout out @ concat (map stdout_part (before_close ms)),
      out_stderr = out_stderr out @ concat (map stderr_part (before_close ms)),
      out_exit_status = last (out_exit_status out # statuses (before_close ms))\<rparr>"
  by (induction ms out rule: collect_output.induct) (simp_all add: before_close_def)

text \<open>
  C37. A captured command yields the standard output and the standard error that arrive before the channel closes, in order,
  and the last exit status among them; where none arrived the status is zero.
\<close>

theorem capture_collects_output:
  assumes "capture_exec ms command s = (Inr out, s')"
  shows "out_stdout out = concat (map stdout_part (before_close ms))
    \<and> out_stderr out = concat (map stderr_part (before_close ms))
    \<and> out_exit_status out = last (0 # statuses (before_close ms))"
  using assms
  by (auto simp: capture_exec_def bindS_def retS_def collect_output_spec exec_output_default_def split: prod.splits sum.splits)

definition live_session :: client_session where
  "live_session = \<lparr>channel = False, connection = True, blobs_connection = True, endpoint = True, remote_metadata = None,
     state = Authenticated, messages = [], tunnels = [], net_calls = [], net_ok = (\<lambda>_. True)\<rparr>"

theorem capture_collects_output_witness:
  "\<exists>out s'. capture_exec [MsgData [1], MsgExtendedData [2] 1, MsgExitStatus 3, MsgClose, MsgData [4]] ''x'' live_session = (Inr out, s')
     \<and> out_stdout out = [1] \<and> out_stderr out = [2] \<and> out_exit_status out = 3"
proof -
  let ?ms = "[MsgData [1], MsgExtendedData [2] 1, MsgExitStatus 3, MsgClose, MsgData [4]]"
  obtain out s' where run: "capture_exec ?ms ''x'' live_session = (Inr out, s')"
    by (simp add: capture_exec_def live_session_def bindS_def retS_def check_open_def net_def)
  from capture_collects_output [OF run] show ?thesis using run by (auto simp: before_close_def)
qed

text \<open>
  A command that is lost or killed is reported as a success: when no exit status arrives, because the connection broke or
  because the command died of a signal, the capture returns normally, with status zero.
\<close>

theorem lost_command_reports_success:
  assumes "\<not> is_terminal (state s)" and "\<And>n. net_ok s n" and "\<And>st. MsgExitStatus st \<notin> set ms"
  shows "\<exists>out s'. capture_exec ms command s = (Inr out, s') \<and> out_exit_status out = 0"
proof -
  have "statuses ks = []" if "set ks \<subseteq> set ms" for ks
    using that assms(3) by (induction ks) (auto split: channel_msg.split)
  moreover have "set (before_close ms) \<subseteq> set ms" unfolding before_close_def by (auto dest: set_takeWhileD)
  ultimately have "statuses (before_close ms) = []" by blast
  then show ?thesis using assms(1,2)
    by (simp add: capture_exec_def bindS_def retS_def check_open_def net_def collect_output_spec exec_output_default_def)
qed

theorem lost_command_reports_success_witness:
  "\<exists>out s'. capture_exec [MsgData [1], MsgExitSignal ''KILL'' False [] []] ''x'' live_session = (Inr out, s') \<and> out_exit_status out = 0"
  by (rule lost_command_reports_success) (auto simp: live_session_def)

theorem ended_session_is_inert_witness:
  "\<exists>details. session_call_op DoShell (live_session\<lparr>state := Closed\<rparr>) = (Inl (Unavailable details), live_session\<lparr>state := Closed\<rparr>)"
  by (rule ended_session_is_inert) simp

definition broken_session :: client_session where
  "broken_session = live_session\<lparr>net_ok := (\<lambda>_. False)\<rparr>"

theorem failed_disconnect_leaks_witness:
  "\<exists>s'. disconnect broken_session = (Inl DisconnectFailed, s') \<and> connection s' \<and> endpoint s' \<and> \<not> is_terminal (state s')"
proof -
  have b: "connection broken_session" "endpoint broken_session" by (simp_all add: broken_session_def live_session_def)
  obtain s' where run: "disconnect broken_session = (Inl DisconnectFailed, s')"
    by (simp add: disconnect_def broken_session_def live_session_def bindS_def net_def)
  from failed_disconnect_leaks [OF run] show ?thesis using run b by auto
qed


end
