(* ===== verification/Transfer_Commands.thy ===== *)
theory Transfer_Commands
  imports Client_Transfer
begin

text \<open>
  The transfer commands of the interactive client, \<^verbatim>\<open>src/cli/src/commands/connect/transfer.rs\<close>: how the two
  paths of \<^verbatim>\<open>put\<close> and \<^verbatim>\<open>get\<close> are resolved, and what the commands print.  A remote path is text, because
  the remote host may be a Windows host; a local one is a list of components.  The content-addressed
  transfer itself is an argument: its result after the terminal events that came before it.  Writing to
  the terminal is taken to succeed, and the progress bar is left out.
\<close>

section \<open>State\<close>

datatype cli_error = CliClient client_error | CliMessage string

type_synonym pty_dims = "u16 \<times> u16"

text \<open>An event of the terminal; \<open>None\<close> in the list of events is the end of the input.\<close>

datatype terminal_event = EvData bytes | EvResize pty_dims

datatype session_call = SessionSend bytes | SessionResize pty_dims | SessionEof | SessionDisconnect

record cli =
  peer :: srv
  screen :: string
  events :: "terminal_event option list"
  calls :: "session_call list"
  cli_root :: path

record cli_env =
  client :: client_env
  cli_home :: "path option"
  remote_os :: "string option"
  cwd_in_time :: bool
  session_ended :: "string option"
  upload_blob :: "path \<Rightarrow> string \<Rightarrow> cli_error + string"
  download_blob :: "string \<Rightarrow> path \<Rightarrow> cli_error + string"
  cli_show_error :: "cli_error \<Rightarrow> string"

definition say :: "string \<Rightarrow> (cli, cli_error, unit) op" where
  "say text s = (Inr (), s\<lparr>screen := screen s @ text\<rparr>)"

abbreviation crlf :: string where "crlf \<equiv> [CHR 0x0D, CHR 0x0A]"

text \<open>A request on a transfer stream of the session.\<close>

definition on_peer :: "(srv, client_error, 'a) op \<Rightarrow> (cli, cli_error, 'a) op" where
  "on_peer f s = (case f (peer s) of (r, p) \<Rightarrow> (map_err CliClient r, s\<lparr>peer := p\<rparr>))"

section \<open>Local paths\<close>

definition is_dir :: "disk \<Rightarrow> path \<Rightarrow> bool" where
  "is_dir d p \<longleftrightarrow> \<not> faults d (CallStat p) \<and> is_dir_node (lookup d p)"

definition resolve_local_input_path :: "path option \<Rightarrow> path \<Rightarrow> string \<Rightarrow> path" where
  "resolve_local_input_path home base raw =
     (if has_root raw then components raw
      else case strip_prefix ''~/'' raw of
        Some rest \<Rightarrow>
          (case home of Some h \<Rightarrow> path_join h (components rest) | None \<Rightarrow> path_join base (components raw))
      | None \<Rightarrow>
          (case (if raw = ''~'' then home else None) of
             Some h \<Rightarrow> h | None \<Rightarrow> path_join base (components raw)))"

definition to_str :: "string \<Rightarrow> string option" where
  "to_str s = (if utf8_valid s then Some s else None)"

definition candidate_name :: "string \<Rightarrow> string option \<Rightarrow> nat \<Rightarrow> string" where
  "candidate_name stem ext index =
     (case ext of
        Some ext \<Rightarrow> stem @ '' ('' @ nat_str index @ '').'' @ ext
      | None \<Rightarrow> stem @ '' ('' @ nat_str index @ '')'')"

text \<open>The loop over the numbered names, from \<open>index\<close> on and for \<open>n\<close> of them.\<close>

fun first_free :: "disk \<Rightarrow> (nat \<Rightarrow> path) \<Rightarrow> nat \<Rightarrow> nat \<Rightarrow> path option" where
  "first_free d candidate index n =
     (if n = 0 then None
      else if \<not> path_exists d (candidate index) then Some (candidate index)
      else first_free d candidate (Suc index) (n - 1))"

declare first_free.simps [simp del]

definition rename_stem :: "path \<Rightarrow> string" where
  "rename_stem p = (case Option.bind (map_option name_stem (path_file_name p)) to_str of Some s \<Rightarrow> s | None \<Rightarrow> ''download'')"

definition rename_ext :: "path \<Rightarrow> string option" where
  "rename_ext p = Option.bind (Option.bind (path_file_name p) name_extension) to_str"

definition auto_rename_download_target :: "disk \<Rightarrow> path \<Rightarrow> path" where
  "auto_rename_download_target d p =
     (if \<not> path_exists d p then p
      else
        let parent = (case path_parent p of Some q \<Rightarrow> q | None \<Rightarrow> []) in
        case first_free d (\<lambda>i. path_join parent (components (candidate_name (rename_stem p) (rename_ext p) i))) 1 1000000 of
             Some c \<Rightarrow> c
           | None \<Rightarrow> p)"

abbreviation ends_with_sep :: "string \<Rightarrow> bool" where
  "ends_with_sep raw \<equiv> raw \<noteq> [] \<and> (last raw = CHR ''/'' \<or> last raw = backslash)"

definition resolve_local_target :: "disk \<Rightarrow> path option \<Rightarrow> path \<Rightarrow> string option \<Rightarrow> string \<Rightarrow> path" where
  "resolve_local_target d home local_root raw fallback_name =
     (case raw of
        None \<Rightarrow> path_join local_root (components fallback_name)
      | Some raw \<Rightarrow>
          if raw = ''.'' \<or> raw = ''./'' then path_join local_root (components fallback_name)
          else
            let p = resolve_local_input_path home local_root raw in
            if ends_with_sep raw \<or> is_dir d p
            then auto_rename_download_target d (path_join p (components fallback_name))
            else p)"

section \<open>Remote paths\<close>

text \<open>\<^verbatim>\<open>PathBuf::join\<close> on the text of a path.\<close>

definition pathbuf_join :: "string \<Rightarrow> string \<Rightarrow> string" where
  "pathbuf_join a b =
     (if has_root b then b else if a = [] \<or> last a = CHR ''/'' then a @ b else a @ ''/'' @ b)"

text \<open>
  No letter outside ASCII has a lower case that contains a letter of \<^verbatim>\<open>windows\<close> and could complete the
  word, so the ASCII letters are enough for the test.
\<close>

definition lower_ascii :: "char \<Rightarrow> char" where
  "lower_ascii c =
     (if 0x41 \<le> (of_char c :: nat) \<and> (of_char c :: nat) \<le> 0x5A then char_of ((of_char c :: nat) + 0x20) else c)"

definition contains :: "string \<Rightarrow> string \<Rightarrow> bool" where
  "contains s pat \<longleftrightarrow> list_ex (\<lambda>i. take (length pat) (drop i s) = pat) [0..<Suc (length s)]"

definition remote_is_windows_os :: "cli_env \<Rightarrow> bool" where
  "remote_is_windows_os env = (case remote_os env of None \<Rightarrow> False | Some os \<Rightarrow> contains (map lower_ascii os) ''windows'')"

definition remote_join :: "string \<Rightarrow> string \<Rightarrow> bool \<Rightarrow> string" where
  "remote_join base parts is_win =
     (let sep = (if is_win then backslash else CHR ''/'');
          other_sep = (if is_win then CHR ''/'' else backslash);
          joined = (if base \<noteq> [] \<and> (last base = sep \<or> last base = other_sep) then base else base @ [sep]);
          normalized = map (\<lambda>c. if c = other_sep then sep else c) parts
      in joined @ dropWhile ((=) sep) normalized)"

definition resolve_remote_path ::
  "serde_json \<Rightarrow> cli_env \<Rightarrow> string option \<Rightarrow> string option \<Rightarrow> (cli, cli_error, string) op" where
  "resolve_remote_path J env raw fallback_name =
     (case raw of
        None \<Rightarrow>
          bindS (on_peer (remote_cwd J (client env))) (\<lambda>cwd.
          case fallback_name of
            None \<Rightarrow> failS (CliClient (TransferTargetInvalid ''missing fallback file name''))
          | Some fallback \<Rightarrow> retS (pathbuf_join cwd fallback))
      | Some raw \<Rightarrow>
          if raw = ''.'' \<or> raw = ''./'' then
            bindS (on_peer (remote_cwd J (client env))) (\<lambda>cwd.
            retS (case fallback_name of Some fallback \<Rightarrow> pathbuf_join cwd fallback | None \<Rightarrow> cwd))
          else if has_root raw then retS raw
          else if raw = ''~'' then
            retS (case fallback_name of Some fallback \<Rightarrow> pathbuf_join raw fallback | None \<Rightarrow> raw)
          else case strip_prefix ''~/'' raw of
            Some home_relative \<Rightarrow>
              retS (case fallback_name of
                      Some fallback \<Rightarrow>
                        if last raw = CHR ''/'' then pathbuf_join (pathbuf_join ''~/'' home_relative) fallback else raw
                    | None \<Rightarrow> raw)
          | None \<Rightarrow>
              bindS (if cwd_in_time env then on_peer (remote_cwd J (client env))
                     else failS (CliMessage ''Remote path resolution timed out after 30 seconds. The server might be unresponsive.''))
              (\<lambda>cwd.
              let is_windows = remote_is_windows_os env in
              retS (if ends_with_sep raw
                    then (case fallback_name of
                            Some fallback \<Rightarrow> remote_join (remote_join cwd raw is_windows) fallback is_windows
                          | None \<Rightarrow> remote_join cwd raw is_windows)
                    else remote_join cwd raw is_windows)))"

definition rfind :: "char \<Rightarrow> string \<Rightarrow> nat option" where
  "rfind c s = (case dropWhile ((\<noteq>) c) (rev s) of [] \<Rightarrow> None | r # rs \<Rightarrow> Some (length rs))"

definition portable_file_name :: "string \<Rightarrow> string option" where
  "portable_file_name path =
     (case to_str path of
        None \<Rightarrow> None
      | Some s \<Rightarrow>
          let last_slash = (case rfind (CHR ''/'') s of Some i \<Rightarrow> i | None \<Rightarrow> 0);
              last_backslash = (case rfind backslash s of Some i \<Rightarrow> i | None \<Rightarrow> 0);
              last_sep = max last_slash last_backslash
          in if last_sep = 0
             then (if s \<noteq> [] \<and> (hd s = CHR ''/'' \<or> hd s = backslash) then Some (drop 1 s) else Some s)
             else Some (drop (last_sep + 1) s))"

section \<open>The two commands\<close>

text \<open>
  The loop that waits for the transfer: events of the terminal that come before its end.  A control-C
  leaves the command at once with an error, the end of the input makes the transfer fail.
\<close>

fun transfer_loop :: "cli_error + string \<Rightarrow> terminal_event option list \<Rightarrow> session_call list
    \<Rightarrow> (cli_error + (cli_error + string)) \<times> terminal_event option list \<times> session_call list" where
  "transfer_loop res [] cs = (Inr res, [], cs)"
| "transfer_loop res (None # evs) cs = (Inr (Inl (CliMessage ''transfer interrupted'')), evs, cs)"
| "transfer_loop res (Some (EvData data) # evs) cs =
     (if 0x03 \<in> set data then (Inl (CliMessage ''transfer cancelled by user (ctrl+c)''), evs, cs)
      else transfer_loop res evs cs)"
| "transfer_loop res (Some (EvResize dims) # evs) cs = transfer_loop res evs (cs @ [SessionResize dims])"

text \<open>The events of the terminal up to the end of the transfer are the first \<open>n\<close> of the list.\<close>

definition await_transfer :: "nat \<Rightarrow> cli_error + string \<Rightarrow> (cli, cli_error, cli_error + string) op" where
  "await_transfer n res s =
     (case transfer_loop res (take n (events s)) (calls s) of
        (r, left, cs) \<Rightarrow> (r, s\<lparr>events := left @ drop n (events s), calls := cs\<rparr>))"

definition upload_failure_text :: "cli_env \<Rightarrow> string \<Rightarrow> string \<Rightarrow> cli_error \<Rightarrow> string" where
  "upload_failure_text env local_name remote_path err =
     (case err of
        CliClient (TransferTargetInvalid reason) \<Rightarrow>
          if contains reason ''recursive flag not set''
          then ''Upload failed. Error: '' @ [CHR 0x27] @ local_name @ [CHR 0x27] @ '' is a directory (use -r for recursive)'' @ crlf
          else ''Upload failed. Error: '' @ cli_show_error env err @ crlf
      | CliClient (TransferRejected failure) \<Rightarrow>
          if tf_code failure = IsDirectory
          then ''Upload failed. Error: '' @ [CHR 0x27] @ remote_path @ [CHR 0x27] @ '' is a directory on remote (use -r for recursive)'' @ crlf
          else ''Upload failed. Error: '' @ cli_show_error env err @ crlf
      | CliClient (FileIo operation path source) \<Rightarrow>
          if source = EntryNotFound
          then ''Upload failed. Error: '' @ [CHR 0x27] @ local_name @ [CHR 0x27] @ '' not found on local'' @ crlf
          else ''Upload failed. Error: '' @ cli_show_error env err @ crlf
      | _ \<Rightarrow> ''Upload failed. Error: '' @ cli_show_error env err @ crlf)"

definition download_failure_text :: "cli_env \<Rightarrow> string \<Rightarrow> cli_error \<Rightarrow> string" where
  "download_failure_text env remote_name err =
     (case err of
        CliClient (TransferTargetInvalid reason) \<Rightarrow>
          if contains reason ''recursive flag not set''
          then ''Download failed. Error: '' @ [CHR 0x27] @ remote_name @ [CHR 0x27] @ '' is a directory (use -r for recursive)'' @ crlf
          else ''Download failed. Error: '' @ cli_show_error env err @ crlf
      | CliClient (TransferRejected failure) \<Rightarrow>
          if tf_code failure = IsDirectory
          then ''Download failed. Error: '' @ [CHR 0x27] @ remote_name @ [CHR 0x27] @ '' is a directory on remote (use -r for recursive)'' @ crlf
          else if tf_code failure = NotFound
          then ''Download failed. Error: '' @ [CHR 0x27] @ remote_name @ [CHR 0x27] @ '' not found on remote'' @ crlf
          else ''Download failed. Error: '' @ cli_show_error env err @ crlf
      | _ \<Rightarrow> ''Download failed. Error: '' @ cli_show_error env err @ crlf)"

definition handle_put_command ::
  "serde_json \<Rightarrow> cli_env \<Rightarrow> nat \<Rightarrow> string \<Rightarrow> string option \<Rightarrow> bool \<Rightarrow> (cli, cli_error, unit) op" where
  "handle_put_command J env n local remote recursive = (\<lambda>s.
     let local_path = resolve_local_input_path (cli_home env) (cli_root s) local in
     if \<not> path_exists (fsys (peer s)) local_path
     then say (''Local file not found: '' @ path_display local_path) s
     else case portable_file_name (path_display local_path) of
       None \<Rightarrow> (Inl (CliMessage ''local path has no file name''), s)
     | Some local_name \<Rightarrow>
         bindS (resolve_remote_path J env remote (Some local_name)) (\<lambda>remote_path.
         bindS (say (''[local] '' @ path_display local_path @ '' -> [remote] '' @ remote_path @ crlf)) (\<lambda>_.
         bindS (await_transfer n (upload_blob env local_path remote_path)) (\<lambda>res.
         case res of
           Inr hash \<Rightarrow> bindS (say (''Uploaded '' @ local_name @ crlf)) (\<lambda>_. say (''BLAKE3:  '' @ hash @ crlf))
         | Inl err \<Rightarrow> say (upload_failure_text env local_name remote_path err)))) s)"

definition handle_get_command ::
  "serde_json \<Rightarrow> cli_env \<Rightarrow> nat \<Rightarrow> string \<Rightarrow> string option \<Rightarrow> bool \<Rightarrow> (cli, cli_error, unit) op" where
  "handle_get_command J env n remote local recursive =
     bindS (resolve_remote_path J env (Some remote) None) (\<lambda>remote_path s.
     let remote_name = (case portable_file_name remote_path of Some m \<Rightarrow> m | None \<Rightarrow> ''downloaded-file'');
         local_path = resolve_local_target (fsys (peer s)) (cli_home env) (cli_root s) local remote_name
     in bindS (say (''[remote] '' @ remote_path @ '' -> [local] '' @ path_display local_path @ crlf)) (\<lambda>_.
        bindS (await_transfer n (download_blob env remote_path local_path)) (\<lambda>res.
        case res of
          Inr hash \<Rightarrow> bindS (say (''Downloaded '' @ remote_name @ crlf)) (\<lambda>_. say (''BLAKE3:    '' @ hash @ crlf))
        | Inl err \<Rightarrow> say (download_failure_text env remote_name err))) s)"

section \<open>File names of remote paths\<close>

abbreviation no_sep :: "char \<Rightarrow> bool" where "no_sep c \<equiv> c \<noteq> CHR ''/'' \<and> c \<noteq> backslash"

lemma rfind_None_iff: "rfind c s = None \<longleftrightarrow> c \<notin> set s"
proof -
  have "rfind c s = None \<longleftrightarrow> dropWhile ((\<noteq>) c) (rev s) = []"
    by (cases "dropWhile ((\<noteq>) c) (rev s)") (simp_all only: rfind_def list.case, simp_all)
  also have "\<dots> \<longleftrightarrow> c \<notin> set s" by (subst dropWhile_eq_Nil_conv) auto
  finally show ?thesis .
qed

lemma rfind_Some_iff: "rfind c s = Some i \<longleftrightarrow> i < length s \<and> s ! i = c \<and> c \<notin> set (drop (Suc i) s)"
proof (cases "c \<in> set s")
  case False
  then show ?thesis using rfind_None_iff [of c s] by (metis nth_mem option.distinct(1))
next
  case True
  then obtain a b where s: "s = a @ c # b" and b: "c \<notin> set b" by (meson split_list_last)
  have "dropWhile ((\<noteq>) c) (rev s) = c # rev a"
    using dropWhile_append2 [of "rev b" "(\<noteq>) c" "c # rev a"] b by (auto simp: s)
  then have "rfind c s = Some (length a)" by (simp add: rfind_def)
  moreover have "i = length a" if "i < length s" "s ! i = c" "c \<notin> set (drop (Suc i) s)"
  proof (rule linorder_cases [of i "length a"])
    assume "i < length a"
    then have "drop (Suc i) s = drop (Suc i) a @ c # b" by (simp add: s)
    then show ?thesis using that(3) by simp
  next
    assume i: "length a < i"
    then have "s ! i = b ! (i - Suc (length a))" and "i - Suc (length a) < length b"
      using that(1) by (auto simp: s nth_append)
    then show ?thesis using that(2) b by (metis nth_mem)
  qed
  ultimately show ?thesis by (auto simp: s b)
qed

lemma rfind_default:
  assumes "i = (case rfind c s of Some i \<Rightarrow> i | None \<Rightarrow> 0)"
  shows "c \<notin> set (drop (Suc i) s)" and "0 < i \<Longrightarrow> i < length s \<and> s ! i = c"
proof -
  have "c \<notin> set (drop (Suc i) s) \<and> (0 < i \<longrightarrow> i < length s \<and> s ! i = c)"
  proof (cases "rfind c s")
    case None
    then have "i = 0" and "c \<notin> set s" using assms rfind_None_iff [of c s] by simp_all
    then show ?thesis using in_set_dropD [of c "Suc i" s] by blast
  next
    case (Some j)
    then show ?thesis using assms rfind_Some_iff [of c s j] by simp
  qed
  then show "c \<notin> set (drop (Suc i) s)" and "0 < i \<Longrightarrow> i < length s \<and> s ! i = c" by blast+
qed

lemma last_part_at:
  assumes "i < length s" "\<not> P (s ! i)" "\<And>c. c \<in> set (drop (Suc i) s) \<Longrightarrow> P c"
  shows "rev (takeWhile P (rev s)) = drop (Suc i) s"
proof -
  have "rev s = rev (drop (Suc i) s) @ s ! i # rev (take i s)"
    using assms(1) by (metis append.assoc append_Cons append_Nil id_take_nth_drop rev.simps(2) rev_append)
  moreover have "takeWhile P (rev (drop (Suc i) s) @ s ! i # rev (take i s)) = rev (drop (Suc i) s)"
    using assms(2,3) by (subst takeWhile_append2) auto
  ultimately show ?thesis by simp
qed

lemma last_part_all: "(\<And>c. c \<in> set s \<Longrightarrow> P c) \<Longrightarrow> rev (takeWhile P (rev s)) = s"
  by (subst takeWhile_eq_all_conv [THEN iffD2]) auto

lemma last_part_first:
  "s \<noteq> [] \<Longrightarrow> \<not> P (hd s) \<Longrightarrow> (\<And>c. c \<in> set (tl s) \<Longrightarrow> P c) \<Longrightarrow> rev (takeWhile P (rev s)) = drop 1 s"
  using last_part_at [of 0 s P] by (cases s) auto

text \<open>The name is what follows the last separator of either kind.\<close>

lemma portable_file_name_eq:
  assumes "utf8_valid s"
  shows "portable_file_name s = Some (rev (takeWhile no_sep (rev s)))"
proof -
  define sl where "sl = (case rfind (CHR ''/'') s of Some i \<Rightarrow> i | None \<Rightarrow> 0)"
  define bs where "bs = (case rfind backslash s of Some i \<Rightarrow> i | None \<Rightarrow> 0)"
  note sl = rfind_default [OF sl_def] and bs = rfind_default [OF bs_def]
  have sub: "set (drop (Suc (max sl bs)) s) \<subseteq> set (drop (Suc sl) s) \<inter> set (drop (Suc bs) s)"
    by (simp add: set_drop_subset_set_drop)
  then have rest: "no_sep c" if "c \<in> set (drop (Suc (max sl bs)) s)" for c using sl(1) bs(1) that by auto
  have eq: "portable_file_name s =
      (if max sl bs = 0 then (if s \<noteq> [] \<and> \<not> no_sep (hd s) then Some (drop 1 s) else Some s)
       else Some (drop (Suc (max sl bs)) s))"
    using assms by (simp add: portable_file_name_def to_str_def sl_def [symmetric] bs_def [symmetric] Let_def)
  show ?thesis
  proof (cases "max sl bs = 0")
    case True
    then have tl: "no_sep c" if "c \<in> set (tl s)" for c using rest that by (simp add: drop_Suc)
    show ?thesis
    proof (cases "s \<noteq> [] \<and> \<not> no_sep (hd s)")
      case first: True
      then show ?thesis using last_part_first [of s no_sep] tl True unfolding eq by presburger
    next
      case False
      then have "no_sep c" if "c \<in> set s" for c using tl that by (cases s) auto
      then show ?thesis using last_part_all [of s no_sep] False True unfolding eq by presburger
    qed
  next
    case False
    then have "max sl bs < length s" "\<not> no_sep (s ! max sl bs)" using sl(2) bs(2) by (auto simp: max_def)
    then have "rev (takeWhile no_sep (rev s)) = drop (Suc (max sl bs)) s" using rest by (rule last_part_at)
    then show ?thesis by (simp only: eq False if_False)
  qed
qed

section \<open>Joining remote paths\<close>

lemma remote_join_shape:
  obtains mid rest where "remote_join base parts w = base @ mid @ rest"
    "mid \<in> {[], [if w then backslash else CHR ''/'']}" "mid = [] \<longrightarrow> ends_with_sep base"
    "(if w then CHR ''/'' else backslash) \<notin> set rest"
    "rest = [] \<or> no_sep (hd rest)"
proof -
  define sep where "sep = (if w then backslash else CHR ''/'')"
  define other where "other = (if w then CHR ''/'' else backslash)"
  define rest where "rest = dropWhile ((=) sep) (map (\<lambda>c. if c = other then sep else c) parts)"
  have seps: "\<not> no_sep c \<longleftrightarrow> c = sep \<or> c = other" for c by (auto simp: sep_def other_def)
  have "sep \<noteq> other" by (simp add: sep_def other_def)
  then have "other \<notin> set (map (\<lambda>c. if c = other then sep else c) parts)" by auto
  then have o: "other \<notin> set rest" unfolding rest_def by (meson set_dropWhileD)
  have "rest = [] \<or> hd rest \<noteq> sep" 
    unfolding rest_def using hd_dropWhile [of "(=) sep" "map (\<lambda>c. if c = other then sep else c) parts"] by (metis (no_types))
  then have "rest = [] \<or> no_sep (hd rest)" using o hd_in_set [of rest] seps [of "hd rest"] by metis
  moreover have "remote_join base parts w = base @ (if ends_with_sep base then [] else [sep]) @ rest"
    using seps [of "last base"]
    by (simp add: remote_join_def Let_def rest_def sep_def [symmetric] other_def [symmetric])
  ultimately show thesis
    using that [of "if ends_with_sep base then [] else [sep]" rest] o by (simp add: sep_def other_def)
qed

section \<open>Numbered names\<close>

lemma decimal_digit_inj: "i < 10 \<Longrightarrow> j < 10 \<Longrightarrow> hex_digit i = hex_digit j \<Longrightarrow> i = j"
  by (subst (asm) hex_digit_def, subst (asm) hex_digit_def) (simp add: nth_eq_iff_index_eq)

lemma nat_str_inj: "nat_str m = nat_str n \<Longrightarrow> m = n"
proof (induction m arbitrary: n rule: nat_str.induct)
  case (1 m)
  have len: "nat_str k \<noteq> []" for k by (subst nat_str.simps) simp
  note eq = "1.prems" [unfolded nat_str.simps [of m] nat_str.simps [of n]]
  show ?case
  proof (cases "m < 10 \<or> n < 10")
    case True
    then show ?thesis using eq len [of "m div 10"] len [of "n div 10"] decimal_digit_inj [of m n]
      by (auto split: if_splits)
  next
    case False
    then have "nat_str (m div 10) = nat_str (n div 10)" "hex_digit (m mod 10) = hex_digit (n mod 10)" using eq by auto
    then have "m div 10 = n div 10" "m mod 10 = n mod 10" using "1.IH" False decimal_digit_inj by auto
    then show ?thesis by (metis div_mult_mod_eq)
  qed
qed

lemma nat_str_no_slash: "CHR ''/'' \<notin> set (nat_str n)"
proof (induction n rule: nat_str.induct)
  case (1 n)
  have "n mod 10 < 16" by (rule less_trans [of _ 10]) simp_all
  then show ?case using 1 hex_digit_neq [of n] hex_digit_neq [of "n mod 10"] by (subst nat_str.simps) auto
qed

lemma candidate_name_inj: "candidate_name stem ext i = candidate_name stem ext j \<Longrightarrow> i = j"
  by (auto simp: candidate_name_def dest: nat_str_inj split: option.splits)

lemma candidate_name_proper:
  assumes "CHR ''/'' \<notin> set stem" and "\<And>e. ext = Some e \<Longrightarrow> CHR ''/'' \<notin> set e"
  shows "proper_name (candidate_name stem ext i)"
proof -
  have "3 \<le> length (candidate_name stem ext i)" by (simp add: candidate_name_def split: option.splits)
  then have "candidate_name stem ext i \<notin> {[], ''.'', ''..''}" by auto
  moreover have "CHR ''/'' \<notin> set (candidate_name stem ext i)"
    using assms nat_str_no_slash [of i] by (auto simp: candidate_name_def split: option.splits)
  ultimately show ?thesis by (simp add: proper_name_def)
qed

lemma first_free_Some: "first_free d f i n = Some p \<Longrightarrow> \<not> path_exists d p \<and> (\<exists>j. p = f j)"
  by (induction d f i n rule: first_free.induct) (subst (asm) (2) first_free.simps, auto split: if_splits)

lemma first_free_None: "first_free d f i n = None \<Longrightarrow> i \<le> j \<Longrightarrow> j < i + n \<Longrightarrow> path_exists d (f j)"
proof (induction d f i n rule: first_free.induct)
  case (1 d f i n)
  have "path_exists d (f i)" "first_free d f (Suc i) (n - 1) = None"
    using "1.prems" by (auto simp: first_free.simps [of d f i n] split: if_splits)
  then show ?case using 1 by (cases "i = j") auto
qed

lemma first_free_exists:
  assumes "inj f" and "length (nodes d) < n"
  shows "first_free d f i n \<noteq> None"
proof
  assume "first_free d f i n = None"
  then have "f ` {i..<i + n} \<subseteq> fst ` set (nodes d)"
    using first_free_None [of d f i n]
    by (auto simp: path_exists_def lookup_def) (metis domI dom_map_of_conv_image_fst)
  then have "card (f ` {i..<i + n}) \<le> card (fst ` set (nodes d))" by (simp add: card_mono)
  also have "\<dots> \<le> length (nodes d)" by (metis card_length length_map set_map)
  finally show False using assms by (simp add: card_image inj_on_subset)
qed

section \<open>Where a download goes\<close>

definition proper_path :: "path \<Rightarrow> bool" where
  "proper_path p \<longleftrightarrow> (\<forall>c \<in> set p. case c of Normal f \<Rightarrow> proper_name f | _ \<Rightarrow> True)"

lemma proper_path_components [simp]: "proper_path (components s)"
  using components_Normal_proper by (auto simp: proper_path_def split: component.splits)

lemma proper_path_join [simp]: "proper_path p \<Longrightarrow> proper_path q \<Longrightarrow> proper_path (path_join p q)"
  by (auto simp: proper_path_def path_join_def dest: set_dropWhileD)

lemma proper_path_file_name:
  assumes "proper_path p" and "path_file_name p = Some n"
  shows "proper_name n"
proof -
  have "p \<noteq> []" "last p = Normal n"
    using assms(2) by (simp_all add: path_file_name_def split: if_splits component.splits)
  then show ?thesis using assms(1) last_in_set [of p] unfolding proper_path_def by fastforce
qed

lemma takeWhile_rev_subset: "set (takeWhile P (rev n)) \<subseteq> set n"
  using set_takeWhileD [of _ P "rev n"] by auto

lemma tl_dropWhile_rev_subset: "set (tl (dropWhile P (rev n))) \<subseteq> set n"
proof
  fix x
  assume "x \<in> set (tl (dropWhile P (rev n)))"
  then have "x \<in> set (dropWhile P (rev n))" by (cases "dropWhile P (rev n)") auto
  then show "x \<in> set n" using set_dropWhileD [of x P "rev n"] by simp
qed

lemma name_stem_subset: "set (name_stem n) \<subseteq> set n"
  using takeWhile_rev_subset [of _ n] tl_dropWhile_rev_subset [of _ n]
  by (simp add: name_stem_def rsplit_file_at_dot_def Let_def)

lemma name_extension_subset: "name_extension n = Some e \<Longrightarrow> set e \<subseteq> set n"
  using takeWhile_rev_subset [of "\<lambda>c. c \<noteq> CHR ''.''" n]
  by (auto simp: name_extension_def rsplit_file_at_dot_def Let_def split: if_splits)

lemma path_join_Normal_inj: "path_join p [Normal a] = path_join p [Normal b] \<Longrightarrow> a = b"
  by (auto simp: path_join_def split: if_splits)

abbreviation numbered :: "path \<Rightarrow> nat \<Rightarrow> string" where
  "numbered p i \<equiv> candidate_name (rename_stem p) (rename_ext p) i"

lemma numbered_proper:
  assumes "proper_path p"
  shows "proper_name (numbered p i)"
proof (rule candidate_name_proper)
  have slash: "CHR ''/'' \<notin> set n" if "path_file_name p = Some n" for n
    using proper_path_file_name [OF assms that] by (simp add: proper_name_def)
  show "CHR ''/'' \<notin> set (rename_stem p)"
    using slash name_stem_subset by (fastforce simp: rename_stem_def to_str_def split: option.splits bind_splits if_splits)
  show "CHR ''/'' \<notin> set e" if "rename_ext p = Some e" for e
    using slash name_extension_subset that by (fastforce simp: rename_ext_def to_str_def split: bind_splits if_splits)
qed

text \<open>With fewer than a million files on the disk the loop always finds a name, in the same directory.\<close>

lemma auto_rename_numbered:
  assumes p: "proper_path p" and few: "length (nodes d) < 1000000" and "path_exists d p"
  obtains i where "auto_rename_download_target d p = path_join (case path_parent p of Some q \<Rightarrow> q | None \<Rightarrow> []) [Normal (numbered p i)]"
    "\<not> path_exists d (auto_rename_download_target d p)"
proof -
  let ?f = "\<lambda>i. path_join (case path_parent p of Some q \<Rightarrow> q | None \<Rightarrow> []) (components (numbered p i))"
  have f: "?f = (\<lambda>i. path_join (case path_parent p of Some q \<Rightarrow> q | None \<Rightarrow> []) [Normal (numbered p i)])"
    using components_proper [OF numbered_proper [OF p]] by simp
  then have "inj ?f" by (auto intro!: injI dest!: path_join_Normal_inj candidate_name_inj)
  then obtain c where c: "first_free d ?f 1 1000000 = Some c" using first_free_exists few by blast
  have "auto_rename_download_target d p = c"
    using assms(3) by (simp only: auto_rename_download_target_def Let_def c) simp
  moreover obtain j where "c = ?f j" "\<not> path_exists d c" using first_free_Some [OF c] by blast
  ultimately show thesis using that [of j] components_proper [OF numbered_proper [OF p]] by simp
qed

lemma auto_rename_fresh:
  assumes "proper_path p" and "length (nodes d) < 1000000"
  shows "\<not> path_exists d (auto_rename_download_target d p)"
proof (cases "path_exists d p")
  case True
  show ?thesis using auto_rename_numbered [OF assms True] by blast
qed (simp add: auto_rename_download_target_def)

lemma auto_rename_same_dir:
  assumes "proper_path dir" and "dir \<noteq> []" and "proper_name n" and "length (nodes d) < 1000000"
  shows "\<exists>m. auto_rename_download_target d (dir @ [Normal n]) = dir @ [Normal m] \<and> proper_name m"
proof (cases "path_exists d (dir @ [Normal n])")
  case True
  have "proper_path (dir @ [Normal n])" using assms by (simp add: proper_path_def)
  moreover have "path_join dir [Normal m] = dir @ [Normal m]" for m using assms(2) by (simp add: path_join_def)
  ultimately obtain i where "auto_rename_download_target d (dir @ [Normal n]) = dir @ [Normal (numbered (dir @ [Normal n]) i)]"
    using auto_rename_numbered [OF _ assms(4) True] by (auto simp: path_parent_def)
  then show ?thesis using numbered_proper \<open>proper_path (dir @ [Normal n])\<close> by blast
qed (use assms in \<open>simp add: auto_rename_download_target_def\<close>)

lemma resolve_local_proper:
  assumes "proper_path base" and "\<And>h. home = Some h \<Longrightarrow> proper_path h"
  shows "proper_path (resolve_local_input_path home base raw)"
  using assms by (auto simp: resolve_local_input_path_def split: option.splits if_splits)


text \<open>Without a target, or with a dot, the name is taken as it is, whether it exists or not.\<close>

lemma default_target_is_not_renamed:
  "resolve_local_target d home root None name = path_join root (components name)"
  "resolve_local_target d home root (Some ''.'') name = path_join root (components name)"
  by (simp_all add: resolve_local_target_def)

text \<open>The file \<open>a.b\<close> exists in the root, so it is stored as \<open>a (1).b\<close>.\<close>

definition get_disk :: disk where
  "get_disk =
     \<lparr>nodes = [([RootDir, Normal ''r''], Dir 0x1C0), ([RootDir, Normal ''r'', Normal ''a.b''], File ''x'' 0x180)],
      faults = (\<lambda>_. False), partial = (\<lambda>_. 0), new_file_mode = 0x1B4, new_dir_mode = 0x1FD, rng = (\<lambda>_. 0), draws = 0\<rparr>"


end
