(* ===== verification/Line_Completion.thy ===== *)
theory Line_Completion
  imports Input_Engine Transfer_Commands Server_Dispatch Metadata_Codec
begin

text \<open>
  Tab completion in the interactive client, \<^verbatim>\<open>src/cli/src/commands/connect/completion.rs\<close>: the tokenizer, the
  choice of what to complete, and the edit of the line.  Slicing a string at a byte that does not begin
  a character panics in Rust: a function that slices returns an option, and \<open>None\<close> is the panic.  The
  function \<^verbatim>\<open>quote\<close> of the library \<^verbatim>\<open>shell_words\<close> is an argument.
\<close>

section \<open>Characters of a string\<close>

function char_indices :: "nat \<Rightarrow> string \<Rightarrow> (nat \<times> string) list" where
  "char_indices k [] = []"
| "char_indices k (a # s) =
     (let n = snd (utf8_step (a # s)) in (k, take n (a # s)) # char_indices (k + n) (drop n (a # s)))"
  by pat_completeness auto
termination
  by (relation "measure (\<lambda>(k, s). length s)") (use utf8_step_pos in auto)

definition chars :: "string \<Rightarrow> string list" where
  "chars s = map snd (char_indices 0 s)"

definition is_whitespace :: "string \<Rightarrow> bool" where
  "is_whitespace ch \<longleftrightarrow> ch \<in> set white_space"

definition slice_to :: "string \<Rightarrow> nat \<Rightarrow> string option" where
  "slice_to s n = (if is_char_boundary s n then Some (take n s) else None)"

definition slice_from :: "string \<Rightarrow> nat \<Rightarrow> string option" where
  "slice_from s n = (if is_char_boundary s n then Some (drop n s) else None)"

section \<open>The tokenizer\<close>

record token =
  raw_start :: nat
  raw_end :: nat
  tok_value :: string

record parsed_line =
  pl_raw :: string
  pl_cursor :: nat
  pl_tokens :: "token list"

text \<open>The variables of the loop of \<^verbatim>\<open>parse_line\<close>.\<close>

record tokenizer =
  tk_start :: "nat option"
  tk_value :: string
  in_single :: bool
  in_double :: bool
  tk_escaped :: bool
  tk_tokens :: "token list"

definition tokenizer_new :: tokenizer where
  "tokenizer_new = \<lparr>tk_start = None, tk_value = [], in_single = False, in_double = False, tk_escaped = False, tk_tokens = []\<rparr>"

definition finish_token :: "nat \<Rightarrow> tokenizer \<Rightarrow> tokenizer" where
  "finish_token end_at st =
     (case tk_start st of
        None \<Rightarrow> st
      | Some start \<Rightarrow> st\<lparr>tk_start := None, tk_value := [],
          tk_tokens := tk_tokens st @ [\<lparr>raw_start = start, raw_end = end_at, tok_value = tk_value st\<rparr>]\<rparr>)"

definition open_token :: "nat \<Rightarrow> tokenizer \<Rightarrow> tokenizer" where
  "open_token index st = (if tk_start st = None then st\<lparr>tk_start := Some index\<rparr> else st)"

definition push_char :: "string \<Rightarrow> tokenizer \<Rightarrow> tokenizer" where
  "push_char ch st = st\<lparr>tk_value := tk_value st @ ch\<rparr>"

fun tokenize_char :: "nat \<times> string \<Rightarrow> tokenizer \<Rightarrow> tokenizer" where
  "tokenize_char (index, ch) st =
     (if tk_escaped st then (push_char ch (open_token index st))\<lparr>tk_escaped := False\<rparr>
      else if ch = [backslash] \<and> \<not> in_single st then (open_token index st)\<lparr>tk_escaped := True\<rparr>
      else if ch = [CHR 0x27] \<and> \<not> in_double st then (open_token index st)\<lparr>in_single := \<not> in_single st\<rparr>
      else if ch = [CHR 0x22] \<and> \<not> in_single st then (open_token index st)\<lparr>in_double := \<not> in_double st\<rparr>
      else if is_whitespace ch \<and> \<not> in_single st \<and> \<not> in_double st then finish_token index st
      else push_char ch (open_token index st))"

text \<open>The cursor is moved back to the beginning of a character.\<close>

fun floor_boundary :: "string \<Rightarrow> nat \<Rightarrow> nat" where
  "floor_boundary raw 0 = 0"
| "floor_boundary raw (Suc n) = (if is_char_boundary raw (Suc n) then Suc n else floor_boundary raw n)"

definition parse_line :: "string \<Rightarrow> nat \<Rightarrow> parsed_line option" where
  "parse_line raw cursor =
     (let cursor = floor_boundary raw (min cursor (length raw));
          st = finish_token (length raw) (fold tokenize_char (char_indices 0 raw) tokenizer_new)
      in map_option (\<lambda>front.
           \<lparr>pl_raw = raw, pl_cursor = cursor,
            pl_tokens = tk_tokens st
              @ (if chars front \<noteq> [] \<and> is_whitespace (last (chars front))
                 then [\<lparr>raw_start = cursor, raw_end = cursor, tok_value = []\<rparr>] else [])\<rparr>)
           (slice_to raw cursor))"

section \<open>What is completed\<close>

datatype completion_mode = CompleteEscape | CompletePrompt

datatype completion_target =
    TargetKeyword token
  | TargetPutLocal string
  | TargetGetRemote string
  | TargetListLocal string
  | TargetChangeLocal string
  | TargetNone

definition active_token :: "parsed_line \<Rightarrow> token option" where
  "active_token p = find (\<lambda>t. raw_start t \<le> pl_cursor p \<and> pl_cursor p \<le> raw_end t) (pl_tokens p)"

definition classify_positional_target :: "completion_mode \<Rightarrow> string \<Rightarrow> nat \<Rightarrow> string \<Rightarrow> completion_target" where
  "classify_positional_target mode command index text =
     (case mode of
        CompleteEscape \<Rightarrow>
          if command = ''~put'' \<and> index = 0 then TargetPutLocal text
          else if command = ''~put'' \<and> index = 1 then TargetGetRemote text
          else if command = ''~get'' \<and> index = 0 then TargetGetRemote text
          else if command = ''~get'' \<and> index = 1 then TargetPutLocal text
          else TargetNone
      | CompletePrompt \<Rightarrow>
          if command = ''put'' \<and> index = 0 then TargetPutLocal text
          else if command = ''put'' \<and> index = 1 then TargetGetRemote text
          else if command = ''get'' \<and> index = 0 then TargetGetRemote text
          else if command = ''get'' \<and> index = 1 then TargetPutLocal text
          else if command = ''lls'' \<and> index = 0 then TargetListLocal text
          else if command = ''lcd'' \<and> index = 0 then TargetChangeLocal text
          else TargetNone)"

text \<open>The loop over the words after the command.\<close>

fun positional_scan :: "completion_mode \<Rightarrow> string \<Rightarrow> token \<Rightarrow> nat \<Rightarrow> token list \<Rightarrow> completion_target" where
  "positional_scan mode command active index [] = TargetNone"
| "positional_scan mode command active index (t # ts) =
     (if raw_start t = raw_start active \<and> raw_end t = raw_end active
      then classify_positional_target mode command index (tok_value t)
      else positional_scan mode command active
             (if tok_value t \<noteq> [] \<and> hd (tok_value t) = CHR ''-'' then index else Suc index) ts)"

definition classify_completion_target :: "completion_mode \<Rightarrow> parsed_line \<Rightarrow> completion_target" where
  "classify_completion_target mode p =
     (case active_token p of
        None \<Rightarrow> TargetNone
      | Some active \<Rightarrow>
          if raw_end active < pl_cursor p then TargetNone
          else case pl_tokens p of
            [] \<Rightarrow> TargetNone
          | command # rest \<Rightarrow>
              if raw_start active = 0 then TargetKeyword active
              else positional_scan mode (tok_value command) active 0 rest)"

section \<open>The edit\<close>

definition ESCAPE_KEYWORDS :: "string list" where
  "ESCAPE_KEYWORDS = [''~?'', ''~help'', ''~~'', ''~.'', ''~C'', ''~put'', ''~get'']"

definition PROMPT_KEYWORDS :: "string list" where
  "PROMPT_KEYWORDS =
     [''put'', ''get'', ''lls'', ''lcd'', ''lpwd'', ''paths'', ''clear'', ''help'', ''exit'', ''disconnect'']"

definition starts_with :: "string \<Rightarrow> string \<Rightarrow> bool" where
  "starts_with pre s \<longleftrightarrow> take (length pre) s = pre"

definition replace_range :: "parsed_line \<Rightarrow> nat \<Rightarrow> nat \<Rightarrow> string \<Rightarrow> completion_result option" where
  "replace_range p start end_at new_text =
     Option.bind (slice_to (pl_raw p) start) (\<lambda>front.
     map_option (\<lambda>back. Applied (as_bytes (front @ new_text @ back)) (start + length new_text))
       (slice_from (pl_raw p) end_at))"

definition complete_keyword :: "completion_mode \<Rightarrow> parsed_line \<Rightarrow> token \<Rightarrow> completion_result option" where
  "complete_keyword mode p t =
     (let keywords = (case mode of CompleteEscape \<Rightarrow> ESCAPE_KEYWORDS | CompletePrompt \<Rightarrow> PROMPT_KEYWORDS) in
      case filter (starts_with (tok_value t)) keywords of
        [] \<Rightarrow> Some NoCompletion
      | [single] \<Rightarrow>
          replace_range p (raw_start t) (raw_end t)
            (if single \<in> {''~put'', ''~get'', ''put'', ''get'', ''lls'', ''lcd''} then single @ '' '' else single)
      | found \<Rightarrow> Some (Suggestions found))"

definition local_completion_parts :: "string \<Rightarrow> path \<Rightarrow> path \<times> string \<times> string" where
  "local_completion_parts raw resolved =
     (if raw = [] then (resolved, [], [])
      else if last raw = CHR ''/'' then (resolved, [], raw)
      else ((case path_parent resolved of Some p \<Rightarrow> p | None \<Rightarrow> [CurDir]),
            (case Option.bind (path_file_name resolved) to_str of Some n \<Rightarrow> n | None \<Rightarrow> []),
            (case rfind (CHR ''/'') raw of Some i \<Rightarrow> take (Suc i) raw | None \<Rightarrow> [])))"

text \<open>The entries of a directory that match; an entry that cannot be read is left out.\<close>

definition local_matches :: "disk \<Rightarrow> path \<Rightarrow> string \<Rightarrow> string list \<Rightarrow> (string \<times> bool) list" where
  "local_matches d dir pre names =
     [(from_utf8_lossy n, is_dir d (dir @ [Normal n])).
        n \<leftarrow> names, \<not> faults d (CallDirEntry (dir @ [Normal n])) \<and> starts_with pre (from_utf8_lossy n)]"

definition complete_local_path ::
  "(string \<Rightarrow> string) \<Rightarrow> cli_env \<Rightarrow> parsed_line \<Rightarrow> string \<Rightarrow> cli \<Rightarrow> completion_result option" where
  "complete_local_path quote env p raw s =
     (let resolved = resolve_local_input_path (cli_home env) (cli_root s) raw;
          (search_dir, pre, base) = local_completion_parts raw resolved
      in case fs_read_dir (fsys (peer s)) search_dir of
           Inl _ \<Rightarrow> Some NoCompletion
         | Inr names \<Rightarrow>
             case sort_key (\<lambda>m. byte_key (fst m)) (local_matches (fsys (peer s)) search_dir pre names) of
               [] \<Rightarrow> Some NoCompletion
             | [(name, dir)] \<Rightarrow>
                 (case active_token p of
                    None \<Rightarrow> Some NoCompletion
                  | Some t \<Rightarrow> replace_range p (raw_start t) (raw_end t)
                      (if dir then quote (base @ name @ ''/'') else quote (base @ name) @ '' ''))
             | found \<Rightarrow> Some (Suggestions (map (\<lambda>(name, dir). if dir then base @ name @ ''/'' else base @ name) found)))"

definition complete_remote_path ::
  "serde_json \<Rightarrow> cli_env \<Rightarrow> parsed_line \<Rightarrow> string \<Rightarrow> (cli, cli_error, completion_result option) op" where
  "complete_remote_path J env p raw =
     bindS (on_peer (remote_completion J (client env) (session_ended env) raw)) (\<lambda>found.
     retS (case sort_key byte_key found of
             [] \<Rightarrow> Some NoCompletion
           | [single] \<Rightarrow>
               (case active_token p of
                  None \<Rightarrow> Some NoCompletion
                | Some t \<Rightarrow> replace_range p (raw_start t) (raw_end t)
                    (if single \<noteq> [] \<and> last single = CHR ''/'' then single else single @ '' ''))
           | many \<Rightarrow> Some (Suggestions many)))"

definition complete_line ::
  "serde_json \<Rightarrow> (string \<Rightarrow> string) \<Rightarrow> cli_env \<Rightarrow> completion_mode \<Rightarrow> bytes \<Rightarrow> nat
    \<Rightarrow> (cli, cli_error, completion_result option) op" where
  "complete_line J quote env mode line cursor =
     (case parse_line (lossy line) cursor of
        None \<Rightarrow> retS None
      | Some p \<Rightarrow>
          (case classify_completion_target mode p of
             TargetKeyword t \<Rightarrow> retS (complete_keyword mode p t)
           | TargetPutLocal raw \<Rightarrow> (\<lambda>s. (Inr (complete_local_path quote env p raw s), s))
           | TargetListLocal raw \<Rightarrow> (\<lambda>s. (Inr (complete_local_path quote env p raw s), s))
           | TargetChangeLocal raw \<Rightarrow> (\<lambda>s. (Inr (complete_local_path quote env p raw s), s))
           | TargetGetRemote raw \<Rightarrow> complete_remote_path J env p raw
           | TargetNone \<Rightarrow> retS (Some NoCompletion)))"

section \<open>The tokenizer never panics\<close>

lemma utf8_valid_drop_step: "utf8_valid s \<Longrightarrow> s \<noteq> [] \<Longrightarrow> utf8_valid (drop (snd (utf8_step s)) s)"
  using utf8_valid_step by blast

lemma utf8_valid_first: "utf8_valid (a # s) \<Longrightarrow> \<not> continuation a"
proof
  assume "utf8_valid (a # s)" and "continuation a"
  moreover from this(2) have "utf8_step (a # s) = (False, 1)"
    by (simp add: utf8_step_def safe_get_def continuation_def Let_def)
  ultimately show False using utf8_valid_step [of "a # s"] by (simp del: utf8_valid.simps)
qed

lemma boundary_append: "utf8_valid s \<Longrightarrow> is_char_boundary (pre @ s) (length pre)"
  by (cases s) (use utf8_valid_first in \<open>auto simp: is_char_boundary_def nth_append simp del: utf8_valid.simps\<close>)

lemma char_indices_boundary:
  "utf8_valid s \<Longrightarrow> length pre = k \<Longrightarrow> (i, c) \<in> set (char_indices k s) \<Longrightarrow> is_char_boundary (pre @ s) i"
proof (induction k s arbitrary: pre rule: char_indices.induct)
  case (2 k a s)
  let ?n = "snd (utf8_step (a # s))"
  have n: "?n \<le> length (a # s)" by (rule utf8_step_length) simp
  consider "i = k" | "(i, c) \<in> set (char_indices (k + ?n) (drop ?n (a # s)))"
    using "2.prems"(3) by (auto simp: Let_def)
  then show ?case
  proof cases
    case 1
    then show ?thesis using boundary_append [OF "2.prems"(1), of pre] "2.prems"(2) by simp
  next
    case 2
    have "is_char_boundary ((pre @ take ?n (a # s)) @ drop ?n (a # s)) i"
      by (rule "2.IH") (use "2.prems" n 2 utf8_valid_drop_step [of "a # s"] in auto)
    then show ?thesis by simp
  qed
qed simp

definition tokens_on :: "string \<Rightarrow> token list \<Rightarrow> bool" where
  "tokens_on raw ts \<longleftrightarrow> (\<forall>t \<in> set ts. is_char_boundary raw (raw_start t) \<and> is_char_boundary raw (raw_end t))"

definition tokenizer_inv :: "string \<Rightarrow> tokenizer \<Rightarrow> bool" where
  "tokenizer_inv raw st \<longleftrightarrow> tokens_on raw (tk_tokens st) \<and> (\<forall>i. tk_start st = Some i \<longrightarrow> is_char_boundary raw i)"

lemma finish_token_inv:
  "tokenizer_inv raw st \<Longrightarrow> is_char_boundary raw i \<Longrightarrow> tokenizer_inv raw (finish_token i st)"
  by (auto simp: tokenizer_inv_def finish_token_def tokens_on_def split: option.splits)

lemma tokenize_char_inv:
  "tokenizer_inv raw st \<Longrightarrow> is_char_boundary raw i \<Longrightarrow> tokenizer_inv raw (tokenize_char (i, c) st)"
  using finish_token_inv [of raw st i]
  by (auto simp: tokenizer_inv_def open_token_def push_char_def)

lemma tokenize_inv:
  "tokenizer_inv raw st \<Longrightarrow> (\<And>i c. (i, c) \<in> set cs \<Longrightarrow> is_char_boundary raw i) \<Longrightarrow> tokenizer_inv raw (fold tokenize_char cs st)"
proof (induction cs arbitrary: st)
  case (Cons x cs)
  obtain i c where x: "x = (i, c)" by (rule prod.exhaust)
  have "tokenizer_inv raw (tokenize_char x st)" unfolding x by (rule tokenize_char_inv) (use Cons.prems x in auto)
  then show ?case using Cons.IH [of "tokenize_char x st"] Cons.prems(2) by auto
qed simp

lemma floor_boundary_boundary: "is_char_boundary raw (floor_boundary raw n)"
  by (induction n) (auto simp: is_char_boundary_def)

lemma floor_boundary_le: "floor_boundary raw n \<le> n"
  by (induction n) (auto intro: le_SucI)

lemma parse_line_Some:
  assumes "utf8_valid raw"
  obtains p where "parse_line raw cursor = Some p" "pl_raw p = raw" "pl_cursor p = floor_boundary raw (min cursor (length raw))"
    "tokens_on raw (pl_tokens p)"
proof -
  let ?c = "floor_boundary raw (min cursor (length raw))"
  let ?st = "finish_token (length raw) (fold tokenize_char (char_indices 0 raw) tokenizer_new)"
  have "tokenizer_inv raw tokenizer_new" by (simp add: tokenizer_inv_def tokenizer_new_def tokens_on_def)
  then have "tokenizer_inv raw (fold tokenize_char (char_indices 0 raw) tokenizer_new)"
    by (rule tokenize_inv) (use char_indices_boundary [OF assms, of "[]" 0] in auto)
  then have "tokenizer_inv raw ?st" by (rule finish_token_inv) simp
  then have ts: "tokens_on raw (tk_tokens ?st)" by (simp add: tokenizer_inv_def)
  obtain p where p: "parse_line raw cursor = Some p" "pl_raw p = raw" "pl_cursor p = ?c"
      "set (pl_tokens p) \<subseteq> set (tk_tokens ?st) \<union> {\<lparr>raw_start = ?c, raw_end = ?c, tok_value = []\<rparr>}"
    using floor_boundary_boundary [of raw "min cursor (length raw)"] by (auto simp: parse_line_def slice_to_def Let_def)
  then have "tokens_on raw (pl_tokens p)"
    using ts floor_boundary_boundary [of raw "min cursor (length raw)"] unfolding tokens_on_def by fastforce
  then show thesis using that p by blast
qed

section \<open>A completion edits the word at the cursor and nothing else\<close>

lemma boundary_le: "is_char_boundary s n \<Longrightarrow> n \<le> length s"
  by (auto simp: is_char_boundary_def split: if_splits)

text \<open>What a result may be for a line and a cursor on it.\<close>

definition token_edit :: "string \<Rightarrow> nat \<Rightarrow> completion_result \<Rightarrow> bool" where
  "token_edit text cursor r =
     (case r of
        Applied line c \<Rightarrow>
          (\<exists>front word back new_text.
             text = front @ word @ back \<and> length front \<le> cursor \<and> cursor \<le> length (front @ word)
             \<and> line = as_bytes (front @ new_text @ back) \<and> c = length (front @ new_text))
      | _ \<Rightarrow> True)"

lemma token_edit_simps [simp]: "token_edit text cursor NoCompletion" "token_edit text cursor (Suggestions ms)"
  by (simp_all add: token_edit_def)

lemma replace_range_edit:
  assumes "is_char_boundary (pl_raw p) a" and "is_char_boundary (pl_raw p) b" and "a \<le> pl_cursor p" and "pl_cursor p \<le> b"
  shows "\<exists>r. replace_range p a b new_text = Some r \<and> token_edit (pl_raw p) (pl_cursor p) r"
proof -
  have len: "b \<le> length (pl_raw p)" using boundary_le assms(2) by blast
  have "pl_raw p = take a (pl_raw p) @ take (b - a) (drop a (pl_raw p)) @ drop b (pl_raw p)"
    using assms(3,4) by (metis append.assoc append_take_drop_id le_trans take_add le_add_diff_inverse)
  then have "token_edit (pl_raw p) (pl_cursor p)
      (Applied (as_bytes (take a (pl_raw p) @ new_text @ drop b (pl_raw p))) (a + length new_text))"
    unfolding token_edit_def completion_result.case
    by (intro exI [of _ "take a (pl_raw p)"] exI [of _ "take (b - a) (drop a (pl_raw p))"] exI [of _ "drop b (pl_raw p)"]
        exI [of _ new_text]) (use assms len in simp)
  then show ?thesis using assms(1,2) by (simp add: replace_range_def slice_to_def slice_from_def)
qed

lemma active_token_edit:
  assumes "tokens_on (pl_raw p) (pl_tokens p)" and "active_token p = Some t"
  shows "\<exists>r. replace_range p (raw_start t) (raw_end t) new_text = Some r \<and> token_edit (pl_raw p) (pl_cursor p) r"
  using assms by (intro replace_range_edit) (auto simp: active_token_def tokens_on_def find_Some_iff)

lemma complete_keyword_edit:
  assumes "tokens_on (pl_raw p) (pl_tokens p)" and "active_token p = Some t"
  shows "\<exists>r. complete_keyword mode p t = Some r \<and> token_edit (pl_raw p) (pl_cursor p) r"
  using active_token_edit [OF assms] by (auto simp: complete_keyword_def Let_def split: list.split)

lemma complete_local_path_edit:
  assumes "tokens_on (pl_raw p) (pl_tokens p)"
  shows "\<exists>r. complete_local_path quote env p raw s = Some r \<and> token_edit (pl_raw p) (pl_cursor p) r"
  using active_token_edit [OF assms]
  by (auto simp: complete_local_path_def Let_def split: sum.split list.split option.split prod.split)

lemma complete_remote_path_edit:
  assumes "tokens_on (pl_raw p) (pl_tokens p)" and "complete_remote_path J env p raw s = (Inr r, s')"
  shows "\<exists>r'. r = Some r' \<and> token_edit (pl_raw p) (pl_cursor p) r'"
  using assms(2) active_token_edit [OF assms(1)]
  by (auto simp: complete_remote_path_def bindS_def retS_def split: sum.splits list.splits option.splits prod.splits)

lemma classify_keyword_active:
  "classify_completion_target mode p = TargetKeyword t \<Longrightarrow> active_token p = Some t"
proof -
  have scan: "positional_scan mode command active index ts \<noteq> TargetKeyword t" for command active index ts
    by (induction ts arbitrary: index) (simp_all add: classify_positional_target_def split: completion_mode.split)
  show "classify_completion_target mode p = TargetKeyword t \<Longrightarrow> active_token p = Some t"
    using scan by (auto simp: classify_completion_target_def split: option.splits if_splits list.splits)
qed

lemma complete_line_edit:
  assumes "complete_line J quote env mode line cursor s = (Inr r, s')"
  shows "\<exists>r'. r = Some r' \<and> token_edit (lossy line) (floor_boundary (lossy line) (min cursor (length (lossy line)))) r'"
proof -
  obtain p where p: "parse_line (lossy line) cursor = Some p" "pl_raw p = lossy line"
      "pl_cursor p = floor_boundary (lossy line) (min cursor (length (lossy line)))" "tokens_on (lossy line) (pl_tokens p)"
    by (rule parse_line_Some [of "lossy line" cursor]) (simp add: lossy_def from_utf8_lossy_valid)
  have on: "tokens_on (pl_raw p) (pl_tokens p)" using p by simp
  have "\<exists>r'. r = Some r' \<and> token_edit (pl_raw p) (pl_cursor p) r'"
    using assms p(1) complete_keyword_edit [OF on] classify_keyword_active [of mode p] complete_local_path_edit [OF on]
      complete_remote_path_edit [OF on]
    by (cases "classify_completion_target mode p") (auto simp: complete_line_def retS_def)
  then show ?thesis by (simp add: p)
qed


section \<open>The words of a plain line\<close>

text \<open>Without quotes and escapes the tokens are the non-empty runs between white space.\<close>

definition plain :: "string \<Rightarrow> bool" where
  "plain ch \<longleftrightarrow> ch \<notin> {[backslash], [CHR 0x27], [CHR 0x22], []}"

definition words :: "string list \<Rightarrow> string list" where
  "words cs = map concat (filter (\<lambda>w. w \<noteq> []) (split_on is_whitespace cs))"

definition at_rest :: "tokenizer \<Rightarrow> bool" where
  "at_rest st \<longleftrightarrow> \<not> tk_escaped st \<and> \<not> in_single st \<and> \<not> in_double st \<and> (tk_start st = None \<longleftrightarrow> tk_value st = [])"

abbreviation values_of :: "tokenizer \<Rightarrow> string list" where
  "values_of st \<equiv> map tok_value (tk_tokens st)"

fun with_pending :: "string \<Rightarrow> string list list \<Rightarrow> string list" where
  "with_pending pend [] = []"
| "with_pending pend (w # ws) =
     (if pend @ concat w = [] then [] else [pend @ concat w]) @ map concat (filter (\<lambda>w. w \<noteq> []) ws)"

lemma split_on_subset: "w \<in> set (split_on P cs) \<Longrightarrow> set w \<subseteq> set cs"
proof (induction cs arbitrary: w)
  case (Cons c cs)
  then show ?case by (cases "split_on P cs") (auto split: if_splits, (blast dest: subsetD)+)
qed simp

lemma with_pending_Nil:
  assumes "\<And>c. c \<in> set cs \<Longrightarrow> c \<noteq> []"
  shows "with_pending [] (split_on is_whitespace cs) = words cs"
proof -
  obtain w ws where split: "split_on is_whitespace cs = w # ws" by (cases "split_on is_whitespace cs") auto
  have "set w \<subseteq> set cs" using split_on_subset [of w is_whitespace cs] split by simp
  then have "concat w = [] \<longleftrightarrow> w = []" using assms by (cases w) auto
  then show ?thesis by (simp add: words_def split)
qed

lemma tokenize_plain_white:
  assumes "at_rest st" and "is_whitespace c" and "plain c"
  shows "at_rest (tokenize_char (i, c) st)" and "tk_value (tokenize_char (i, c) st) = []"
    and "values_of (tokenize_char (i, c) st) = values_of st @ (if tk_value st = [] then [] else [tk_value st])"
  using assms by (auto simp: at_rest_def plain_def finish_token_def split: option.splits)

lemma tokenize_plain_char:
  assumes "at_rest st" and "\<not> is_whitespace c" and "plain c"
  shows "at_rest (tokenize_char (i, c) st)" and "tk_value (tokenize_char (i, c) st) = tk_value st @ c"
    and "values_of (tokenize_char (i, c) st) = values_of st"
  using assms by (auto simp: at_rest_def plain_def push_char_def open_token_def)

lemma tokenize_plain_words:
  "at_rest st \<Longrightarrow> (\<And>i c. (i, c) \<in> set cs \<Longrightarrow> plain c) \<Longrightarrow>
   values_of (finish_token n (fold tokenize_char cs st))
     = values_of st @ with_pending (tk_value st) (split_on is_whitespace (map snd cs))"
proof (induction cs arbitrary: st)
  case Nil
  then show ?case by (auto simp: finish_token_def at_rest_def split: option.splits)
next
  case (Cons x cs)
  obtain i c where x: "x = (i, c)" by (rule prod.exhaust)
  then have c: "plain c" and cs: "\<And>i c. (i, c) \<in> set cs \<Longrightarrow> plain c" using Cons.prems(2) by auto
  obtain w ws where split: "split_on is_whitespace (map snd cs) = w # ws"
    by (cases "split_on is_whitespace (map snd cs)") auto
  show ?case
  proof (cases "is_whitespace c")
    case True
    note step = tokenize_plain_white [OF Cons.prems(1) True c, of i]
    have "d \<noteq> []" if "d \<in> set (map snd cs)" for d using cs that by (auto simp: plain_def)
    then have "with_pending [] (split_on is_whitespace (map snd cs)) = words (map snd cs)" by (rule with_pending_Nil)
    then show ?thesis using Cons.IH [OF step(1) cs] step(2,3) True by (simp add: x words_def)
  next
    case False
    note step = tokenize_plain_char [OF Cons.prems(1) False c, of i]
    have "c \<noteq> []" using c by (simp add: plain_def)
    then show ?thesis using Cons.IH [OF step(1) cs] step(2,3) False split by (simp add: x)
  qed
qed

text \<open>
  On a line without quotes and backslashes the tokenizer yields the words between the white space, in order and
  without empty ones; when white space precedes the cursor, an empty word is added at the end.
\<close>

theorem plain_tokens_are_words:
  assumes "utf8_valid raw" and "\<And>c. c \<in> set (chars raw) \<Longrightarrow> plain c"
  shows "\<exists>p new. parse_line raw cursor = Some p \<and> map tok_value (pl_tokens p) = words (chars raw) @ new \<and> new \<in> {[], [[]]}"
proof -
  obtain p where p: "parse_line raw cursor = Some p" using parse_line_Some [OF assms(1)] by blast
  let ?st = "finish_token (length raw) (fold tokenize_char (char_indices 0 raw) tokenizer_new)"
  have ne: "c \<noteq> []" if "c \<in> set (chars raw)" for c using assms(2) that by (auto simp: plain_def)
  have "values_of ?st = values_of tokenizer_new @ with_pending (tk_value tokenizer_new) (split_on is_whitespace (chars raw))"
    unfolding chars_def by (rule tokenize_plain_words)
      (use assms(2) in \<open>auto simp: at_rest_def tokenizer_new_def chars_def image_iff\<close>, force)
  then have "values_of ?st = words (chars raw)" using with_pending_Nil [OF ne] by (simp add: tokenizer_new_def)
  then have "\<exists>new. map tok_value (pl_tokens p) = words (chars raw) @ new \<and> new \<in> {[], [[]]}"
    using p by (auto simp: parse_line_def Let_def)
  then show ?thesis using p by blast
qed

theorem plain_tokens_are_words_witness:
  "\<exists>p new. parse_line ''get  a b'' 4 = Some p \<and> map tok_value (pl_tokens p) = [''get'', ''a'', ''b''] @ new \<and> new \<in> {[], [[]]}"
proof -
  have chars: "chars ''get  a b'' = map (\<lambda>c. [c]) ''get  a b''" by code_simp
  have "words (chars ''get  a b'') = [''get'', ''a'', ''b'']" by code_simp
  moreover have "utf8_valid ''get  a b''" by code_simp
  moreover have "plain c" if "c \<in> set (chars ''get  a b'')" for c using that by (auto simp: chars plain_def)
  ultimately show ?thesis using plain_tokens_are_words [of "''get  a b''" 4] by metis
qed

section \<open>Two flaws\<close>

text \<open>
  A client at \<^verbatim>\<open>irosh>\<close> and a server whose home directory holds the file \<^verbatim>\<open>d/file\<close>.  The sample codec carries the
  names of the answer.
\<close>

definition completion_json :: serde_json where
  "completion_json = sample_json\<lparr>
     js_completion_request := sample_serde \<lparr>cq_path = ''d/f''\<rparr> [1],
     js_completion_response :=
       \<lparr>ser = (\<lambda>r. Inr (as_bytes (concat (cp_matches r)))), de = (\<lambda>b. Inr \<lparr>cp_matches = [str_of_bytes b]\<rparr>)\<rparr>\<rparr>"

definition completion_server :: srv where
  "completion_server = \<lparr>
     fsys = \<lparr>nodes = [([RootDir, Normal ''h'', Normal ''d''], Dir 0x1C0), ([RootDir, Normal ''h'', Normal ''d'', Normal ''file''], File [] 0x180)],
             faults = (\<lambda>_. False), partial = (\<lambda>_. 0), new_file_mode = 0x1B4, new_dir_mode = 0x1FD, rng = (\<lambda>_. 0), draws = 0\<rparr>,
     inp = [], outp = [], write_fails = (\<lambda>_. False), writes = 0\<rparr>"

definition completion_cli :: "bytes \<Rightarrow> cli" where
  "completion_cli answer = \<lparr>peer = completion_server\<lparr>inp := answer\<rparr>, screen = [], events = [], calls = [], cli_root = [RootDir]\<rparr>"

definition completion_cli_env :: cli_env where
  "completion_cli_env = \<lparr>
     client = \<lparr>has_connection = True, open_bi = True, cl_show_frame = (\<lambda>_. []), cl_read_len = (\<lambda>_ n. n),
               cl_walk_dir = (\<lambda>_ _. []), dir_len = (\<lambda>_. 0)\<rparr>,
     cli_home = None, remote_os = None, cwd_in_time = True, session_ended = None, upload_blob = (\<lambda>_ _. Inr []), download_blob = (\<lambda>_ _. Inr []),
     cli_show_error = (\<lambda>_. [])\<rparr>"

definition completion_server_env :: server_env where
  "completion_server_env = \<lparr>home_dir = Some [RootDir, Normal ''h''], process_cwd = (\<lambda>_. Inr None), process_id = 4,
     show_frame = (\<lambda>_. []), show_error = (\<lambda>_. []), show_io = (\<lambda>_. []), read_len = (\<lambda>_ n. n), walk_dir = (\<lambda>_ _. [])\<rparr>"

text \<open>
  The two ends of a remote completion disagree.  The server answers with the bare names of the matching entries, and the
  client puts such a name in the place of the whole word: completing \<^verbatim>\<open>get d/f\<close> against a server that has
  \<^verbatim>\<open>d/file\<close> yields \<^verbatim>\<open>get file\<close>, which names another file.
\<close>

theorem remote_completion_drops_directory:
  "let (r, server) = handle_completion_request completion_json completion_server_env Stateless \<lparr>cq_path = ''d/f''\<rparr> completion_server
   in r = Inr () \<and>
      fst (complete_line completion_json id completion_cli_env CompletePrompt (as_bytes ''get d/f'') 7 (completion_cli (outp server)))
        = Inr (Some (Applied (as_bytes ''get file '') 9))"
  by code_simp

text \<open>
  The position of an empty word is counted wrongly: the tokenizer appends the word at the cursor behind all the others,
  so words after the cursor count as words before it.  With the cursor after \<^verbatim>\<open>put\<close> a local path is completed
  on the line \<open>''put ''\<close>, but a remote path when another word follows.
\<close>

theorem completion_counts_later_words:
  "map_option (classify_completion_target CompletePrompt) (parse_line ''put '' 4) = Some (TargetPutLocal [])
   \<and> map_option (classify_completion_target CompletePrompt) (parse_line ''put  r'' 4) = Some (TargetGetRemote [])"
  by (rule conjI; code_simp)


end
