(* ===== verification/Connect_Session.thy ===== *)
theory Connect_Session
  imports Line_Completion Client_Session Pty_Session
begin

text \<open>
  The interactive session of the client: \<^verbatim>\<open>execute_local_command\<close> of \<^verbatim>\<open>src/cli/src/commands/connect/prompt.rs\<close> and
  the event loop of \<^verbatim>\<open>session.rs\<close>.  The loop is driven by a list of inputs, each saying which side of the
  \<^verbatim>\<open>select!\<close> is ready; the events of the terminal are a list of their own, because commands and the
  cursor query read from it too.  How many of them come before a transfer or a query ends is a parameter.
  The calls to the session are recorded.  The history files of the input engine are on a disk of their own.
\<close>

section \<open>Local commands\<close>

definition print_prompt :: "input_mode \<Rightarrow> (cli, cli_error, unit) op" where
  "print_prompt mode = (if mode = LocalEdit then say (crlf @ ''irosh> '') else retS ())"

definition help_text :: string where
  "help_text =
     ''Local prompt commands:'' @ crlf
     @ ''  put [-r] <local> [remote]   Upload a file or directory to the remote peer.'' @ crlf
     @ ''  get [-r] <remote> [local]   Download a file or directory from the remote peer.'' @ crlf
     @ ''  lpwd                        Print the current local transfer directory.'' @ crlf
     @ ''  lls [path]                  List files in a local directory.'' @ crlf
     @ ''  lcd <path>                  Change the local transfer directory.'' @ crlf
     @ ''  paths                       Show both local and remote transfer roots.'' @ crlf
     @ ''  clear                       Clear the local screen.'' @ crlf
     @ ''  exit                        Leave the irosh> prompt.'' @ crlf
     @ ''  disconnect                  Close the session entirely.'' @ crlf"

abbreviation quoted :: "string \<Rightarrow> string" where
  "quoted s \<equiv> [CHR 0x27] @ s @ [CHR 0x27]"

fun list_entries :: "disk \<Rightarrow> path \<Rightarrow> string list \<Rightarrow> string list" where
  "list_entries d dir [] = []"
| "list_entries d dir (n # names) =
     (if faults d (CallDirEntry (dir @ [Normal n])) then []
      else (if utf8_valid n then [(if is_dir d (dir @ [Normal n]) then ''[DIR] '' else ''      '') @ n] else [])
           @ list_entries d dir names)"

definition run_lls :: "path option \<Rightarrow> input_mode \<Rightarrow> string option \<Rightarrow> (cli, cli_error, bool \<times> u16) op" where
  "run_lls home mode path_opt s =
     (let target = (case path_opt of Some p \<Rightarrow> resolve_local_input_path home (cli_root s) p | None \<Rightarrow> cli_root s);
          d = fsys (peer s)
      in if is_dir d target
         then (let entries = sort_key byte_key (case fs_read_dir d target of Inl _ \<Rightarrow> [] | Inr names \<Rightarrow> list_entries d target names)
               in bindS (say (concat (map (\<lambda>e. e @ crlf) entries))) (\<lambda>_.
                  bindS (print_prompt mode) (\<lambda>_. retS (True, of_nat (length entries)))) s)
         else bindS (say (''Error: '' @ quoted (path_display target) @ '' is not a local directory'' @ crlf)) (\<lambda>_.
              bindS (print_prompt mode) (\<lambda>_. retS (True, 1))) s)"

definition run_lcd :: "path option \<Rightarrow> input_mode \<Rightarrow> string \<Rightarrow> (cli, cli_error, bool \<times> u16) op" where
  "run_lcd home mode path s =
     (let new_path = resolve_local_input_path home (cli_root s) path in
      bindS (if is_dir (fsys (peer s)) new_path
             then bindS (say (''Changed local directory to: '' @ path_display new_path @ crlf))
                    (\<lambda>_ s. (Inr (), s\<lparr>cli_root := new_path\<rparr>))
             else say (''Error: '' @ quoted path @ '' is not a valid local directory'' @ crlf)) (\<lambda>_.
      bindS (print_prompt mode) (\<lambda>_. retS (True, 1))) s)"

definition run_paths :: "serde_json \<Rightarrow> cli_env \<Rightarrow> input_mode \<Rightarrow> (cli, cli_error, bool \<times> u16) op" where
  "run_paths J env mode s =
     (let (remote, s1) =
        (if cwd_in_time env
         then (case on_peer (remote_cwd J (client env)) s of
                 (Inr p, s1) \<Rightarrow> (p, s1) | (Inl _, s1) \<Rightarrow> (''unknown (error)'', s1))
         else (''unknown (timeout)'', s))
      in bindS (say (''Local transfer root: '' @ path_display (cli_root s) @ crlf @ ''Remote transfer root: '' @ remote @ crlf))
           (\<lambda>_. bindS (print_prompt mode) (\<lambda>_. retS (True, 2))) s1)"

definition execute_local_command ::
  "serde_json \<Rightarrow> cli_env \<Rightarrow> nat \<Rightarrow> input_mode \<Rightarrow> local_command \<Rightarrow> (cli, cli_error, bool \<times> u16) op" where
  "execute_local_command J env n mode cmd =
     (case cmd of
        CmdHelp \<Rightarrow> bindS (say help_text) (\<lambda>_. bindS (print_prompt mode) (\<lambda>_. retS (True, 11)))
      | CmdExit \<Rightarrow> retS (True, 0)
      | CmdClear \<Rightarrow> bindS (say ([CHR 0x1B] @ ''[2J'' @ [CHR 0x1B] @ ''[H'')) (\<lambda>_. bindS (print_prompt mode) (\<lambda>_. retS (True, 0)))
      | CmdDisconnect \<Rightarrow> bindS (say (''[irosh] Disconnecting...'' @ crlf)) (\<lambda>_. retS (False, 1))
      | CmdLpwd \<Rightarrow> (\<lambda>s. bindS (say (''Local working directory: '' @ path_display (cli_root s) @ crlf)) (\<lambda>_.
                        bindS (print_prompt mode) (\<lambda>_. retS (True, 1))) s)
      | CmdLcd path \<Rightarrow> run_lcd (cli_home env) mode path
      | CmdLls path_opt \<Rightarrow> run_lls (cli_home env) mode path_opt
      | CmdPaths \<Rightarrow> run_paths J env mode
      | CmdPut local remote recursive \<Rightarrow>
          bindS (handle_put_command J env n local remote recursive) (\<lambda>_. bindS (print_prompt mode) (\<lambda>_. retS (True, 2)))
      | CmdGet remote local recursive \<Rightarrow>
          bindS (handle_get_command J env n remote local recursive) (\<lambda>_. bindS (print_prompt mode) (\<lambda>_. retS (True, 2)))
      | CmdUsageError msg \<Rightarrow> bindS (say (''Error: '' @ msg @ crlf)) (\<lambda>_. bindS (print_prompt mode) (\<lambda>_. retS (True, 1)))
      | CmdUnknown word \<Rightarrow>
          bindS (say (''Unknown command: '' @ quoted word @ ''. Type '' @ quoted ''help'' @ '' for available commands.'' @ crlf)) (\<lambda>_.
          bindS (print_prompt mode) (\<lambda>_. retS (True, 1))))"

section \<open>The state of the loop\<close>

datatype disconnect_reason = UserInitiated | RemoteClosed | ShellCrashed | SessionError

text \<open>How the loop ends: with a result, with an error, or in a panic.\<close>

datatype halt = Ended disconnect_reason | Failed cli_error | Panicked

text \<open>The field \<open>sh_shown\<close> records the remote output that was written to the terminal; the code does not have it.\<close>

record shell =
  sh_cli :: cli
  sh_engine :: input_engine
  sh_buffer :: bytes
  sh_shown :: bytes
  sh_stderr :: bytes

record shell_env =
  sh_json :: serde_json
  sh_env :: cli_env
  split_words :: splitter
  quote_word :: "string \<Rightarrow> string"
  send_ok :: "nat \<Rightarrow> bool"
  transfer_events :: nat
  query_events :: nat
  terminal_rows :: u16

type_synonym 'a shell_op = "(shell, halt, 'a) op"

definition on_cli :: "(cli, cli_error, 'a) op \<Rightarrow> 'a shell_op" where
  "on_cli f s = (case f (sh_cli s) of (r, c) \<Rightarrow> (map_err Failed r, s\<lparr>sh_cli := c\<rparr>))"

abbreviation say_bytes :: "bytes \<Rightarrow> unit shell_op" where
  "say_bytes bs \<equiv> on_cli (say (str_of_bytes bs))"

definition record_call :: "session_call \<Rightarrow> unit shell_op" where
  "record_call c s = (Inr (), s\<lparr>sh_cli := (sh_cli s)\<lparr>calls := calls (sh_cli s) @ [c]\<rparr>\<rparr>)"

text \<open>\<^verbatim>\<open>session.send\<close>, and whether it succeeds.\<close>

definition try_send :: "shell_env \<Rightarrow> bytes \<Rightarrow> bool shell_op" where
  "try_send env bs s =
     (if send_ok env (length (calls (sh_cli s))) then bindS (record_call (SessionSend bs)) (\<lambda>_. retS True) s
      else (Inr False, s))"

definition session_send :: "shell_env \<Rightarrow> bytes \<Rightarrow> unit shell_op" where
  "session_send env bs =
     bindS (try_send env bs) (\<lambda>ok. if ok then retS () else failS (Failed (CliClient (TransportUnavailable ''send''))))"

definition finish_remote_closed :: "'a shell_op" where
  "finish_remote_closed = bindS (record_call SessionDisconnect) (\<lambda>_. failS (Ended RemoteClosed))"

definition flush_remote_buffer :: "unit shell_op" where
  "flush_remote_buffer s =
     (if in_mode (sh_engine s) = Remote \<and> sh_buffer s \<noteq> []
      then bindS (say_bytes (sh_buffer s)) (\<lambda>_ s1. (Inr (), s1\<lparr>sh_shown := sh_shown s1 @ sh_buffer s1, sh_buffer := []\<rparr>)) s
      else (Inr (), s))"

section \<open>The cursor query\<close>

fun cpr_loop :: "bytes \<Rightarrow> terminal_event option list \<Rightarrow> bytes \<times> terminal_event option list" where
  "cpr_loop response [] = (response, [])"
| "cpr_loop response (Some (EvData data) # evs) =
     (let response' = response @ data in
      if response' \<noteq> [] \<and> last response' = 0x52 then (response', evs) else cpr_loop response' evs)"
| "cpr_loop response (_ # evs) = cpr_loop response evs"

fun csi_position :: "bytes \<Rightarrow> nat option" where
  "csi_position (a # b # bs) = (if a = 0x1B \<and> b = 0x5B then Some 0 else map_option Suc (csi_position (b # bs)))"
| "csi_position _ = None"

definition byte_position :: "u8 \<Rightarrow> bytes \<Rightarrow> nat option" where
  "byte_position b bs = (if b \<in> set bs then Some (length (takeWhile ((\<noteq>) b) bs)) else None)"

definition cpr_parse :: "bytes \<Rightarrow> u16 \<times> bytes" where
  "cpr_parse response =
     (case csi_position response of
        None \<Rightarrow> (0, response)
      | Some start \<Rightarrow>
          (case byte_position 0x52 (drop start response) of
             None \<Rightarrow> (0, response)
           | Some end_offset \<Rightarrow>
               let end_at = start + end_offset;
                   row_str = hd (split_on ((=) (CHR '';'')) (lossy (drop (start + 2) (take end_at response))))
               in (case parse_u16 row_str of Some r \<Rightarrow> r | None \<Rightarrow> 0,
                   take start response @ drop (end_at + 1) response)))"

definition query_cpr :: "shell_env \<Rightarrow> (u16 \<times> bytes) shell_op" where
  "query_cpr env =
     bindS (say_bytes [0x1B, 0x5B, 0x36, 0x6E]) (\<lambda>_ s.
     let evs = events (sh_cli s); (response, left) = cpr_loop [] (take (query_events env) evs) in
     (Inr (cpr_parse response), s\<lparr>sh_cli := (sh_cli s)\<lparr>events := left @ drop (query_events env) evs\<rparr>\<rparr>))"

section \<open>Actions\<close>

definition escape_help :: string where
  "escape_help =
     ''[irosh] Supported Escape Sequences:'' @ crlf
     @ ''  ~.  - Terminate connection'' @ crlf
     @ ''  ~C  - Open local command prompt'' @ crlf
     @ ''  ~?  - Display this help message'' @ crlf
     @ ''  ~~  - Send a literal tilde character'' @ crlf
     @ ''(Escape sequences are only recognized at the start of a line)'' @ crlf"

text \<open>The completion of the active line, \<^verbatim>\<open>InputEngine::complete_active_line\<close>.\<close>

definition run_completion :: "shell_env \<Rightarrow> unit shell_op" where
  "run_completion env s =
     (case active_line (sh_engine s) of
        None \<Rightarrow> (Inr (), s)
      | Some line \<Rightarrow>
          let mode = (if ed_mode (editor line) = EscapeMode then CompleteEscape else CompletePrompt) in
          (case complete_line (sh_json env) (quote_word env) (sh_env env) mode (ed_line (editor line)) (ed_cursor (editor line)) (sh_cli s) of
             (Inr None, c) \<Rightarrow> (Inl Panicked, s\<lparr>sh_cli := c\<rparr>)
           | (r, c) \<Rightarrow>
               let answer = (case r of Inr (Some a) \<Rightarrow> a | _ \<Rightarrow> NoCompletion);
                   (e, out) = complete_active_line (\<lambda>_. answer) (sh_engine s)
               in (if to_local out = [] then retS () else say_bytes (to_local out)) (s\<lparr>sh_cli := c, sh_engine := e\<rparr>)))"

definition sat_add :: "u16 \<Rightarrow> u16 \<Rightarrow> u16" where
  "sat_add a b = (if unat a + unat b < 65536 then a + b else 65535)"

definition sat_sub :: "u16 \<Rightarrow> u16 \<Rightarrow> u16" where
  "sat_sub a b = (if b \<le> a then a - b else 0)"

text \<open>What an action does, without the query before it: whether the session goes on and how many lines were printed.\<close>

definition perform_action :: "shell_env \<Rightarrow> escape_action \<Rightarrow> (bool \<times> u16) shell_op" where
  "perform_action env a s =
     (case a of
        ActDisconnect \<Rightarrow> bindS (on_cli (say (''[irosh] Disconnecting...'' @ crlf))) (\<lambda>_. retS (False, 0)) s
      | ActHelp \<Rightarrow> bindS (on_cli (say (escape_help @ crlf))) (\<lambda>_. bindS flush_remote_buffer (\<lambda>_. retS (True, 11))) s
      | ActCommandPrompt \<Rightarrow> (Inr (True, 0), s)
      | ActSendLiteral bs \<Rightarrow> bindS (session_send env bs) (\<lambda>_. retS (True, 0)) s
      | ActRunLocal cmd \<Rightarrow>
          bindS (on_cli (execute_local_command (sh_json env) (sh_env env) (transfer_events env) (in_mode (sh_engine s)) cmd))
            (\<lambda>(cont, lp). if cont then bindS flush_remote_buffer (\<lambda>_. retS (True, lp)) else retS (False, lp)) s
      | ActRequestCompletion \<Rightarrow> bindS (run_completion env) (\<lambda>_. retS (True, 0)) s)"

definition handle_action :: "shell_env \<Rightarrow> escape_action \<Rightarrow> (bool \<times> bytes) shell_op" where
  "handle_action env a s =
     (let windows = remote_is_windows (sh_engine s) in
      bindS (if windows then query_cpr env else retS (0, [])) (\<lambda>(before_row, swallowed).
      bindS (perform_action env a) (\<lambda>(cont, lines_printed).
      if \<not> cont then retS (False, swallowed)
      else if windows \<and> 0 < lines_printed \<and> 0 < sat_sub (sat_add before_row lines_printed) (terminal_rows env)
      then bindS (session_send env [0x0C, 0x0D]) (\<lambda>_. retS (True, swallowed))
      else retS (True, swallowed))) s)"

section \<open>The loop\<close>

text \<open>Typed bytes go through the input engine; what it forwards and echoes is delivered at once.\<close>

definition feed :: "shell_env \<Rightarrow> bytes \<Rightarrow> escape_action list shell_op" where
  "feed env data s =
     (case process_local (split_words env) data (sh_engine s) of
        None \<Rightarrow> (Inl Panicked, s)
      | Some (e, out) \<Rightarrow>
          bindS (if to_remote out = [] then retS True else try_send env (to_remote out)) (\<lambda>ok.
          if \<not> ok then finish_remote_closed
          else bindS (if to_local out = [] then retS () else say_bytes (to_local out)) (\<lambda>_. retS (actions out)))
            (s\<lparr>sh_engine := e\<rparr>))"

definition end_by_user :: "'a shell_op" where
  "end_by_user = bindS (record_call SessionDisconnect) (\<lambda>_. failS (Ended UserInitiated))"

subsection \<open>No step adds terminal events\<close>

definition never_grows :: "('s \<Rightarrow> nat) \<Rightarrow> ('s, 'e, 'a) op \<Rightarrow> bool" where
  "never_grows m f \<longleftrightarrow> (\<forall>s. m (snd (f s)) \<le> m s)"

abbreviation cli_events :: "cli \<Rightarrow> nat" where "cli_events c \<equiv> length (events c)"

abbreviation shell_events :: "shell \<Rightarrow> nat" where "shell_events s \<equiv> cli_events (sh_cli s)"

lemma never_growsD: "never_grows m f \<Longrightarrow> f s = (r, s') \<Longrightarrow> m s' \<le> m s"
  by (metis never_grows_def snd_conv)

lemma never_grows_basic [simp]: "never_grows m (retS x)" "never_grows m (failS e)"
  by (simp_all add: never_grows_def retS_def failS_def)

lemma never_grows_Pair [simp]: "never_grows m (Pair r)" "never_grows m (\<lambda>s. (g s, s))"
  by (simp_all add: never_grows_def)

lemma never_grows_bindS [intro!]:
  "never_grows m f \<Longrightarrow> (\<And>x. never_grows m (g x)) \<Longrightarrow> never_grows m (bindS f g)"
  unfolding never_grows_def bindS_def by (auto split: prod.split sum.split) (metis le_trans snd_conv)+

lemma never_grows_case_sum [intro]:
  "(\<And>x. never_grows m (f x)) \<Longrightarrow> (\<And>x. never_grows m (g x)) \<Longrightarrow> never_grows m (case_sum f g r)"
  by (cases r) simp_all

lemma never_grows_say [simp]: "never_grows cli_events (say t)"
  by (simp add: never_grows_def say_def)

lemma never_grows_on_peer [simp]: "never_grows cli_events (on_peer f)"
  by (simp add: never_grows_def on_peer_def split: prod.split)

lemma transfer_loop_shorter: "transfer_loop res evs cs = (r, left, cs') \<Longrightarrow> length left \<le> length evs"
  by (induction res evs cs rule: transfer_loop.induct) (auto split: if_splits)

lemma never_grows_await [simp]: "never_grows cli_events (await_transfer n res)"
  unfolding never_grows_def
proof
  fix s :: cli
  obtain r left cs where t: "transfer_loop res (take n (events s)) (calls s) = (r, left, cs)" by (metis prod_cases3)
  show "cli_events (snd (await_transfer n res s)) \<le> cli_events s"
    using transfer_loop_shorter [OF t] by (auto simp: await_transfer_def t)
qed

lemma never_grows_resolve [simp]: "never_grows cli_events (resolve_remote_path J env raw fb)"
  by (auto simp: resolve_remote_path_def Let_def split: option.split)

text \<open>For an operation that looks at the state first.\<close>

lemma never_growsI: "(\<And>s. m (snd (f s)) \<le> m s) \<Longrightarrow> never_grows m f"
  by (simp add: never_grows_def)

lemma never_grows_at:
  "cli_events (snd (say t c)) \<le> cli_events c"
  "never_grows m f \<Longrightarrow> (\<And>x. never_grows m (g x)) \<Longrightarrow> m (snd (bindS f g s)) \<le> m s"
  using never_grows_bindS [of m f g] never_grows_say [of t] by (simp_all add: never_grows_def)

lemma never_grows_put [simp]: "never_grows cli_events (handle_put_command J env n l r rec)"
  by (rule never_growsI)
    (auto simp: handle_put_command_def Let_def split: option.split sum.split intro!: never_grows_at)

lemma never_grows_get [simp]: "never_grows cli_events (handle_get_command J env n r l rec)"
  unfolding handle_get_command_def Let_def
  by (intro never_grows_bindS never_grows_resolve, rule never_growsI, rule never_grows_at(2)) (auto split: sum.split)

lemma never_grows_prompt [simp]: "never_grows cli_events (print_prompt mode)"
  by (simp add: print_prompt_def)

lemma never_grows_run:
  "never_grows cli_events (run_lls h mode po)" "never_grows cli_events (run_lcd h mode path)"
  "never_grows cli_events (run_paths J env mode)"
proof -
  show "never_grows cli_events (run_lls h mode po)"
    by (rule never_growsI) (auto simp: run_lls_def Let_def intro!: never_grows_at)
  have "never_grows cli_events (\<lambda>s. (Inr (), s\<lparr>cli_root := p\<rparr>))" for p by (simp add: never_grows_def)
  then show "never_grows cli_events (run_lcd h mode path)"
    by (intro never_growsI) (auto simp: run_lcd_def Let_def intro!: never_grows_at)
  show "never_grows cli_events (run_paths J env mode)"
    by (rule never_growsI) (auto simp: run_paths_def Let_def bindS_def say_def print_prompt_def retS_def on_peer_def
        split: prod.splits sum.splits)
qed

lemma never_grows_execute [simp]: "never_grows cli_events (execute_local_command J env n mode cmd)"
proof (cases cmd)
  case CmdLpwd
  then show ?thesis by (intro never_growsI) (auto simp: execute_local_command_def intro!: never_grows_at)
qed (auto simp: execute_local_command_def never_grows_run)

lemma never_grows_on_cli [simp]: "never_grows cli_events f \<Longrightarrow> never_grows shell_events (on_cli f)"
  by (simp add: never_grows_def on_cli_def split: prod.split) (metis snd_conv)

lemma never_grows_shell [simp]:
  "never_grows shell_events (record_call c)" "never_grows shell_events (try_send env bs)"
  "never_grows shell_events finish_remote_closed" "never_grows shell_events flush_remote_buffer"
proof -
  show rec: "never_grows shell_events (record_call c)" for c by (simp add: never_grows_def record_call_def)
  then show "never_grows shell_events finish_remote_closed" by (auto simp: finish_remote_closed_def)
  show "never_grows shell_events (try_send env bs)"
    by (rule never_growsI) (auto simp: try_send_def rec intro!: never_grows_at(2))
  have "never_grows shell_events (\<lambda>s. (Inr (), s\<lparr>sh_shown := sh_shown s @ sh_buffer s, sh_buffer := []\<rparr>))"
    by (simp add: never_grows_def)
  then show "never_grows shell_events flush_remote_buffer"
    by (intro never_growsI) (auto simp: flush_remote_buffer_def intro!: never_grows_at(2))
qed

lemma never_grows_send [simp]: "never_grows shell_events (session_send env bs)"
  by (auto simp: session_send_def)

lemma never_grows_complete_line [simp]: "never_grows cli_events (complete_line J q env mode line cursor)"
  by (auto simp: complete_line_def complete_remote_path_def split: option.split completion_target.split)

lemma shell_events_say [simp]: "shell_events (snd (on_cli (say t) s)) = shell_events s"
  by (simp add: on_cli_def say_def)

lemma never_grows_completion [simp]: "never_grows shell_events (run_completion env)"
proof (rule never_growsI)
  fix s
  show "shell_events (snd (run_completion env s)) \<le> shell_events s"
  proof (cases "active_line (sh_engine s)")
    case (Some line)
    let ?mode = "if ed_mode (editor line) = EscapeMode then CompleteEscape else CompletePrompt"
    obtain r c where run: "complete_line (sh_json env) (quote_word env) (sh_env env) ?mode
        (ed_line (editor line)) (ed_cursor (editor line)) (sh_cli s) = (r, c)" by (rule prod.exhaust)
    then have "cli_events c \<le> cli_events (sh_cli s)" by (rule never_growsD [OF never_grows_complete_line])
    then show ?thesis unfolding run_completion_def Some Let_def option.case run
      by (simp add: split_def retS_def split: sum.split option.split)
  qed (simp add: run_completion_def)
qed

lemma never_grows_perform [simp]: "never_grows shell_events (perform_action env a)"
proof (rule never_growsI)
  fix s
  show "shell_events (snd (perform_action env a s)) \<le> shell_events s"
    by (cases a) (auto simp: perform_action_def split: prod.split intro!: never_grows_at(2))
qed

lemma cpr_loop_shorter:
  "cpr_loop r evs = (r', left) \<Longrightarrow> length left \<le> length evs \<and> (r' \<noteq> r \<longrightarrow> length left < length evs)"
proof (induction r evs arbitrary: r' left rule: cpr_loop.induct)
  case (2 r data evs)
  show ?case
  proof (cases "r @ data \<noteq> [] \<and> last (r @ data) = 0x52")
    case True
    then show ?thesis using "2.prems" by (simp only: cpr_loop.simps Let_def if_True) simp
  next
    case False
    then have "cpr_loop (r @ data) evs = (r', left)" using "2.prems" by (simp only: cpr_loop.simps Let_def if_False)
    from "2.IH" [OF refl False this] show ?thesis by simp
  qed
qed force+

lemma cpr_parse_nonempty: "cpr_parse response = (row, extra) \<Longrightarrow> extra \<noteq> [] \<Longrightarrow> response \<noteq> []"
  by (auto simp: cpr_parse_def)

lemma query_cpr_consumes:
  assumes "query_cpr env s = (Inr (row, extra), s')"
  shows "shell_events s' \<le> shell_events s \<and> (extra \<noteq> [] \<longrightarrow> shell_events s' < shell_events s)"
proof -
  obtain response left where loop: "cpr_loop [] (take (query_events env) (events (sh_cli s))) = (response, left)"
    by (rule prod.exhaust)
  have "cpr_parse response = (row, extra)" and ev: "events (sh_cli s') = left @ drop (query_events env) (events (sh_cli s))"
    using assms by (auto simp: query_cpr_def bindS_def on_cli_def say_def loop)
  then show ?thesis using cpr_loop_shorter [OF loop] cpr_parse_nonempty [of response row extra] by auto
qed

text \<open>The part of \<open>handle_action\<close> after the query.\<close>

definition after_query :: "shell_env \<Rightarrow> escape_action \<Rightarrow> bool \<Rightarrow> u16 \<Rightarrow> bytes \<Rightarrow> (bool \<times> bytes) shell_op" where
  "after_query env a windows before_row swallowed =
     bindS (perform_action env a) (\<lambda>(cont, lines_printed).
      if \<not> cont then retS (False, swallowed)
      else if windows \<and> 0 < lines_printed \<and> 0 < sat_sub (sat_add before_row lines_printed) (terminal_rows env)
      then bindS (session_send env [0x0C, 0x0D]) (\<lambda>_. retS (True, swallowed))
      else retS (True, swallowed))"

lemma handle_action_eq:
  "handle_action env a s =
     (let windows = remote_is_windows (sh_engine s) in
      bindS (if windows then query_cpr env else retS (0, [])) (\<lambda>(b, sw). after_query env a windows b sw) s)"
  by (simp add: handle_action_def after_query_def)

lemma never_grows_after_query: "never_grows shell_events (after_query env a w b sw)"
  unfolding after_query_def by (intro never_grows_bindS never_grows_perform) (auto split: prod.split)

lemmas after_query_consumes = never_growsD [OF never_grows_after_query]

lemma after_query_swallowed: "after_query env a w b sw s = (Inr (cont, sw'), s') \<Longrightarrow> sw' = sw"
  by (auto simp: after_query_def bindS_def retS_def split: prod.splits sum.splits if_splits)

lemma query_result:
  obtains row extra s1 where "(if w then query_cpr env else retS (0, [])) s = (Inr (row, extra), s1)"
    "shell_events s1 \<le> shell_events s" "extra \<noteq> [] \<longrightarrow> shell_events s1 < shell_events s"
proof (cases w)
  case True
  have "\<not> isl (fst (query_cpr env s))"
    by (simp add: query_cpr_def bindS_def on_cli_def say_def map_err_def Let_def split_def)
  then obtain row extra s1 where "query_cpr env s = (Inr (row, extra), s1)"
    by (cases "query_cpr env s"; cases "fst (query_cpr env s)") auto
  then show thesis using that query_cpr_consumes True by auto
qed (use that in \<open>simp add: retS_def\<close>)

lemma handle_action_consumes:
  assumes "handle_action env a s = (r, s')"
  shows "shell_events s' \<le> shell_events s
    \<and> (\<forall>cont swallowed. r = Inr (cont, swallowed) \<longrightarrow> swallowed \<noteq> [] \<longrightarrow> shell_events s' < shell_events s)"
proof -
  let ?w = "remote_is_windows (sh_engine s)"
  obtain row extra s1 where q: "(if ?w then query_cpr env else retS (0, [])) s = (Inr (row, extra), s1)"
      "shell_events s1 \<le> shell_events s" "extra \<noteq> [] \<longrightarrow> shell_events s1 < shell_events s" by (rule query_result)
  then have "after_query env a ?w row extra s1 = (r, s')" using assms by (simp add: handle_action_eq Let_def bindS_def)
  then show ?thesis using after_query_consumes after_query_swallowed q(2,3) by fastforce
qed

lemma feed_events: "feed env data s = (r, s') \<Longrightarrow> shell_events s' = shell_events s"
  by (auto simp: feed_def bindS_def retS_def failS_def try_send_def record_call_def finish_remote_closed_def on_cli_def say_def
      split: option.splits prod.splits sum.splits if_splits)

subsection \<open>The action queue and the event loop\<close>

function actions_loop :: "shell_env \<Rightarrow> escape_action list \<Rightarrow> unit shell_op" where
  "actions_loop env [] s = (Inr (), s)"
| "actions_loop env (a # queue) s =
     (case handle_action env a s of
        (Inl h, s1) \<Rightarrow> (Inl h, s1)
      | (Inr (cont, swallowed), s1) \<Rightarrow>
          (if swallowed = [] then (if \<not> cont then end_by_user s1 else actions_loop env queue s1)
           else (case feed env swallowed s1 of
                   (Inl h, s2) \<Rightarrow> (Inl h, s2)
                 | (Inr extra, s2) \<Rightarrow> if \<not> cont then end_by_user s2 else actions_loop env (queue @ extra) s2)))"
  by pat_completeness auto
termination
proof (relation "measures [\<lambda>(env, q, s). shell_events s, \<lambda>(env, q, s). length q]")
  fix env :: shell_env and a queue s r s1 x cont swallowed
  assume "(r, s1) = handle_action env a s" and r: "r = Inr x" "(cont, swallowed) = x"
  then have step: "handle_action env a s = (Inr (cont, swallowed), s1)" by simp
  note le = handle_action_consumes [OF step]
  then show "((env, queue, s1), env, a # queue, s) \<in> measures [\<lambda>(env, q, s). shell_events s, \<lambda>(env, q, s). length q]"
    by auto
  fix r2 s2 extra
  assume "swallowed \<noteq> []" and "(r2, s2) = feed env swallowed s1" and "r2 = Inr extra"
  then have "shell_events s2 < shell_events s" using le feed_events [of env swallowed s1 r2 s2] by simp
  then show "((env, queue @ extra, s2), env, a # queue, s) \<in> measures [\<lambda>(env, q, s). shell_events s, \<lambda>(env, q, s). length q]"
    by auto
qed simp

text \<open>Which side of the \<^verbatim>\<open>select!\<close> is ready; a session that fails or has ended yields no event.\<close>

datatype shell_input = FromTerminal | FromSession "session_event option"

definition terminal_step :: "shell_env \<Rightarrow> unit shell_op" where
  "terminal_step env s =
     (case events (sh_cli s) of
        [] \<Rightarrow> (Inr (), s)
      | ev # evs \<Rightarrow>
          let s1 = s\<lparr>sh_cli := (sh_cli s)\<lparr>events := evs\<rparr>\<rparr> in
          (case ev of
             Some (EvData data) \<Rightarrow> bindS (feed env data) (actions_loop env) s1
           | Some (EvResize dims) \<Rightarrow>
               bindS (record_call (SessionResize dims)) (\<lambda>_ s2.
                 case handle_resize (sh_engine s2) of
                   (e, None) \<Rightarrow> (Inr (), s2\<lparr>sh_engine := e\<rparr>)
                 | (e, Some out) \<Rightarrow> say_bytes (to_local out) (s2\<lparr>sh_engine := e\<rparr>)) s1
           | None \<Rightarrow> bindS (record_call SessionEof) (\<lambda>_. end_by_user) s1))"

definition session_step :: "session_event option \<Rightarrow> unit shell_op" where
  "session_step ev s =
     (case ev of
        Some (SessionData data) \<Rightarrow>
          let s1 = s\<lparr>sh_engine := observe_remote data (sh_engine s)\<rparr> in
          if in_mode (sh_engine s1) = LocalEdit then (Inr (), s1\<lparr>sh_buffer := sh_buffer s1 @ data\<rparr>)
          else bindS (say_bytes data) (\<lambda>_ s2. (Inr (), s2\<lparr>sh_shown := sh_shown s2 @ data\<rparr>)) s1
      | Some (SessionExtended data ext) \<Rightarrow> (Inr (), s\<lparr>sh_stderr := sh_stderr s @ data\<rparr>)
      | Some SessionClosed \<Rightarrow> finish_remote_closed s
      | None \<Rightarrow> finish_remote_closed s
      | Some _ \<Rightarrow> (Inr (), s))"

definition shell_step :: "shell_env \<Rightarrow> shell_input \<Rightarrow> unit shell_op" where
  "shell_step env i = (case i of FromTerminal \<Rightarrow> terminal_step env | FromSession ev \<Rightarrow> session_step ev)"

fun drive_session :: "shell_env \<Rightarrow> shell_input list \<Rightarrow> unit shell_op" where
  "drive_session env [] s = (Inr (), s)"
| "drive_session env (i # is) s = bindS (shell_step env i) (\<lambda>_. drive_session env is) s"

end
