(* ===== verification/Connect_Safety.thy ===== *)
theory Connect_Safety
  imports Connect_Session Input_Safety "HOL-Library.Multiset"
begin

text \<open>
  What holds of every interactive session: the loop never panics, no byte of the remote side is lost,
  the directory for transfers stays a directory, and the query for the cursor keeps what was typed.
\<close>

section \<open>Triples over the operations of the loop\<close>

text \<open>\<open>keeps P f\<close>: from a state with \<open>P\<close> the operation ends in a state with \<open>P\<close>, and not in a panic.\<close>

definition keeps :: "(shell \<Rightarrow> bool) \<Rightarrow> 'a shell_op \<Rightarrow> bool" where
  "keeps P f \<longleftrightarrow> (\<forall>s r s'. P s \<longrightarrow> f s = (r, s') \<longrightarrow> P s' \<and> r \<noteq> Inl Panicked)"

lemma keepsD: "keeps P f \<Longrightarrow> P s \<Longrightarrow> f s = (r, s') \<Longrightarrow> P s' \<and> r \<noteq> Inl Panicked"
  by (auto simp: keeps_def)

lemma keepsI: "(\<And>s r s'. P s \<Longrightarrow> f s = (r, s') \<Longrightarrow> P s' \<and> r \<noteq> Inl Panicked) \<Longrightarrow> keeps P f"
  by (auto simp: keeps_def)

lemma keeps_retS [simp]: "keeps P (retS x)"
  by (simp add: keeps_def retS_def)

lemma keeps_failS [simp]: "keeps P (failS h) \<longleftrightarrow> h \<noteq> Panicked \<or> (\<forall>s. \<not> P s)"
  by (auto simp: keeps_def failS_def)

lemma keeps_bindS [intro!]: "keeps P f \<Longrightarrow> (\<And>x. keeps P (g x)) \<Longrightarrow> keeps P (bindS f g)"
  by (rule keepsI) (fastforce simp: bindS_def dest: keepsD split: prod.splits sum.splits)

text \<open>The state that the terminal and the session calls do not touch.\<close>

definition outside :: "(shell \<Rightarrow> bool) \<Rightarrow> bool" where
  "outside P \<longleftrightarrow> (\<forall>s c. P (s\<lparr>sh_cli := c\<rparr>) = P s)"

lemma keeps_on_cli [intro]: "outside P \<Longrightarrow> keeps P (on_cli f)"
  by (rule keepsI) (auto simp: on_cli_def outside_def map_err_def split: prod.splits sum.splits)

lemma keeps_record_call [intro]: "outside P \<Longrightarrow> keeps P (record_call c)"
  by (rule keepsI) (auto simp: record_call_def outside_def)

lemma keeps_try_send [intro]: "outside P \<Longrightarrow> keeps P (try_send env bs)"
  using keepsD [OF keeps_bindS [OF keeps_record_call [of P "SessionSend bs"], of "\<lambda>_. retS True"]]
  by (intro keepsI) (auto simp: try_send_def split: if_splits)

lemma keeps_send [intro]: "outside P \<Longrightarrow> keeps P (session_send env bs)"
  by (auto simp: session_send_def)

lemma keeps_ends [intro]: "outside P \<Longrightarrow> keeps P finish_remote_closed" "outside P \<Longrightarrow> keeps P end_by_user"
  by (auto simp: finish_remote_closed_def end_by_user_def)

lemma keeps_query [intro]: "outside P \<Longrightarrow> keeps P (query_cpr env)"
  unfolding query_cpr_def by (intro keeps_bindS keeps_on_cli keepsI) (auto simp: outside_def Let_def split: prod.splits)

section \<open>The invariant\<close>

text \<open>The engine is well-formed, and the remote output \<open>m\<close> is on the terminal or waits in the buffer.\<close>

definition kept :: "u8 multiset \<Rightarrow> shell \<Rightarrow> bool" where
  "kept m s \<longleftrightarrow> wf_engine (sh_engine s) \<and> mset (sh_shown s) + mset (sh_buffer s) = m"

lemma outside_kept [simp]: "outside (kept m)"
  by (simp add: outside_def kept_def)

lemmas keeps_kept [simp, intro!] =
  keeps_on_cli [OF outside_kept] keeps_record_call [OF outside_kept] keeps_try_send [OF outside_kept]
  keeps_send [OF outside_kept] keeps_ends [OF outside_kept] keeps_query [OF outside_kept]

lemma keeps_flush [simp, intro!]: "keeps (kept m) flush_remote_buffer"
  by (rule keepsI)
    (auto simp: flush_remote_buffer_def bindS_def on_cli_def say_def kept_def split: if_splits)

lemma keeps_feed [simp, intro!]: "keeps (kept m) (feed env data)"
proof (rule keepsI)
  fix s r s'
  assume k: "kept m s" and run: "feed env data s = (r, s')"
  then obtain e out where p: "process_local (split_words env) data (sh_engine s) = Some (e, out)" "wf_engine e"
    using process_local_progress [of "sh_engine s" "split_words env" data] by (auto simp: kept_def)
  then have "kept m (s\<lparr>sh_engine := e\<rparr>)" using k by (simp add: kept_def)
  moreover have "keeps (kept m) (bindS (if to_remote out = [] then retS True else try_send env (to_remote out)) (\<lambda>ok.
      if \<not> ok then finish_remote_closed
      else bindS (if to_local out = [] then retS () else say_bytes (to_local out)) (\<lambda>_. retS (actions out))))"
    by auto
  ultimately show "kept m s' \<and> r \<noteq> Inl Panicked" using run p(1) by (auto simp: feed_def dest: keepsD)
qed

lemma keeps_completion [simp, intro!]: "keeps (kept m) (run_completion env)"
proof (rule keepsI)
  fix s r s'
  assume k: "kept m s" and run: "run_completion env s = (r, s')"
  show "kept m s' \<and> r \<noteq> Inl Panicked"
  proof (cases "active_line (sh_engine s)")
    case None
    then show ?thesis using k run by (auto simp: run_completion_def)
  next
    case (Some line)
    let ?mode = "if ed_mode (editor line) = EscapeMode then CompleteEscape else CompletePrompt"
    obtain a c where c: "complete_line (sh_json env) (quote_word env) (sh_env env) ?mode
        (ed_line (editor line)) (ed_cursor (editor line)) (sh_cli s) = (a, c)" by (rule prod.exhaust)
    have no_panic: "a \<noteq> Inr None" using complete_line_edit c by blast
    let ?answer = "case a of Inr (Some x) \<Rightarrow> x | _ \<Rightarrow> NoCompletion"
    obtain e out where e: "complete_active_line (\<lambda>_. ?answer) (sh_engine s) = (e, out)" by (rule prod.exhaust)
    have "wf_engine e" using complete_wf [of "sh_engine s" "\<lambda>_. ?answer"] k e by (simp add: kept_def)
    then have "kept m (s\<lparr>sh_cli := c, sh_engine := e\<rparr>)" using k by (simp add: kept_def)
    moreover have "(if to_local out = [] then retS () else say_bytes (to_local out)) (s\<lparr>sh_cli := c, sh_engine := e\<rparr>) = (r, s')"
      using run no_panic e unfolding run_completion_def Some Let_def option.case c
      by (auto split: sum.splits option.splits)
    moreover have "keeps (kept m) (if to_local out = [] then retS () else say_bytes (to_local out))" by auto
    ultimately show ?thesis by (blast dest: keepsD)
  qed
qed

lemma keeps_perform [simp, intro!]: "keeps (kept m) (perform_action env a)"
proof (rule keepsI)
  fix s r s'
  assume k: "kept m s" and run: "perform_action env a s = (r, s')"
  let ?f = "case a of
      ActDisconnect \<Rightarrow> bindS (on_cli (say (''[irosh] Disconnecting...'' @ crlf))) (\<lambda>_. retS (False, 0))
    | ActHelp \<Rightarrow> bindS (on_cli (say (escape_help @ crlf))) (\<lambda>_. bindS flush_remote_buffer (\<lambda>_. retS (True, 11)))
    | ActCommandPrompt \<Rightarrow> retS (True, 0)
    | ActSendLiteral bs \<Rightarrow> bindS (session_send env bs) (\<lambda>_. retS (True, 0))
    | ActRunLocal cmd \<Rightarrow>
        bindS (on_cli (execute_local_command (sh_json env) (sh_env env) (transfer_events env) (in_mode (sh_engine s)) cmd))
          (\<lambda>(cont, lp). if cont then bindS flush_remote_buffer (\<lambda>_. retS (True, lp)) else retS (False, lp))
    | ActRequestCompletion \<Rightarrow> bindS (run_completion env) (\<lambda>_. retS (True, 0))"
  have "keeps (kept m) ?f" by (cases a) (auto split: prod.split)
  moreover have "?f s = (r, s')" using run by (cases a) (simp_all add: perform_action_def retS_def)
  ultimately show "kept m s' \<and> r \<noteq> Inl Panicked" using k by (blast dest: keepsD)
qed

lemma keeps_handle_action [simp, intro!]: "keeps (kept m) (handle_action env a)"
proof (rule keepsI)
  fix s :: shell and r s'
  let ?w = "remote_is_windows (sh_engine s)"
  let ?f = "bindS (if ?w then query_cpr env else retS (0, [])) (\<lambda>(b, sw). after_query env a ?w b sw)"
  assume "kept m s" and "handle_action env a s = (r, s')"
  moreover from this(2) have "?f s = (r, s')" by (simp add: handle_action_eq Let_def)
  moreover have "keeps (kept m) ?f" by (auto simp: after_query_def split: prod.split)
  ultimately show "kept m s' \<and> r \<noteq> Inl Panicked" by (blast dest: keepsD)
qed

lemma actions_loop_kept:
  "kept m s \<Longrightarrow> actions_loop env queue s = (r, s') \<Longrightarrow> kept m s' \<and> r \<noteq> Inl Panicked"
proof (induction env queue s arbitrary: r s' rule: actions_loop.induct)
  case (2 env a queue s)
  obtain ra s1 where a: "handle_action env a s = (ra, s1)" by (rule prod.exhaust)
  have k1: "kept m s1" and "ra \<noteq> Inl Panicked" using keepsD [OF keeps_handle_action "2.prems"(1) a] by auto
  have stop: "kept m s' \<and> r \<noteq> Inl Panicked" if "kept m t" "end_by_user t = (r, s')" for t
    using keepsD [OF keeps_ends(2) [OF outside_kept] that] by simp
  show ?case
  proof (cases ra)
    case (Inl h)
    then show ?thesis using "2.prems"(2) k1 \<open>ra \<noteq> Inl Panicked\<close> a by auto
  next
    case (Inr x)
    obtain cont sw where x: "x = (cont, sw)" by (rule prod.exhaust)
    note a' = a [unfolded Inr x]
    obtain rf s2 where f: "feed env sw s1 = (rf, s2)" by (rule prod.exhaust)
    have k2: "kept m s2" "rf \<noteq> Inl Panicked" using keepsD [OF keeps_feed k1 f] by auto
    show ?thesis
    proof (cases "sw = []")
      case True
      then show ?thesis using "2.prems"(2) "2.IH"(1) [OF a' [symmetric]] k1 stop [OF k1] a' by (auto split: if_splits)
    next
      case sw: False
      show ?thesis
      proof (cases rf)
        case (Inl h)
        then show ?thesis using "2.prems"(2) k2 a' f sw by auto
      next
        case (Inr extra)
        then show ?thesis
          using "2.prems"(2) "2.IH"(2) [OF a' [symmetric] refl refl sw f [symmetric] Inr] k2 stop [OF k2(1)] a' f sw
          by (auto split: if_splits)
      qed
    qed
  qed
qed auto

lemma keeps_terminal_step: "keeps (kept m) (terminal_step env)"
proof (rule keepsI)
  fix s r s'
  assume k: "kept m s" and run: "terminal_step env s = (r, s')"
  show "kept m s' \<and> r \<noteq> Inl Panicked"
  proof (cases "events (sh_cli s)")
    case Nil
    then show ?thesis using k run by (auto simp: terminal_step_def)
  next
    case (Cons ev evs)
    let ?s1 = "s\<lparr>sh_cli := (sh_cli s)\<lparr>events := evs\<rparr>\<rparr>"
    have loop: "keeps (kept m) (actions_loop env q)" for q by (rule keepsI) (rule actions_loop_kept)
    have resize: "keeps (kept m) (\<lambda>s2. case handle_resize (sh_engine s2) of
           (e, None) \<Rightarrow> (Inr (), s2\<lparr>sh_engine := e\<rparr>)
         | (e, Some out) \<Rightarrow> say_bytes (to_local out) (s2\<lparr>sh_engine := e\<rparr>))"
    proof (rule keepsI)
      fix t q t'
      assume t: "kept m t" "(case handle_resize (sh_engine t) of
           (e, None) \<Rightarrow> (Inr (), t\<lparr>sh_engine := e\<rparr>)
         | (e, Some out) \<Rightarrow> say_bytes (to_local out) (t\<lparr>sh_engine := e\<rparr>)) = (q, t')"
      obtain e o' where h: "handle_resize (sh_engine t) = (e, o')" by (rule prod.exhaust)
      have "kept m (t\<lparr>sh_engine := e\<rparr>)" using t(1) resize_wf [of "sh_engine t"] h by (simp add: kept_def)
      then show "kept m t' \<and> q \<noteq> Inl Panicked"
        using t(2) h by (cases o') (auto dest: keepsD [OF keeps_on_cli [OF outside_kept]])
    qed
    define f where "f = (case ev of
        Some (EvData data) \<Rightarrow> bindS (feed env data) (actions_loop env)
      | Some (EvResize dims) \<Rightarrow> bindS (record_call (SessionResize dims)) (\<lambda>_ s2.
           case handle_resize (sh_engine s2) of
             (e, None) \<Rightarrow> (Inr (), s2\<lparr>sh_engine := e\<rparr>)
           | (e, Some out) \<Rightarrow> say_bytes (to_local out) (s2\<lparr>sh_engine := e\<rparr>))
      | None \<Rightarrow> bindS (record_call SessionEof) (\<lambda>_. end_by_user))"
    have "keeps (kept m) f" unfolding f_def by (auto simp: loop resize split: option.split terminal_event.split)
    moreover have "f ?s1 = (r, s')"
      using run Cons by (auto simp: terminal_step_def f_def Let_def split: option.splits terminal_event.splits)
    moreover have "kept m ?s1" using k by (simp add: kept_def)
    ultimately show ?thesis by (blast dest: keepsD)
  qed
qed

text \<open>The remote output that an input carries.\<close>

fun remote_output :: "shell_input \<Rightarrow> bytes" where
  "remote_output (FromSession (Some (SessionData data))) = data"
| "remote_output _ = []"

lemma shell_step_kept:
  assumes "kept m s" and "shell_step env i s = (r, s')"
  shows "kept (m + mset (remote_output i)) s' \<and> r \<noteq> Inl Panicked"
proof (cases i)
  case FromTerminal
  then show ?thesis using keepsD [OF keeps_terminal_step assms(1)] assms(2) by (simp add: shell_step_def)
next
  case (FromSession ev)
  have closed: "kept m s' \<and> r \<noteq> Inl Panicked" if "finish_remote_closed s = (r, s')"
    using keepsD [OF keeps_ends(1) [OF outside_kept] assms(1)] that by blast
  show ?thesis
  proof (cases "\<exists>data. ev = Some (SessionData data)")
    case True
    then show ?thesis
      using assms FromSession
      by (auto simp: shell_step_def session_step_def kept_def bindS_def on_cli_def say_def Let_def split: if_splits)
  next
    case False
    then have "remote_output i = []" by (cases i rule: remote_output.cases) (auto simp: FromSession)
    then show ?thesis
      using assms FromSession False closed
      by (auto simp: shell_step_def session_step_def kept_def split: option.splits session_event.splits)
  qed
qed

lemma drive_session_kept:
  "kept m s \<Longrightarrow> drive_session env is s = (r, s') \<Longrightarrow>
   r \<noteq> Inl Panicked \<and> (\<exists>n. kept (m + mset (concat (map remote_output (take n is)))) s' \<and> (r = Inr () \<longrightarrow> n = length is))"
proof (induction "is" arbitrary: m s)
  case (Cons i "is")
  obtain r1 s1 where step: "shell_step env i s = (r1, s1)" by (rule prod.exhaust)
  have k: "kept (m + mset (remote_output i)) s1" "r1 \<noteq> Inl Panicked" using shell_step_kept [OF Cons.prems(1) step] by auto
  show ?case
  proof (cases r1)
    case (Inl h)
    then show ?thesis using Cons.prems(2) step k by (auto simp: bindS_def intro: exI [of _ 1])
  next
    case (Inr u)
    then have "drive_session env is s1 = (r, s')" using Cons.prems(2) step by (simp add: bindS_def)
    from Cons.IH [OF k(1) this] obtain n where "r \<noteq> Inl Panicked"
        "kept (m + mset (remote_output i) + mset (concat (map remote_output (take n is)))) s'" "r = Inr () \<longrightarrow> n = length is"
      by blast
    then show ?thesis by (intro conjI exI [of _ "Suc n"]) (auto simp: ac_simps)
  qed
qed (auto intro: exI [of _ 0])


section \<open>The directory for transfers\<close>

text \<open>Commands talk to the peer and print; none of them writes to the disk in the model.\<close>

definition rooted :: "cli \<Rightarrow> bool" where
  "rooted c \<longleftrightarrow> is_dir (fsys (peer c)) (cli_root c)"

definition keeps_root :: "(cli, cli_error, 'a) op \<Rightarrow> bool" where
  "keeps_root f \<longleftrightarrow> (\<forall>c. fsys (peer (snd (f c))) = fsys (peer c) \<and> cli_root (snd (f c)) = cli_root c)"

lemma keeps_root_bindS [intro!]: "keeps_root f \<Longrightarrow> (\<And>x. keeps_root (g x)) \<Longrightarrow> keeps_root (bindS f g)"
  unfolding keeps_root_def bindS_def by (auto split: prod.split sum.split) (metis snd_conv)+

lemma keeps_root_basic [simp]: "keeps_root (retS x)" "keeps_root (failS e)" "keeps_root (say t)" "keeps_root (print_prompt mode)"
  "keeps_root (await_transfer n res)"
  by (simp_all add: keeps_root_def retS_def failS_def say_def print_prompt_def await_transfer_def split_def)

lemma keeps_root_remote_cwd [simp]: "keeps_root (on_peer (remote_cwd J env))"
proof -
  have "fsys (snd (remote_cwd J env p)) = fsys p" for p
    by (auto simp: remote_cwd_def open_transfer_stream_def bindS_def errS_def put_frame_def take_frame_def retS_def failS_def
        split: sum.split prod.split transfer_frame.split)
  then show ?thesis by (simp add: keeps_root_def on_peer_def split_def)
qed

lemma keeps_root_resolve [simp]: "keeps_root (resolve_remote_path J env raw fb)"
  by (auto simp: resolve_remote_path_def Let_def split: option.split)

lemma keeps_rootI: "(\<And>c. keeps_root (f c)) \<Longrightarrow> keeps_root (\<lambda>c. f c c)"
  by (simp add: keeps_root_def)

lemma keeps_root_case_sum [intro]:
  "(\<And>x. keeps_root (f x)) \<Longrightarrow> (\<And>x. keeps_root (g x)) \<Longrightarrow> keeps_root (case_sum f g r)"
  by (cases r) simp_all

lemma keeps_root_put: "keeps_root (handle_put_command J env n l r rec)"
proof -
  let ?f = "\<lambda>c. let local_path = resolve_local_input_path (cli_home env) (cli_root c) l in
     if \<not> path_exists (fsys (peer c)) local_path
     then say (''Local file not found: '' @ path_display local_path)
     else case portable_file_name (path_display local_path) of
       None \<Rightarrow> failS (CliMessage ''local path has no file name'')
     | Some local_name \<Rightarrow>
         bindS (resolve_remote_path J env r (Some local_name)) (\<lambda>remote_path.
         bindS (say (''[local] '' @ path_display local_path @ '' -> [remote] '' @ remote_path @ crlf)) (\<lambda>_.
         bindS (await_transfer n (upload_blob env local_path remote_path)) (\<lambda>res.
         case res of
           Inr hash \<Rightarrow> bindS (say (''Uploaded '' @ local_name @ crlf)) (\<lambda>_. say (''BLAKE3:  '' @ hash @ crlf))
         | Inl err \<Rightarrow> say (upload_failure_text env local_name remote_path err))))"
  have "keeps_root (?f c)" for c by (auto simp: Let_def split: option.split)
  then have "keeps_root (\<lambda>c. ?f c c)" by (rule keeps_rootI)
  moreover have "handle_put_command J env n l r rec = (\<lambda>c. ?f c c)"
    by (auto simp: handle_put_command_def Let_def failS_def split: option.split)
  ultimately show ?thesis by simp
qed

lemma keeps_root_at:
  assumes "keeps_root f" and "\<And>x. keeps_root (g x)"
  shows "fsys (peer (snd (bindS f g c))) = fsys (peer c) \<and> cli_root (snd (bindS f g c)) = cli_root c"
  using keeps_root_bindS [OF assms] by (simp add: keeps_root_def)

lemma keeps_root_get: "keeps_root (handle_get_command J env n r l rec)"
  unfolding handle_get_command_def Let_def
proof (intro keeps_root_bindS keeps_root_resolve, unfold keeps_root_def, rule allI, rule keeps_root_at)
qed (auto simp: Let_def)

text \<open>The listing, the paths and the current directory leave the directory for transfers as it is.\<close>

lemma keeps_root_listing: "keeps_root (run_lls h mode po)" "keeps_root (run_paths J env mode)"
proof -
  show "keeps_root (run_lls h mode po)"
    by (simp add: keeps_root_def run_lls_def Let_def bindS_def say_def print_prompt_def retS_def)
  have cwd: "fsys (peer c') = fsys (peer c) \<and> cli_root c' = cli_root c" if "on_peer (remote_cwd J e) c = (q, c')" for e c q c'
    using keeps_root_remote_cwd [of J e] that by (auto simp: keeps_root_def dest: spec [of _ c])
  show "keeps_root (run_paths J env mode)"
    using cwd by (auto simp: keeps_root_def run_paths_def Let_def bindS_def say_def print_prompt_def retS_def
        split: prod.split sum.split)
qed

lemma execute_keeps_root:
  assumes "\<And>path. cmd \<noteq> CmdLcd path"
  shows "keeps_root (execute_local_command J env n mode cmd)"
proof (cases cmd)
  case CmdLpwd
  then show ?thesis
    by (simp add: execute_local_command_def keeps_root_def bindS_def say_def print_prompt_def retS_def)
qed (use assms in \<open>auto simp: execute_local_command_def keeps_root_put keeps_root_get keeps_root_listing\<close>)

text \<open>Whether a command lets the session go on.\<close>

definition answers :: "bool \<Rightarrow> (cli, cli_error, bool \<times> u16) op \<Rightarrow> bool" where
  "answers b f \<longleftrightarrow> (\<forall>c cont lines c'. f c = (Inr (cont, lines), c') \<longrightarrow> cont = b)"

lemma answers_retS [simp]: "answers b (retS (cont, lines)) \<longleftrightarrow> cont = b"
  by (auto simp: answers_def retS_def)

lemma answers_bindS [intro!]: "(\<And>x. answers b (g x)) \<Longrightarrow> answers b (bindS f g)"
  unfolding answers_def bindS_def by (auto split: prod.splits sum.splits)

lemma execute_answers: "answers (cmd \<noteq> CmdDisconnect) (execute_local_command J env n mode cmd)"
proof -
  have lists: "answers True (run_lls h mode po)" "answers True (run_lcd h mode path)" "answers True (run_paths J env mode)"
    for h po path
    by (auto simp: answers_def run_lls_def run_lcd_def run_paths_def Let_def bindS_def say_def print_prompt_def retS_def
        split: if_splits prod.splits sum.splits)
  show ?thesis
  proof (cases cmd)
    case CmdLpwd
    then show ?thesis by (simp add: execute_local_command_def answers_def bindS_def say_def print_prompt_def retS_def)
  qed (auto simp: execute_local_command_def lists)
qed

text \<open>
  A local command ends the session exactly when it is \<^verbatim>\<open>disconnect\<close>, and only \<^verbatim>\<open>lcd\<close> moves the directory for
  transfers, to the path it names, and only when that is a directory: a directory it stays.
\<close>

theorem local_commands_contract:
  assumes "execute_local_command J env n mode cmd c = (r, c')"
  shows "(rooted c \<longrightarrow> rooted c')
    \<and> (\<forall>cont lines. r = Inr (cont, lines) \<longrightarrow> (cont \<longleftrightarrow> cmd \<noteq> CmdDisconnect))
    \<and> (cli_root c' \<noteq> cli_root c \<longrightarrow> (\<exists>path. cmd = CmdLcd path \<and> cli_root c' = resolve_local_input_path (cli_home env) (cli_root c) path))"
proof -
  have "cont \<longleftrightarrow> cmd \<noteq> CmdDisconnect" if "r = Inr (cont, lines)" for cont lines
    using execute_answers [of cmd J env n mode] assms that unfolding answers_def by blast
  moreover have "(rooted c \<longrightarrow> rooted c') \<and> (cli_root c' \<noteq> cli_root c \<longrightarrow>
      (\<exists>path. cmd = CmdLcd path \<and> cli_root c' = resolve_local_input_path (cli_home env) (cli_root c) path))"
  proof (cases "\<exists>path. cmd = CmdLcd path")
    case True
    then show ?thesis using assms
      by (auto simp: execute_local_command_def run_lcd_def rooted_def bindS_def say_def print_prompt_def retS_def Let_def
          split: if_splits)
  next
    case False
    then have "keeps_root (execute_local_command J env n mode cmd)" by (intro execute_keeps_root) blast
    then show ?thesis using assms unfolding keeps_root_def rooted_def by (metis snd_conv)
  qed
  ultimately show ?thesis by blast
qed

section \<open>The cursor query keeps what was typed\<close>

lemma csi_position_Some: "csi_position bs = Some i \<Longrightarrow> \<exists>a b. bs = a @ [0x1B, 0x5B] @ b \<and> length a = i"
proof (induction bs arbitrary: i rule: csi_position.induct)
  case (1 x y bs)
  show ?case
  proof (cases "x = 0x1B \<and> y = 0x5B")
    case True
    then show ?thesis using "1.prems" by (auto intro: exI [of _ "[]"])
  next
    case False
    then obtain j where "csi_position (y # bs) = Some j" "i = Suc j" using "1.prems" by auto
    from "1.IH" [OF False this(1)] obtain a b where "y # bs = a @ [0x1B, 0x5B] @ b" "length a = j" by blast
    then show ?thesis using \<open>i = Suc j\<close> by (intro exI [of _ "x # a"] exI [of _ b]) simp
  qed
qed auto

lemma byte_position_Some: "byte_position b bs = Some i \<Longrightarrow> \<exists>p q. bs = p @ [b] @ q \<and> length p = i \<and> b \<notin> set p"
proof -
  assume a: "byte_position b bs = Some i"
  then obtain p q where "bs = p @ b # q" "b \<notin> set p" by (auto simp: byte_position_def split: if_splits dest: split_list_first)
  moreover from this have "takeWhile ((\<noteq>) b) bs = p" by (auto simp: takeWhile_append)
  ultimately show ?thesis using a by (auto simp: byte_position_def)
qed

text \<open>
  The query for the cursor position keeps what was typed meanwhile: what is handed back to the input engine is everything
  read, except for one answer of the terminal, an escape sequence that ends with its first \<^verbatim>\<open>R\<close>.
\<close>

theorem query_keeps_typing:
  assumes "cpr_parse response = (row, extra)"
  shows "\<exists>before report after. response = before @ report @ after \<and> extra = before @ after
    \<and> (report = [] \<or> (\<exists>body. report = [0x1B, 0x5B] @ body @ [0x52] \<and> 0x52 \<notin> set body))"
proof (cases "csi_position response")
  case None
  then show ?thesis using assms by (intro exI [of _ response] exI [of _ "[]"]) (simp add: cpr_parse_def)
next
  case (Some i)
  then obtain a b where ab: "response = a @ [0x1B, 0x5B] @ b" "length a = i" using csi_position_Some by blast
  show ?thesis
  proof (cases "byte_position 0x52 (drop i response)")
    case None
    then show ?thesis using assms Some by (intro exI [of _ response] exI [of _ "[]"]) (simp add: cpr_parse_def)
  next
    case pos: (Some j)
    then obtain p q where pq: "[0x1B, 0x5B] @ b = p @ [0x52] @ q" "length p = j" "0x52 \<notin> set p"
      using byte_position_Some ab by fastforce
    then obtain body where body: "p = [0x1B, 0x5B] @ body" "b = body @ [0x52] @ q"
      by (cases p; cases "tl p") (auto simp: Cons_eq_append_conv)
    have "extra = a @ q" using assms Some pos ab pq body by (auto simp: cpr_parse_def Let_def)
    then show ?thesis using ab body pq(3)
      by (intro exI [of _ a] exI [of _ "p @ [0x52]"] exI [of _ q]) simp
  qed
qed

section \<open>Examples and flaws\<close>

definition sample_shell_env :: shell_env where
  "sample_shell_env = \<lparr>sh_json = completion_json, sh_env = completion_cli_env, split_words = (\<lambda>s. Some (split_on ((=) (CHR '' '')) s)),
     quote_word = id, send_ok = (\<lambda>_. True), transfer_events = 1, query_events = 0, terminal_rows = 24\<rparr>"

definition sample_shell :: "terminal_event option list \<Rightarrow> shell" where
  "sample_shell evs = \<lparr>sh_cli = (completion_cli [])\<lparr>events := evs, cli_root := [RootDir, Normal ''h'']\<rparr>, sh_engine = engine_new (fsys completion_server) [RootDir] False,
     sh_buffer = [], sh_shown = [], sh_stderr = []\<rparr>"

abbreviation typed :: "string \<Rightarrow> terminal_event option" where
  "typed s \<equiv> Some (EvData (as_bytes s))"

abbreviation remote_says :: "string \<Rightarrow> shell_input" where
  "remote_says s \<equiv> FromSession (Some (SessionData (as_bytes s)))"

text \<open>
  Remote output can overtake older remote output.  While a local line is open, output is kept in a buffer, but only a
  help or command action writes it out: when the prompt is left with control-C, new output is shown at once and the older
  output stays back, until the next command shows it, out of order.
\<close>

theorem buffered_output_is_overtaken:
  "\<exists>s. drive_session sample_shell_env [FromTerminal, remote_says ''A'', FromTerminal, remote_says ''B'', FromTerminal]
        (sample_shell [typed (''~C'' @ [CHR 0x0D]), typed [CHR 0x03], typed (''~?'' @ [CHR 0x0D])]) = (Inr (), s)
     \<and> sh_shown s = as_bytes ''BA''"
proof -
  let ?run = "drive_session sample_shell_env [FromTerminal, remote_says ''A'', FromTerminal, remote_says ''B'', FromTerminal]
        (sample_shell [typed (''~C'' @ [CHR 0x0D]), typed [CHR 0x03], typed (''~?'' @ [CHR 0x0D])])"
  have "(\<lambda>(r, s). (r, sh_shown s)) ?run = (Inr (), as_bytes ''BA'')" by code_simp
  then show ?thesis by (cases ?run) auto
qed

text \<open>
  Cancelling a transfer with control-C ends the whole session: the error leaves the loop, and the session is not even told to
  disconnect.
\<close>

theorem cancelled_transfer_ends_session:
  "\<exists>s. drive_session sample_shell_env [FromTerminal] (sample_shell [typed (''~put d /'' @ [CHR 0x0D]), typed [CHR 0x03]])
        = (Inl (Failed (CliMessage ''transfer cancelled by user (ctrl+c)'')), s)
     \<and> SessionDisconnect \<notin> set (calls (sh_cli s))"
proof -
  let ?run = "drive_session sample_shell_env [FromTerminal] (sample_shell [typed (''~put d /'' @ [CHR 0x0D]), typed [CHR 0x03]])"
  have "(\<lambda>(r, s). (r, calls (sh_cli s))) ?run
      = (Inl (Failed (CliMessage ''transfer cancelled by user (ctrl+c)'')), [SessionSend [0x0D]])"
    by code_simp
  then show ?thesis by (cases ?run) auto
qed

section \<open>Witnesses\<close>


theorem local_commands_contract_witness:
  "\<exists>r c'. execute_local_command completion_json completion_cli_env 0 Remote (CmdLcd ''h/d'') (completion_cli []) = (r, c')
     \<and> cli_root c' = [RootDir, Normal ''h'', Normal ''d''] \<and> r = Inr (True, 1)
     \<and> (\<exists>path. CmdLcd ''h/d'' = CmdLcd path \<and> cli_root c' = resolve_local_input_path None [RootDir] path)"
proof -
  let ?run = "execute_local_command completion_json completion_cli_env 0 Remote (CmdLcd ''h/d'') (completion_cli [])"
  have "(\<lambda>(r, c). (r, cli_root c)) ?run = (Inr (True, 1), [RootDir, Normal ''h'', Normal ''d''])" by code_simp
  then obtain c' where run: "?run = (Inr (True, 1), c')" "cli_root c' = [RootDir, Normal ''h'', Normal ''d'']"
    by (cases ?run) auto
  have "cli_root (completion_cli []) = [RootDir]" "cli_home completion_cli_env = None"
    by (simp_all add: completion_cli_def completion_cli_env_def)
  then show ?thesis using local_commands_contract [OF run(1)] run by auto
qed

text \<open>The user typed an \<open>a\<close> before and a \<open>b\<close> after the answer for row 12.\<close>

theorem query_keeps_typing_witness:
  "cpr_parse (as_bytes (''a'' @ [CHR 0x1B] @ ''[12;1Rb'')) = (12, as_bytes ''ab'')
   \<and> (\<exists>before report after. as_bytes (''a'' @ [CHR 0x1B] @ ''[12;1Rb'') = before @ report @ after \<and> as_bytes ''ab'' = before @ after
        \<and> (report = [] \<or> (\<exists>body. report = [0x1B, 0x5B] @ body @ [0x52] \<and> 0x52 \<notin> set body)))"
proof -
  have run: "cpr_parse (as_bytes (''a'' @ [CHR 0x1B] @ ''[12;1Rb'')) = (12, as_bytes ''ab'')" by code_simp
  show ?thesis using query_keeps_typing [OF run] run by (rule conjI [rotated])
qed

end
