(* ===== verification/Client_Connect.thy ===== *)
theory Client_Connect
  imports Host_Key Peer_Store State_Store Client_Session
begin

text \<open>
  How a client connects: \<^verbatim>\<open>src/client/connect.rs\<close>, with the ticket, rendezvous and protocol names of \<^verbatim>\<open>src/transport\<close>
  (\<^verbatim>\<open>ticket.rs\<close>, \<^verbatim>\<open>wormhole.rs\<close>, \<^verbatim>\<open>iroh.rs\<close>).  Iroh, Pkarr and the SSH library are arguments: what each dial, poll
  and authentication request answers, and whether a deadline passes.  The endpoint and the two connections are
  flags, so that a leak is visible.  Host keys, identities and peers are those of the storage theories.
\<close>

section \<open>Protocol names and rendezvous\<close>

definition BASE_ALPN :: string where "BASE_ALPN = ''irosh/1''"
definition PAIRING_ALPN :: string where "PAIRING_ALPN = ''irosh/pairing/v1''"

text \<open>\<open>sha\<close> is SHA-256.\<close>

definition derive_alpn :: "(string \<Rightarrow> bytes) \<Rightarrow> string option \<Rightarrow> string" where
  "derive_alpn sha secret =
     (case secret of None \<Rightarrow> BASE_ALPN | Some s \<Rightarrow> BASE_ALPN @ ''/'' @ hex_of_bytes (take 8 (sha s)))"

datatype 'u relay_mode = RelayDisabled | RelayDefault | RelayCustom 'u

definition parse_relay_mode :: "(string \<Rightarrow> 'u option) \<Rightarrow> string \<Rightarrow> string + 'u relay_mode" where
  "parse_relay_mode parse_url url =
     (if url = ''disabled'' then Inr RelayDisabled
      else if url = ''default'' then Inr RelayDefault
      else if take 4 url = ''http'' then (case parse_url url of None \<Rightarrow> Inl url | Some u \<Rightarrow> Inr (RelayCustom u))
      else Inr RelayDefault)"

text \<open>\<open>parse\<close> and \<open>show\<close> are those of the endpoint tickets of Iroh.\<close>

record 't ticket_format =
  parse_endpoint_ticket :: "string \<Rightarrow> 't option"
  show_ticket :: "'t \<Rightarrow> string"

definition ticket_from_str :: "'t ticket_format \<Rightarrow> string \<Rightarrow> string + 't" where
  "ticket_from_str F s =
     (case parse_endpoint_ticket F (trim s) of
        Some t \<Rightarrow> Inr t
      | None \<Rightarrow> Inl (''could not parse as ticket: '' @ trim s))"

definition WORDS :: "string list" where
  "WORDS =
     [''apple'', ''banana'', ''cherry'', ''dog'', ''elephant'', ''fox'', ''grape'', ''honey'', ''iron'', ''jungle'',
      ''kite'', ''lemon'', ''mountain'', ''night'', ''ocean'', ''piano'', ''quartz'', ''river'', ''sky'', ''tiger'',
      ''umbrella'', ''valley'', ''whale'', ''xray'', ''yellow'', ''zebra'', ''amber'', ''bright'', ''crystal'',
      ''delta'', ''echo'', ''frost'']"

text \<open>The three numbers are what the generator of random numbers yields.\<close>

definition generate_code :: "nat \<Rightarrow> nat \<Rightarrow> nat \<Rightarrow> string" where
  "generate_code i j n = WORDS ! i @ ''-'' @ WORDS ! j @ ''-'' @ [hex_digit n]"

definition TICKET_PREFIX :: string where "TICKET_PREFIX = ''irosh-ticket=''"

definition starts_str :: "string \<Rightarrow> string \<Rightarrow> bool" where
  "starts_str pre s \<longleftrightarrow> take (length pre) s = pre"

text \<open>The text records of one answer: the first with the prefix whose rest parses.\<close>

fun ticket_in :: "'t ticket_format \<Rightarrow> string list \<Rightarrow> 't option" where
  "ticket_in F [] = None"
| "ticket_in F (content # records) =
     (if starts_str TICKET_PREFIX content
      then (case ticket_from_str F (drop (length TICKET_PREFIX) content) of
              Inr t \<Rightarrow> Some t | Inl _ \<Rightarrow> ticket_in F records)
      else ticket_in F records)"

text \<open>The poll loop; \<open>polls i\<close> are the text records found in poll \<open>i\<close>, or \<open>None\<close> when nothing was resolved.\<close>

fun poll_loop :: "'t ticket_format \<Rightarrow> (nat \<Rightarrow> string list option) \<Rightarrow> nat \<Rightarrow> nat \<Rightarrow> 't option" where
  "poll_loop F polls i 0 = None"
| "poll_loop F polls i (Suc n) =
     (case Option.bind (polls i) (ticket_in F) of
        Some t \<Rightarrow> Some t
      | None \<Rightarrow> poll_loop F polls (Suc i) n)"

definition broadcast_record :: "'t ticket_format \<Rightarrow> 't \<Rightarrow> string" where
  "broadcast_record F t = TICKET_PREFIX @ show_ticket F t"

section \<open>Errors and resources\<close>

datatype setup_error =
    SetupStorage storage_error
  | BlobsStoreFailed
  | EndpointBindFailed
  | ProtocolFailed string
  | ConnectFailed string
  | StreamOpenFailed
  | HandshakeDisconnected "string option"
  | NegotiationFailed
  | HostKeyRefused irosh_error
  | AuthenticationFailed
  | InvalidTarget string

record resources =
  ep_open :: bool
  conn_open :: bool
  blobs_open :: bool

definition nothing_open :: resources where
  "nothing_open = \<lparr>ep_open = False, conn_open = False, blobs_open = False\<rparr>"

abbreviation endpoint_only :: resources where
  "endpoint_only \<equiv> nothing_open\<lparr>ep_open := True\<rparr>"

abbreviation all_open :: resources where
  "all_open \<equiv> \<lparr>ep_open = True, conn_open = True, blobs_open = True\<rparr>"

section \<open>Finding and dialing the peer\<close>

record wormhole_env =
  endpoint_binds :: bool
  pkarr_builds :: bool
  pkarr_polls :: "nat \<Rightarrow> string list option"
  found_in_time :: bool

definition listen_for_ticket :: "'t ticket_format \<Rightarrow> wormhole_env \<Rightarrow> setup_error + 't" where
  "listen_for_ticket F env =
     (if \<not> pkarr_builds env then Inl (ProtocolFailed ''Failed to build pkarr client'')
      else case poll_loop F (pkarr_polls env) 0 60 of
        Some t \<Rightarrow> Inr t
      | None \<Rightarrow> Inl (ProtocolFailed ''Timed out waiting for wormhole discovery''))"

text \<open>The discovery endpoint is closed in every case; the third value says so.\<close>

definition connect_wormhole ::
  "'t ticket_format \<Rightarrow> ('k, 's) secret_keys \<Rightarrow> state_config \<Rightarrow> 'k \<Rightarrow> wormhole_env \<Rightarrow> string \<Rightarrow> disk
    \<Rightarrow> (setup_error + 't) \<times> disk \<times> resources" where
  "connect_wormhole F K st fresh env code d =
     (case load_or_generate_identity K st fresh d of
        (Inl e, d1) \<Rightarrow> (Inl (SetupStorage e), d1, nothing_open)
      | (Inr _, d1) \<Rightarrow>
          if \<not> endpoint_binds env then (Inl EndpointBindFailed, d1, nothing_open)
          else ((if found_in_time env then listen_for_ticket F env
                 else Inl (InvalidTarget (code @ '' (Wormhole not found or discovery timed out)''))),
                d1, endpoint_only\<lparr>ep_open := False\<rparr>))"

datatype dial = DialUp | DialError string | DialTimeout

record dial_env =
  blobs_loads :: bool
  client_binds :: bool
  dials :: "string \<Rightarrow> nat \<Rightarrow> dial"
  blobs_dials :: "nat \<Rightarrow> dial"

definition dial_failure :: "dial \<Rightarrow> setup_error" where
  "dial_failure r = ConnectFailed (case r of DialError e \<Rightarrow> e | _ \<Rightarrow> ''reset'')"

text \<open>The attempts from number \<open>i\<close> on, \<open>n\<close> of them; the endpoint is open on entry.\<close>

fun dial_loop :: "dial_env \<Rightarrow> string \<Rightarrow> nat \<Rightarrow> nat \<Rightarrow> setup_error option \<Rightarrow> (setup_error + unit) \<times> resources" where
  "dial_loop env alpn i 0 last_err =
     (Inl (case last_err of Some e \<Rightarrow> e | None \<Rightarrow> ConnectFailed ''reset''), endpoint_only\<lparr>ep_open := False\<rparr>)"
| "dial_loop env alpn i (Suc n) last_err =
     (case dials env alpn i of
        DialUp \<Rightarrow>
          (case blobs_dials env i of
             DialUp \<Rightarrow> (Inr (), endpoint_only\<lparr>conn_open := True, blobs_open := True\<rparr>)
           | failed \<Rightarrow> (Inl (dial_failure failed), endpoint_only\<lparr>conn_open := False, ep_open := False\<rparr>))
      | failed \<Rightarrow> dial_loop env alpn (Suc i) n (Some (dial_failure failed)))"

definition dial_alpn :: "(string \<Rightarrow> bytes) \<Rightarrow> string option \<Rightarrow> bool \<Rightarrow> string" where
  "dial_alpn sha secret is_pairing = (if is_pairing then PAIRING_ALPN else derive_alpn sha secret)"

definition dial_p2p ::
  "(string \<Rightarrow> bytes) \<Rightarrow> ('k, 's) secret_keys \<Rightarrow> state_config \<Rightarrow> 'k \<Rightarrow> string option \<Rightarrow> bool \<Rightarrow> dial_env \<Rightarrow> disk
    \<Rightarrow> (setup_error + unit) \<times> disk \<times> resources" where
  "dial_p2p sha K st fresh secret is_pairing env d =
     (if \<not> blobs_loads env then (Inl BlobsStoreFailed, d, nothing_open)
      else case load_or_generate_identity K st fresh d of
        (Inl e, d1) \<Rightarrow> (Inl (SetupStorage e), d1, nothing_open)
      | (Inr _, d1) \<Rightarrow>
          if \<not> client_binds env then (Inl EndpointBindFailed, d1, nothing_open)
          else (case dial_loop env (dial_alpn sha secret is_pairing) 1 3 None of (r, res) \<Rightarrow> (r, d1, res)))"

section \<open>The SSH handshake\<close>

datatype ssh_failure = SshDisconnected | SshOther

datatype deadline = InTime | LateBeforeKey | LateAfterKey

text \<open>
  The server's side of the handshake: the key it shows, its answers to public key and password requests
  (\<open>None\<close> is a protocol error), and the answers of the user.
\<close>

record 'k ssh_env =
  stream_opens :: bool
  shown_key :: "ssh_failure + 'k"
  disconnect_detail :: "string option"
  handshake_deadline :: deadline
  accepts_key :: "bool option"
  accepts_password :: "nat \<Rightarrow> string \<Rightarrow> string \<Rightarrow> bool option"
  prompted :: "nat \<Rightarrow> string option"
  metadata_answer :: "peer_metadata option"

record client_options =
  host_policy :: host_key_policy
  secret :: "string option"
  credentials :: "(string \<times> string) option"
  has_prompter :: bool

definition DEFAULT_USER :: string where "DEFAULT_USER = ''irosh''"

fun prompt_loop :: "'k ssh_env \<Rightarrow> nat \<Rightarrow> nat \<Rightarrow> setup_error + unit" where
  "prompt_loop env i 0 = Inl AuthenticationFailed"
| "prompt_loop env i (Suc n) =
     (case prompted env i of
        None \<Rightarrow> Inl AuthenticationFailed
      | Some pw \<Rightarrow>
          (case accepts_password env i DEFAULT_USER pw of
             None \<Rightarrow> Inl NegotiationFailed
           | Some True \<Rightarrow> Inr ()
           | Some False \<Rightarrow> prompt_loop env (Suc i) n))"

definition authenticate :: "client_options \<Rightarrow> 'k ssh_env \<Rightarrow> setup_error + unit" where
  "authenticate opts env =
     (case accepts_key env of
        None \<Rightarrow> Inl NegotiationFailed
      | Some True \<Rightarrow> Inr ()
      | Some False \<Rightarrow>
          (case credentials opts of
             Some (user, password) \<Rightarrow>
               (case accepts_password env 1 user password of
                  None \<Rightarrow> Inl NegotiationFailed
                | Some ok \<Rightarrow> if ok then Inr () else Inl AuthenticationFailed)
           | None \<Rightarrow> if has_prompter opts then prompt_loop env 1 3 else Inl AuthenticationFailed))"

text \<open>The handshake verifies the key with the handler of the client; the server's key may be pinned on the disk.\<close>

definition ssh_connect ::
  "'k ssh_keys \<Rightarrow> client_options \<Rightarrow> 'k ssh_env \<Rightarrow> 'k client_handler \<Rightarrow> disk \<Rightarrow> (setup_error + unit) \<times> disk" where
  "ssh_connect ks opts env h d =
     (if handshake_deadline env = LateBeforeKey then (Inl NegotiationFailed, d)
      else case shown_key env of
        Inl SshDisconnected \<Rightarrow> (Inl (HandshakeDisconnected (disconnect_detail env)), d)
      | Inl SshOther \<Rightarrow> (Inl NegotiationFailed, d)
      | Inr key \<Rightarrow>
          (case check_server_key ks key (h, d) of
             (Inl e, (_, d1)) \<Rightarrow> (Inl (HostKeyRefused e), d1)
           | (Inr False, (_, d1)) \<Rightarrow> (Inl NegotiationFailed, d1)
           | (Inr True, (_, d1)) \<Rightarrow>
               if handshake_deadline env = LateAfterKey then (Inl NegotiationFailed, d1)
               else (authenticate opts env, d1)))"

definition session_of :: "'k ssh_env \<Rightarrow> (nat \<Rightarrow> bool) \<Rightarrow> client_session" where
  "session_of env ok = \<lparr>channel = False, connection = True, blobs_connection = True, endpoint = True,
     remote_metadata = metadata_answer env, state = Authenticated, messages = [], tunnels = [], net_calls = [], net_ok = ok\<rparr>"

definition establish_session ::
  "('i, 's) secret_keys \<Rightarrow> 'k ssh_keys \<Rightarrow> state_config \<Rightarrow> 'i \<Rightarrow> client_options \<Rightarrow> 'k ssh_env \<Rightarrow> (nat \<Rightarrow> bool) \<Rightarrow> string \<Rightarrow> disk
    \<Rightarrow> (setup_error + client_session) \<times> disk \<times> resources" where
  "establish_session K ks st fresh opts env ok eid d =
     (case load_or_generate_identity K st fresh d of
        (Inl e, d1) \<Rightarrow> (Inl (SetupStorage e), d1, all_open)
      | (Inr _, d1) \<Rightarrow>
          (case (if host_policy opts = AcceptAll then Inr None else load_known_server ks st d1 eid) of
             Inl e \<Rightarrow> (Inl (SetupStorage e), d1, all_open)
           | Inr known \<Rightarrow>
               if \<not> stream_opens env then (Inl StreamOpenFailed, d1, all_open\<lparr>ep_open := False\<rparr>)
               else (case ssh_connect ks opts env (client_handler_new eid known (host_policy opts) st) d1 of
                       (Inl e, d2) \<Rightarrow> (Inl e, d2, all_open\<lparr>conn_open := False, ep_open := False\<rparr>)
                     | (Inr _, d2) \<Rightarrow> (Inr (session_of env ok), d2, all_open))))"

section \<open>Targets\<close>

datatype 't resolved_target = TargetTicket 't | TargetWormhole string

definition looks_like_ticket :: "string \<Rightarrow> bool" where
  "looks_like_ticket target \<longleftrightarrow>
     64 < length target \<or> starts_str ''endpoint'' target \<or> starts_str ''ticket'' target \<or> starts_str ''node'' target
     \<or> starts_str [CHR 0x7B] target"

definition parse_target ::
  "'t ticket_format \<Rightarrow> 't peer_profile serde \<Rightarrow> state_config \<Rightarrow> string \<Rightarrow> (disk, setup_error, 't resolved_target) op" where
  "parse_target F J st raw d =
     (let target = trim raw in
      case ticket_from_str F target of
        Inr t \<Rightarrow> (Inr (TargetTicket t), d)
      | Inl _ \<Rightarrow>
          bindS (errS SetupStorage (list_peers J st)) (\<lambda>peers.
          case find (\<lambda>p. name p = target) peers of
            Some p \<Rightarrow> retS (TargetTicket (ticket p))
          | None \<Rightarrow>
              if looks_like_ticket target
              then failS (InvalidTarget (target @ '' (Hint: This looks like a malformed ticket)''))
              else (case wormhole_code_new target of
                      Inl e \<Rightarrow> failS (InvalidTarget e)
                    | Inr code \<Rightarrow> retS (TargetWormhole code))) d)"

text \<open>\<^verbatim>\<open>Client::connect\<close>: the identity is read up to three times, each time with its own fresh key.\<close>

definition client_connect ::
  "(string \<Rightarrow> bytes) \<Rightarrow> 't ticket_format \<Rightarrow> ('i, 's) secret_keys \<Rightarrow> 'k ssh_keys \<Rightarrow> state_config \<Rightarrow> (nat \<Rightarrow> 'i) \<Rightarrow> client_options
    \<Rightarrow> wormhole_env \<Rightarrow> ('t \<Rightarrow> dial_env) \<Rightarrow> ('t \<Rightarrow> 'k ssh_env) \<Rightarrow> (nat \<Rightarrow> bool) \<Rightarrow> ('t \<Rightarrow> string) \<Rightarrow> 't resolved_target \<Rightarrow> disk
    \<Rightarrow> (setup_error + client_session) \<times> disk \<times> resources" where
  "client_connect sha F K ks st fresh opts wenv denv senv ok eid target d =
     (case (case target of
              TargetTicket t \<Rightarrow> (Inr (t, False), d)
            | TargetWormhole code \<Rightarrow>
                (case connect_wormhole F K st (fresh 0) wenv code d of
                   (Inl e, d1, _) \<Rightarrow> (Inl e, d1)
                 | (Inr t, d1, _) \<Rightarrow> (Inr (t, True), d1))) of
        (Inl e, d1) \<Rightarrow> (Inl e, d1, nothing_open)
      | (Inr (t, is_pairing), d1) \<Rightarrow>
          (case dial_p2p sha K st (fresh 1) (secret opts) is_pairing (denv t) d1 of
             (Inl e, d2, res) \<Rightarrow> (Inl e, d2, res)
           | (Inr _, d2, _) \<Rightarrow> establish_session K ks st (fresh 2) opts (senv t) ok (eid t) d2))"

section \<open>Rendezvous\<close>

lemma poll_loop_first:
  assumes "\<And>j. i \<le> j \<Longrightarrow> j < k \<Longrightarrow> Option.bind (polls j) (ticket_in F) = None"
    and "Option.bind (polls k) (ticket_in F) = Some t" and "i \<le> k" and "k < i + n"
  shows "poll_loop F polls i n = Some t"
  using assms
proof (induction n arbitrary: i)
  case (Suc n)
  then show ?case by (cases "i = k") (auto simp: Suc_le_eq)
qed simp

lemma ticket_in_broadcast:
  assumes "parse_endpoint_ticket F (trim (show_ticket F t)) = Some t"
  shows "ticket_in F (broadcast_record F t # records) = Some t"
  using assms by (simp add: broadcast_record_def starts_str_def ticket_from_str_def)

text \<open>
  C38. A published wormhole is found.  When the ticket format reads back what it prints and the record that the server publishes
  under the code turns up in any of the sixty polls, before any other ticket, the client gets exactly that ticket.
\<close>

theorem wormhole_ticket_is_found:
  assumes "parse_endpoint_ticket F (trim (show_ticket F t)) = Some t" and "pkarr_builds env"
    and "k < 60" and "pkarr_polls env k = Some (broadcast_record F t # records)"
    and "\<And>j. j < k \<Longrightarrow> Option.bind (pkarr_polls env j) (ticket_in F) = None"
  shows "listen_for_ticket F env = Inr t"
proof -
  have "poll_loop F (pkarr_polls env) 0 60 = Some t"
    by (rule poll_loop_first [where k = k]) (use assms ticket_in_broadcast [OF assms(1)] in auto)
  then show ?thesis using assms(2) by (simp add: listen_for_ticket_def)
qed

section \<open>Dialing\<close>

lemma dial_loop_closed: "fst (dial_loop env alpn i n e) = Inl x \<Longrightarrow> snd (dial_loop env alpn i n e) = nothing_open"
  by (induction env alpn i n e rule: dial_loop.induct) (auto simp: nothing_open_def split: dial.splits)

lemma dial_loop_success:
  "fst (dial_loop env alpn i n e) = Inr () \<longleftrightarrow>
   (\<exists>k. i \<le> k \<and> k < i + n \<and> dials env alpn k = DialUp \<and> blobs_dials env k = DialUp \<and> (\<forall>j. i \<le> j \<and> j < k \<longrightarrow> dials env alpn j \<noteq> DialUp))"
proof (induction env alpn i n e rule: dial_loop.induct)
  case (2 env alpn i n e)
  show ?case
  proof (cases "dials env alpn i = DialUp")
    case True
    then show ?thesis
      by (cases "blobs_dials env i") (auto split: dial.splits intro: exI [of _ i] dest: le_neq_implies_less)
  next
    case False
    then have "fst (dial_loop env alpn i (Suc n) e) = Inr () \<longleftrightarrow> fst (dial_loop env alpn (Suc i) n (Some (dial_failure (dials env alpn i)))) = Inr ()"
      by (auto split: dial.split)
    also have "\<dots> \<longleftrightarrow> (\<exists>k. Suc i \<le> k \<and> k < Suc i + n \<and> dials env alpn k = DialUp \<and> blobs_dials env k = DialUp
        \<and> (\<forall>j. Suc i \<le> j \<and> j < k \<longrightarrow> dials env alpn j \<noteq> DialUp))"
      using "2.IH" False by (cases "dials env alpn i") auto
    also have "\<dots> \<longleftrightarrow> (\<exists>k. i \<le> k \<and> k < i + Suc n \<and> dials env alpn k = DialUp \<and> blobs_dials env k = DialUp
        \<and> (\<forall>j. i \<le> j \<and> j < k \<longrightarrow> dials env alpn j \<noteq> DialUp))"
      using False by (metis Suc_leD Suc_leI add_Suc_right add_Suc_shift le_neq_implies_less less_Suc_eq_le)
    finally show ?thesis .
  qed
qed auto

text \<open>
  C27. Dialing makes at most three attempts and leaves nothing behind.  It succeeds exactly when storage and endpoint are there and the first
  of three attempts that reaches the peer also gets the second connection, for content; in that case all three resources are
  open, and after every failure none is.
\<close>

theorem dial_three_attempts:
  assumes "dial_p2p sha K st fresh sec pairing env d = (r, d', res)" and "blobs_loads env" and "client_binds env"
    and "load_or_generate_identity K st fresh d = (Inr identity, d1)"
  shows "(r = Inr () \<longleftrightarrow> (\<exists>k \<in> {1..3}. dials env (dial_alpn sha sec pairing) k = DialUp \<and> blobs_dials env k = DialUp
            \<and> (\<forall>j. 1 \<le> j \<and> j < k \<longrightarrow> dials env (dial_alpn sha sec pairing) j \<noteq> DialUp)))
    \<and> (r \<noteq> Inr () \<longrightarrow> res = nothing_open)"
proof -
  let ?loop = "dial_loop env (dial_alpn sha sec pairing) 1 3 None"
  have run: "r = fst ?loop" "res = snd ?loop" using assms by (auto simp: dial_p2p_def split: prod.splits)
  have "k < 1 + 3 \<longleftrightarrow> k \<le> 3" for k :: nat by arith
  then have "r = Inr () \<longleftrightarrow> (\<exists>k \<in> {1..3}. dials env (dial_alpn sha sec pairing) k = DialUp \<and> blobs_dials env k = DialUp
            \<and> (\<forall>j. 1 \<le> j \<and> j < k \<longrightarrow> dials env (dial_alpn sha sec pairing) j \<noteq> DialUp))"
    unfolding run(1) dial_loop_success by auto
  moreover have "r \<noteq> Inr () \<longrightarrow> res = nothing_open"
    using dial_loop_closed [of env "dial_alpn sha sec pairing" 1 3 None] run by (cases "fst ?loop") simp_all
  ultimately show ?thesis by blast
qed

section \<open>Authentication\<close>

lemma prompt_loop_success:
  "prompt_loop env i n = Inr () \<longleftrightarrow>
   (\<exists>k. i \<le> k \<and> k < i + n \<and> (\<exists>pw. prompted env k = Some pw \<and> accepts_password env k DEFAULT_USER pw = Some True)
      \<and> (\<forall>j. i \<le> j \<and> j < k \<longrightarrow> (\<exists>pw. prompted env j = Some pw \<and> accepts_password env j DEFAULT_USER pw = Some False)))"
  (is "_ \<longleftrightarrow> (\<exists>k. ?P i n k)")
proof (induction env i n rule: prompt_loop.induct)
  case (2 env i n)
  let ?P = "\<lambda>i n k. i \<le> k \<and> k < i + n \<and> (\<exists>pw. prompted env k = Some pw \<and> accepts_password env k DEFAULT_USER pw = Some True)
      \<and> (\<forall>j. i \<le> j \<and> j < k \<longrightarrow> (\<exists>pw. prompted env j = Some pw \<and> accepts_password env j DEFAULT_USER pw = Some False))"
  show ?case
  proof (cases "\<exists>pw. prompted env i = Some pw \<and> accepts_password env i DEFAULT_USER pw = Some False")
    case True
    then obtain pw where pw: "prompted env i = Some pw" "accepts_password env i DEFAULT_USER pw = Some False" by blast
    have "prompt_loop env i (Suc n) = Inr () \<longleftrightarrow> (\<exists>k. ?P (Suc i) n k)" using "2.IH" [OF pw(1) pw(2)] pw by simp
    also have "\<dots> \<longleftrightarrow> (\<exists>k. ?P i (Suc n) k)"
    proof
      assume "\<exists>k. ?P (Suc i) n k"
      then obtain k where k: "?P (Suc i) n k" by blast
      then have "?P i (Suc n) k" using True by (metis Suc_leD Suc_leI add_Suc_right add_Suc_shift le_neq_implies_less)
      then show "\<exists>k. ?P i (Suc n) k" by blast
    next
      assume "\<exists>k. ?P i (Suc n) k"
      then obtain k where k: "?P i (Suc n) k" by blast
      then have "k \<noteq> i" using pw by auto
      then have "?P (Suc i) n k" using k by auto
      then show "\<exists>k. ?P (Suc i) n k" by blast
    qed
    finally show ?thesis .
  next
    case False
    let ?now = "\<exists>pw. prompted env i = Some pw \<and> accepts_password env i DEFAULT_USER pw = Some True"
    have "prompt_loop env i (Suc n) = Inr () \<longleftrightarrow> ?now" using False by (auto split: option.split bool.split)
    moreover have "?P i (Suc n) i \<longleftrightarrow> ?now" by auto
    moreover have "k = i" if "?P i (Suc n) k" for k using that False by (metis le_neq_implies_less le_refl)
    ultimately show ?thesis by metis
  qed
qed simp


section \<open>Trust\<close>

lemma identity_reads_ok:
  assumes "load_or_generate_identity K st fresh d = (r, d1)" and "reads_ok d"
  shows "reads_ok d1"
proof -
  obtain q d0 where dir: "ensure_key_dir st d = (q, d0)" by (rule prod.exhaust)
  then have d0: "faults d0 = faults d"
    using ensure_dir_tighten_faults
    by (auto simp: ensure_key_dir_def bindS_def split: prod.splits sum.splits)
  have stored: "faults d2 = faults d0" if "atomic_write_secure (secret_path st) t d0 = (q2, d2)" for t q2 d2
    using atomic_write_faults [OF that [unfolded secret_path_eq]] by (simp add: proper_name_def)
  have "faults d1 = faults d0"
    using assms(1) dir stored
    by (auto simp: load_or_generate_identity_def bindS_def retS_def Let_def split: prod.splits sum.splits if_splits)
  then show ?thesis using assms(2) d0 by (simp add: reads_ok_def)
qed

text \<open>
  C24. A session is only established with a trusted server.  Unless every key is accepted by policy: when a key is pinned for the
  endpoint the server showed that key, when none is pinned the policy is to trust on first use and afterwards the shown key is the
  pinned one; and the server accepted the client's key or a password.
\<close>

theorem established_session_is_trusted:
  assumes "establish_session K ks st fresh opts env ok eid d = (Inr sess, d', res)" and "host_policy opts \<noteq> AcceptAll"
    and "load_or_generate_identity K st fresh d = (Inr identity, d1)" and "reads_ok d" and "\<And>k. shown_key env = Inr k \<Longrightarrow> key_storable ks k"
  shows "\<exists>key. shown_key env = Inr key
    \<and> (load_known_server ks st d1 eid = Inr (Some key) \<and> d' = d1
       \<or> load_known_server ks st d1 eid = Inr None \<and> host_policy opts = Tofu \<and> load_known_server ks st d' eid = Inr (Some key))
    \<and> authenticate opts env = Inr () \<and> state sess = Authenticated"
proof -
  obtain known where known: "load_known_server ks st d1 eid = Inr known"
    using assms(1-3) by (auto simp: establish_session_def split: sum.splits)
  let ?h = "client_handler_new eid known (host_policy opts) st"
  have conn: "ssh_connect ks opts env ?h d1 = (Inr (), d')" and sess: "sess = session_of env ok"
    using assms(1-3) known by (auto simp: establish_session_def split: sum.splits prod.splits if_splits)
  then obtain key h' where key: "shown_key env = Inr key" "check_server_key ks key (?h, d1) = (Inr True, (h', d'))"
      and auth: "authenticate opts env = Inr ()"
    by (auto simp: ssh_connect_def split: sum.splits ssh_failure.splits prod.splits bool.splits if_splits)
  have h: "ch_policy ?h = host_policy opts" "known_server ?h = known" "ch_state ?h = st" "node_id ?h = eid"
    by (simp_all add: client_handler_new_def)
  show ?thesis
  proof (cases known)
    case None
    then obtain x where w: "write_known_server ks st eid key d1 = (Inr x, d')"
      using first_contact [OF key(2)] h assms(2) by metis
    have "host_policy opts = Tofu"
      using key(2) None h assms(2) by (cases "host_policy opts") (simp_all add: check_server_key_def client_handler_new_def)
    moreover have "load_known_server ks st d' eid = Inr (Some key)" by (rule servers.save_ok [OF w TrueI assms(5) [OF key(1)] identity_reads_ok [OF assms(3,4)]])
    ultimately show ?thesis using key auth sess known None by (auto simp: session_of_def)
  next
    case (Some p)
    then have "p = key" "d' = d1" using key(2) assms(2) by (auto simp: check_server_key_def client_handler_new_def split: if_splits)
    then show ?thesis using key auth sess known Some by (auto simp: session_of_def)
  qed
qed

text \<open>
  A failed setup closes the endpoint, with one exception: an error of the local storage, reading the identity or the pinned key, returns
  with the endpoint and both connections open.
\<close>

theorem setup_leaks_on_storage_errors:
  assumes "establish_session K ks st fresh opts env ok eid d = (Inl e, d', res)"
  shows "(ep_open res \<longleftrightarrow> (\<exists>se. e = SetupStorage se)) \<and> ((\<exists>se. e = SetupStorage se) \<longrightarrow> res = all_open)"
proof -
  have no_storage: "ssh_connect ks opts env h d1 \<noteq> (Inl (SetupStorage se), d2)" for h d1 se d2
  proof -
    have prompt: "prompt_loop env i n \<noteq> Inl (SetupStorage se)" for i n
      by (induction env i n rule: prompt_loop.induct) (auto split: option.split bool.split)
    then have "authenticate opts env \<noteq> Inl (SetupStorage se)"
      by (auto simp: authenticate_def split: option.split bool.split)
    then show ?thesis
      by (auto simp: ssh_connect_def split: sum.split ssh_failure.split prod.split bool.split)
  qed
  show ?thesis
    using assms no_storage
    by (auto simp: establish_session_def split: sum.splits prod.splits if_splits)
qed

section \<open>Targets and codes\<close>

lemma words_shape:
  "w \<in> set WORDS \<Longrightarrow> list_all plain_char w \<and> 3 \<le> length w \<and> length w \<le> 8 \<and> take 3 w \<notin> {''end'', ''tic'', ''nod''} \<and> hd w \<noteq> CHR 0x7B"
proof -
  have "list_all (\<lambda>w. list_all plain_char w \<and> 3 \<le> length w \<and> length w \<le> 8 \<and> take 3 w \<notin> {''end'', ''tic'', ''nod''} \<and> hd w \<noteq> CHR 0x7B) WORDS"
    by code_simp
  then show "w \<in> set WORDS \<Longrightarrow> ?thesis" by (simp add: list_all_iff)
qed

lemma generated_code_shape:
  assumes "i < 32" and "j < 32" and "n < 10"
  shows "trim (generate_code i j n) = generate_code i j n" and "generate_code i j n \<noteq> []" and "\<not> looks_like_ticket (generate_code i j n)"
proof -
  have len: "length WORDS = 32" by (simp add: WORDS_def)
  let ?w = "WORDS ! i" and ?v = "WORDS ! j"
  have w: "list_all plain_char ?w" "3 \<le> length ?w" "length ?w \<le> 8" "take 3 ?w \<notin> {''end'', ''tic'', ''nod''}" "hd ?w \<noteq> CHR 0x7B"
    and v: "list_all plain_char ?v" "length ?v \<le> 8"
    using words_shape [of ?w] words_shape [of ?v] assms len by auto
  have "plain_char c" if "c \<in> set (generate_code i j n)" for c
    using that w(1) v(1) hex_digit_plain [of n] assms(3) by (auto simp: generate_code_def list_all_iff plain_char_def)
  then show "trim (generate_code i j n) = generate_code i j n" by (rule trim_plain)
  show "generate_code i j n \<noteq> []" by (simp add: generate_code_def)
  have t3: "take 3 (generate_code i j n) = take 3 ?w" using w(2) by (simp add: generate_code_def)
  have pre: "\<not> starts_str p (generate_code i j n)" if "3 \<le> length p" "take 3 p \<noteq> take 3 ?w" for p
    using that t3 by (metis starts_str_def take_take min.absorb1)
  have "\<not> starts_str [CHR 0x7B] (generate_code i j n)"
    using w(2,5) by (cases ?w) (auto simp: starts_str_def generate_code_def)
  moreover have "length (generate_code i j n) \<le> 64" using w(3) v(2) by (simp add: generate_code_def)
  ultimately show "\<not> looks_like_ticket (generate_code i j n)"
    using w(4) pre [of "''endpoint''"] pre [of "''ticket''"] pre [of "''node''"] by (auto simp: looks_like_ticket_def)
qed

text \<open>
  Every code that is generated for a wormhole can be used as one: typed as a target it is resolved to that code, unless it names a
  ticket or a saved peer; in particular it is never taken for a broken ticket.
\<close>

theorem generated_codes_are_wormholes:
  assumes "i < 32" and "j < 32" and "n < 10" and "ticket_from_str F (generate_code i j n) = Inl e"
    and "list_peers J st d = (Inr peers, d1)" and "\<And>p. p \<in> set peers \<Longrightarrow> name p \<noteq> generate_code i j n"
  shows "parse_target F J st (generate_code i j n) d = (Inr (TargetWormhole (generate_code i j n)), d1)"
proof -
  have "find (\<lambda>p. name p = generate_code i j n) peers = None" using assms(6) by (auto simp: find_None_iff)
  then show ?thesis
    using assms(4,5) generated_code_shape [OF assms(1-3)]
    by (simp add: parse_target_def bindS_def errS_def retS_def wormhole_code_new_def map_err_def)
qed


section \<open>Witnesses\<close>

definition sample_tickets :: "string ticket_format" where
  "sample_tickets = \<lparr>parse_endpoint_ticket = (\<lambda>s. if s = ''endpointA'' then Some s else None), show_ticket = id\<rparr>"

lemma sample_ticket_parses: "parse_endpoint_ticket sample_tickets (trim (show_ticket sample_tickets ''endpointA'')) = Some ''endpointA''"
  by code_simp

theorem wormhole_ticket_is_found_witness:
  "listen_for_ticket sample_tickets
     \<lparr>endpoint_binds = True, pkarr_builds = True,
      pkarr_polls = (\<lambda>i. if i = 2 then Some [broadcast_record sample_tickets ''endpointA''] else None), found_in_time = True\<rparr>
   = Inr ''endpointA''"
  by (rule wormhole_ticket_is_found [OF sample_ticket_parses, where k = 2]) auto

definition sample_dials :: dial_env where
  "sample_dials = \<lparr>blobs_loads = True, client_binds = True, dials = (\<lambda>_ i. if i = 2 then DialUp else DialTimeout), blobs_dials = (\<lambda>_. DialUp)\<rparr>"

lemma sample_identity_loads: "\<not> isl (fst (load_or_generate_identity sample_secrets sample_state 7 sample_disk))"
  by code_simp

theorem dial_three_attempts_witness:
  "\<exists>d' res. dial_p2p (\<lambda>_. []) sample_secrets sample_state 7 None False sample_dials sample_disk = (Inr (), d', res)"
proof -
  obtain identity d1 where l: "load_or_generate_identity sample_secrets sample_state 7 sample_disk = (Inr identity, d1)"
    using sample_identity_loads by (cases "load_or_generate_identity sample_secrets sample_state 7 sample_disk"; cases "fst (load_or_generate_identity sample_secrets sample_state 7 sample_disk)") auto
  obtain r d' res where run: "dial_p2p (\<lambda>_. []) sample_secrets sample_state 7 None False sample_dials sample_disk = (r, d', res)"
    by (metis prod_cases3)
  have "blobs_loads sample_dials" "client_binds sample_dials" by (simp_all add: sample_dials_def)
  from dial_three_attempts [OF run this l] have "r = Inr ()" by (auto simp: sample_dials_def)
  then show ?thesis using run by blast
qed

definition sample_ssh :: "string ssh_env" where
  "sample_ssh = \<lparr>stream_opens = True, shown_key = Inr ''srv'', disconnect_detail = None, handshake_deadline = InTime,
     accepts_key = Some True, accepts_password = (\<lambda>_ _ _. None), prompted = (\<lambda>_. None), metadata_answer = None\<rparr>"

definition sample_options :: client_options where
  "sample_options = \<lparr>host_policy = Tofu, secret = None, credentials = None, has_prompter = False\<rparr>"

lemma sample_establishes:
  "\<not> isl (fst (establish_session sample_secrets sample_keys sample_state 7 sample_options sample_ssh (\<lambda>_. True) ''node1'' sample_disk))"
  by code_simp

definition typing_ssh :: "string ssh_env" where
  "typing_ssh = sample_ssh\<lparr>accepts_key := Some False, accepts_password := (\<lambda>_ _ pw. Some (pw = ''good'')),
     prompted := (\<lambda>i. if i = 1 then Some ''bad'' else if i = 2 then Some ''good'' else None)\<rparr>"


theorem established_session_is_trusted_witness:
  "\<exists>sess d' res. establish_session sample_secrets sample_keys sample_state 7 sample_options sample_ssh (\<lambda>_. True) ''node1'' sample_disk
      = (Inr sess, d', res) \<and> load_known_server sample_keys sample_state d' ''node1'' = Inr (Some ''srv'')"
proof -
  let ?run = "establish_session sample_secrets sample_keys sample_state 7 sample_options sample_ssh (\<lambda>_. True) ''node1'' sample_disk"
  obtain sess d' res where run: "?run = (Inr sess, d', res)"
    using sample_establishes by (cases ?run; cases "fst ?run") auto
  obtain identity d1 where l: "load_or_generate_identity sample_secrets sample_state 7 sample_disk = (Inr identity, d1)"
    using sample_identity_loads by (cases "load_or_generate_identity sample_secrets sample_state 7 sample_disk"; cases "fst (load_or_generate_identity sample_secrets sample_state 7 sample_disk)") auto
  have "host_policy sample_options \<noteq> AcceptAll" by (simp add: sample_options_def)
  moreover have "key_storable sample_keys k" if "shown_key sample_ssh = Inr k" for k
    using that by (auto simp: key_storable_def sample_keys_def sample_ssh_def)
  ultimately show ?thesis
    using established_session_is_trusted [OF run _ l sample_disk_reads(1)] run by (auto simp: sample_ssh_def)
qed

theorem setup_leaks_on_storage_errors_witness:
  "\<exists>e d' res. establish_session sample_secrets sample_keys sample_state 7 sample_options sample_ssh (\<lambda>_. True) ''node1''
      (sample_disk\<lparr>faults := (\<lambda>_. True)\<rparr>) = (Inl (SetupStorage e), d', res) \<and> res = all_open"
proof -
  let ?run = "establish_session sample_secrets sample_keys sample_state 7 sample_options sample_ssh (\<lambda>_. True) ''node1'' (sample_disk\<lparr>faults := (\<lambda>_. True)\<rparr>)"
  have "case fst ?run of Inl (SetupStorage e) \<Rightarrow> True | _ \<Rightarrow> False" by code_simp
  then obtain e d' res where run: "?run = (Inl (SetupStorage e), d', res)"
    by (cases ?run; cases "fst ?run") (auto split: sum.splits setup_error.splits)
  from setup_leaks_on_storage_errors [OF run] run show ?thesis by auto
qed

theorem generated_codes_are_wormholes_witness:
  "\<exists>d1. parse_target sample_tickets sample_profiles sample_state (generate_code 0 1 7) sample_disk = (Inr (TargetWormhole ''apple-banana-7''), d1)"
proof -
  have code: "generate_code 0 1 7 = ''apple-banana-7''" by code_simp
  have none: "ticket_from_str sample_tickets (generate_code 0 1 7) = Inl ''could not parse as ticket: apple-banana-7''" by code_simp
  have "fst (list_peers sample_profiles sample_state sample_disk) = Inr []" by code_simp
  then obtain d1 where "list_peers sample_profiles sample_state sample_disk = (Inr [], d1)" by (metis prod.collapse)
  from generated_codes_are_wormholes [OF _ _ _ none this] show ?thesis unfolding code by auto
qed


end
