(* ===== verification/Connect_Flow.thy ===== *)
theory Connect_Flow
  imports Client_Connect Connect_Session
begin

text \<open>
  The command \<^verbatim>\<open>irosh connect\<close>: the phases of \<^verbatim>\<open>src/cli/src/commands/connect/mod.rs\<close> and the port forwarding of
  \<^verbatim>\<open>tunnels.rs\<close>.  A phase is a value and the loop over the phases is shown to end.  The answers of the user,
  the interrupts and the libraries are fields of one environment.  Messages are recorded; the spinner is left
  out, and the relay mode, which only the endpoint of Iroh reads, is checked and dropped.  \<open>fl_session\<close> is the session as the command
  leaves it to the loop or to the end.
\<close>

section \<open>State, environment and phases\<close>

datatype ui = UiInfo string | UiSuccess string | UiWarn string string | UiError string "string option"

datatype flow_error =
    FlowStorage storage_error
  | FlowSetup setup_error
  | FlowSession session_error
  | FlowMessage string
  | FlowExit u32
  | FlowPanic
  | FlowRunning

record flow =
  fl_disk :: disk
  fl_ui :: "ui list"
  fl_alias :: "string option"
  fl_stdout :: bytes
  fl_stderr :: bytes
  fl_session :: "client_session option"

type_synonym 'a flow_op = "(flow, flow_error, 'a) op"

record connect_ctx =
  ctx_state :: state_config
  ctx_options :: client_options
  ctx_forward :: "string option"
  ctx_exec :: "string option"

text \<open>
  \<open>ctrl_c i\<close> tells whether the user interrupts the \<open>i\<close>-th wait of the dial phase, and if so whether the
  operation that is dropped had made its changes to the disk before.
\<close>

record ('t, 'i, 's, 'k) flow_env =
  tickets :: "'t ticket_format"
  peers_json :: "'t peer_profile serde"
  config_json :: "app_config serde"
  relay_url_of :: "string \<Rightarrow> string option"
  endpoint_keys :: "('i, 's) secret_keys"
  host_keys :: "'k ssh_keys"
  sha256 :: "string \<Rightarrow> bytes"
  fresh_keys :: "nat \<Rightarrow> 'i"
  endpoint_id :: "'t \<Rightarrow> string"
  lowercase :: "string \<Rightarrow> string"
  rendezvous :: wormhole_env
  dialing :: "'t \<Rightarrow> dial_env"
  ssh_server :: "'t \<Rightarrow> 'k ssh_env"
  network_ok :: "nat \<Rightarrow> bool"
  asked_target :: "string option"
  asked_alias :: "string option"
  select_peer :: "string list \<Rightarrow> nat option"
  ctrl_c :: "nat \<Rightarrow> bool option"
  interactive :: bool
  raw_mode :: bool
  term_var :: "string option"
  bound_addr :: "string \<Rightarrow> string"
  show_session_error :: "session_error \<Rightarrow> string"
  delivered :: "channel_msg list"

text \<open>What the loop of an interactive session meets.\<close>

record shell_world =
  shell_side :: shell_env
  shell_inputs :: "shell_input list"
  shell_start :: cli

datatype 't phase =
    PhaseResolve "string option"
  | PhaseDial "'t resolved_target"
  | PhaseSetup client_session 't
  | PhaseShell client_session input_engine
  | PhaseClose disconnect_reason "string option"

definition tell :: "ui \<Rightarrow> unit flow_op" where
  "tell u s = (Inr (), s\<lparr>fl_ui := fl_ui s @ [u]\<rparr>)"

definition with_disk :: "('e \<Rightarrow> flow_error) \<Rightarrow> (disk, 'e, 'a) op \<Rightarrow> 'a flow_op" where
  "with_disk g f s = (case f (fl_disk s) of (r, d) \<Rightarrow> (map_err g r, s\<lparr>fl_disk := d\<rparr>))"

section \<open>Names\<close>

definition shorten_ticket :: "string \<Rightarrow> string" where
  "shorten_ticket s = (if length s \<le> 24 then s else take 12 s @ ''...'' @ drop (length s - 8) s)"

definition default_alias :: "(string \<Rightarrow> string) \<Rightarrow> peer_metadata \<Rightarrow> string" where
  "default_alias lower meta =
     (let clean = (\<lambda>s. lower (map (\<lambda>c. if c = CHR '' '' then CHR ''-'' else c) s))
      in clean (pm_user meta) @ ''-'' @ clean (pm_os meta))"

definition short_name :: "('t, 'i, 's, 'k) flow_env \<Rightarrow> 't \<Rightarrow> string" where
  "short_name E t = ''peer-'' @ take 8 (endpoint_id E t)"

definition select_items :: "('t, 'i, 's, 'k) flow_env \<Rightarrow> 't peer_profile list \<Rightarrow> string list" where
  "select_items E peers =
     ''[Use a wormhole code or ticket]'' # map (\<lambda>p. ''['' @ name p @ ''] '' @ shorten_ticket (show_ticket (tickets E) (ticket p))) peers"

section \<open>Saving the peer\<close>

text \<open>\<^verbatim>\<open>list_peers(state).unwrap_or_default()\<close>.\<close>

definition known_peers :: "('t, 'i, 's, 'k) flow_env \<Rightarrow> state_config \<Rightarrow> 't peer_profile list flow_op" where
  "known_peers E st s =
     (case list_peers (peers_json E) st (fl_disk s) of
        (Inr peers, d) \<Rightarrow> (Inr peers, s\<lparr>fl_disk := d\<rparr>)
      | (Inl _, d) \<Rightarrow> (Inr [], s\<lparr>fl_disk := d\<rparr>))"

text \<open>\<^verbatim>\<open>save_peer(...).is_ok()\<close>.\<close>

definition try_save_peer :: "('t, 'i, 's, 'k) flow_env \<Rightarrow> state_config \<Rightarrow> string \<Rightarrow> 't \<Rightarrow> bool flow_op" where
  "try_save_peer E st n t s =
     (case save_peer (peers_json E) st (peer_profile_new n t) (fl_disk s) of
        (r, d) \<Rightarrow> (Inr (case r of Inr _ \<Rightarrow> True | Inl _ \<Rightarrow> False), s\<lparr>fl_disk := d\<rparr>))"

definition same_endpoint :: "('t, 'i, 's, 'k) flow_env \<Rightarrow> 't \<Rightarrow> 't peer_profile \<Rightarrow> bool" where
  "same_endpoint E t p \<longleftrightarrow> endpoint_id E (ticket p) = endpoint_id E t"

definition auto_save_peer :: "('t, 'i, 's, 'k) flow_env \<Rightarrow> state_config \<Rightarrow> 't \<Rightarrow> string \<Rightarrow> string option flow_op" where
  "auto_save_peer E st t display_name =
     bindS (known_peers E st) (\<lambda>peers.
     if list_ex (same_endpoint E t) peers then retS None
     else
       let name_exists = list_ex (\<lambda>p. name p = display_name) peers;
           final_name = (if name_exists then asked_alias E else Some display_name)
       in case final_name of
            None \<Rightarrow> retS None
          | Some n \<Rightarrow>
              bindS (try_save_peer E st n t) (\<lambda>ok.
              bindS (if \<not> ok then retS ()
                     else tell (UiSuccess
                       (if name_exists then ''Peer alias updated to '' @ quoted n
                        else ''Peer auto-saved as '' @ quoted n @ ''. Use '' @ quoted (''irosh '' @ n) @ '' next time.'')))
              (\<lambda>_. retS final_name)))"

definition auto_save_temp_peer :: "('t, 'i, 's, 'k) flow_env \<Rightarrow> state_config \<Rightarrow> 't \<Rightarrow> unit flow_op" where
  "auto_save_temp_peer E st t =
     bindS (known_peers E st) (\<lambda>peers.
     if list_ex (same_endpoint E t) peers then retS ()
     else
       bindS (try_save_peer E st (short_name E t) t) (\<lambda>ok.
       if \<not> ok then retS ()
       else
         bindS (tell (UiInfo [])) (\<lambda>_.
         bindS (tell (UiWarn ''Connection failed, but peer ticket was recovered!''
           (''Saved as '' @ quoted (short_name E t) @ '' for future retries.''))) (\<lambda>_.
         tell (UiInfo (''You can reconnect by running: irosh connect '' @ short_name E t))))))"

section \<open>The phases\<close>

definition cancelled :: "'a flow_op" where
  "cancelled = failS (FlowMessage ''Connection cancelled.'')"

definition ask_target :: "('t, 'i, 's, 'k) flow_env \<Rightarrow> string flow_op" where
  "ask_target E =
     (case asked_target E of
        Some val \<Rightarrow> if trim val = [] then cancelled else retS (trim val)
      | None \<Rightarrow> cancelled)"

definition choose_target :: "('t, 'i, 's, 'k) flow_env \<Rightarrow> state_config \<Rightarrow> string flow_op" where
  "choose_target E st =
     bindS (with_disk FlowStorage (list_peers (peers_json E) st)) (\<lambda>peers.
     if peers = [] then ask_target E
     else case select_peer E (select_items E peers) of
       None \<Rightarrow> cancelled
     | Some 0 \<Rightarrow> ask_target E
     | Some (Suc i) \<Rightarrow> if i < length peers then retS (name (peers ! i)) else failS FlowPanic)"

definition phase_resolve ::
  "('t, 'i, 's, 'k) flow_env \<Rightarrow> connect_ctx \<Rightarrow> string option \<Rightarrow> 't phase flow_op" where
  "phase_resolve E ctx target =
     bindS (case target of Some t \<Rightarrow> retS t | None \<Rightarrow> choose_target E (ctx_state ctx)) (\<lambda>raw_target.
     bindS (with_disk FlowSetup (parse_target (tickets E) (peers_json E) (ctx_state ctx) raw_target)) (\<lambda>resolved.
     bindS (case resolved of
              TargetTicket _ \<Rightarrow>
                bindS (with_disk FlowStorage (list_peers (peers_json E) (ctx_state ctx))) (\<lambda>peers.
                tell (UiInfo (if list_ex (\<lambda>p. name p = raw_target) peers then ''Connecting to saved peer: '' @ raw_target
                              else ''Connecting via direct ticket...'')))
            | TargetWormhole code \<Rightarrow> tell (UiInfo (''Attempting wormhole connection: '' @ code))) (\<lambda>_.
     retS (PhaseDial resolved))))"

text \<open>A wait of the dial phase: \<open>recover\<close> runs after a failure and after an interrupt.\<close>

definition race :: "bool option \<Rightarrow> unit flow_op \<Rightarrow> (disk, setup_error, 'a) op \<Rightarrow> 'a flow_op" where
  "race interrupt recover f s =
     (case interrupt of
        Some changed \<Rightarrow>
          bindS recover (\<lambda>_. failS (FlowMessage ''Connection cancelled by user.''))
            (if changed then s\<lparr>fl_disk := snd (f (fl_disk s))\<rparr> else s)
      | None \<Rightarrow>
          (case f (fl_disk s) of
             (Inl e, d) \<Rightarrow> bindS recover (\<lambda>_. failS (FlowSetup e)) (s\<lparr>fl_disk := d\<rparr>)
           | (Inr x, d) \<Rightarrow> (Inr x, s\<lparr>fl_disk := d\<rparr>)))"

definition find_ticket ::
  "('t, 'i, 's, 'k) flow_env \<Rightarrow> state_config \<Rightarrow> 't resolved_target \<Rightarrow> (disk, setup_error, 't \<times> bool) op" where
  "find_ticket E st target d =
     (case target of
        TargetTicket t \<Rightarrow> (Inr (t, False), d)
      | TargetWormhole code \<Rightarrow>
          (case connect_wormhole (tickets E) (endpoint_keys E) st (fresh_keys E 0) (rendezvous E) code d of
             (Inl e, d1, _) \<Rightarrow> (Inl e, d1)
           | (Inr t, d1, _) \<Rightarrow> (Inr (t, True), d1)))"

definition reach_peer ::
  "('t, 'i, 's, 'k) flow_env \<Rightarrow> connect_ctx \<Rightarrow> 't \<Rightarrow> bool \<Rightarrow> (disk, setup_error, unit) op" where
  "reach_peer E ctx t is_pairing d =
     (case dial_p2p (sha256 E) (endpoint_keys E) (ctx_state ctx) (fresh_keys E 1) (secret (ctx_options ctx)) is_pairing (dialing E t) d of
        (r, d1, _) \<Rightarrow> (r, d1))"

definition join_peer ::
  "('t, 'i, 's, 'k) flow_env \<Rightarrow> connect_ctx \<Rightarrow> client_options \<Rightarrow> 't \<Rightarrow> (disk, setup_error, client_session) op" where
  "join_peer E ctx opts t d =
     (case establish_session (endpoint_keys E) (host_keys E) (ctx_state ctx) (fresh_keys E 2) opts (ssh_server E t) (network_ok E)
        (endpoint_id E t) d of (r, d1, _) \<Rightarrow> (r, d1))"

definition phase_dial ::
  "('t, 'i, 's, 'k) flow_env \<Rightarrow> connect_ctx \<Rightarrow> 't resolved_target \<Rightarrow> 't phase flow_op" where
  "phase_dial E ctx target =
     (let opts = (ctx_options ctx)\<lparr>has_prompter := True\<rparr> in
      bindS (race (ctrl_c E 0) (retS ()) (find_ticket E (ctx_state ctx) target)) (\<lambda>(t, is_pairing).
      let recover = (if is_pairing then auto_save_temp_peer E (ctx_state ctx) t else retS ()) in
      bindS (race (ctrl_c E 1) recover (reach_peer E ctx t is_pairing)) (\<lambda>_.
      bindS (race (ctrl_c E 2) recover (join_peer E ctx opts t)) (\<lambda>session.
      retS (PhaseSetup session t)))))"

text \<open>\<^verbatim>\<open>str::parse::<u32>\<close>.\<close>

definition parse_u32 :: "string \<Rightarrow> u32 option" where
  "parse_u32 s =
     (let ds = (case s of CHR ''+'' # t \<Rightarrow> t | _ \<Rightarrow> s)
      in if ds \<noteq> [] \<and> list_all digit ds \<and> decimal ds < 2 ^ 32 then Some (of_nat (decimal ds)) else None)"

definition TIP_DAEMON_STATUS :: string where
  "TIP_DAEMON_STATUS = ''run '' @ quoted ''irosh system status'' @ '' to inspect the running daemon''"

definition setup_forwarding ::
  "('t, 'i, 's, 'k) flow_env \<Rightarrow> string option \<Rightarrow> (client_session, flow_error, ui list) op" where
  "setup_forwarding E forward_str =
     (case forward_str of
        None \<Rightarrow> retS []
      | Some f \<Rightarrow>
          (case split_on ((=) (CHR '':'')) f of
             [local, remote_host, remote] \<Rightarrow>
               (case parse_u16 local of
                  None \<Rightarrow> failS (FlowMessage ''invalid port'')
                | Some local_port \<Rightarrow>
                    (case parse_u32 remote of
                       None \<Rightarrow> failS (FlowMessage ''invalid port'')
                     | Some remote_port \<Rightarrow> (\<lambda>s.
                         let addr = ''127.0.0.1:'' @ nat_str (unat local_port) in
                         case local_forward addr s of
                           (Inr _, s1) \<Rightarrow>
                             (Inr [UiInfo (''Forwarding '' @ bound_addr E addr @ '' -> '' @ remote_host @ '':'' @ nat_str (unat remote_port))], s1)
                         | (Inl e, s1) \<Rightarrow>
                             (Inr [UiError (''port forwarding failed: '' @ show_session_error E e) (Some TIP_DAEMON_STATUS)], s1))))
           | _ \<Rightarrow> retS []))"

definition open_shell ::
  "('t, 'i, 's, 'k) flow_env \<Rightarrow> connect_ctx \<Rightarrow> (client_session, flow_error, ui list) op" where
  "open_shell E ctx =
     bindS (if \<not> interactive E then retS ()
            else if \<not> raw_mode E then failS (FlowMessage ''raw mode'')
            else errS FlowSession (request_pty (case term_var E of Some t \<Rightarrow> t | None \<Rightarrow> ''xterm-256color''))) (\<lambda>_.
     bindS (errS FlowSession start_shell) (\<lambda>_.
     setup_forwarding E (ctx_forward ctx)))"

definition run_exec :: "('t, 'i, 's, 'k) flow_env \<Rightarrow> string \<Rightarrow> client_session \<Rightarrow> 't phase flow_op" where
  "run_exec E cmd session s =
     (case capture_exec (delivered E) cmd session of
        (Inl e, session1) \<Rightarrow> (Inl (FlowSession e), s\<lparr>fl_session := Some session1\<rparr>)
      | (Inr out, session1) \<Rightarrow>
          let s1 = s\<lparr>fl_session := Some (snd (disconnect session1)), fl_stdout := fl_stdout s @ out_stdout out, fl_stderr := fl_stderr s @ out_stderr out\<rparr> in
          if out_exit_status out \<noteq> 0 then (Inl (FlowExit (out_exit_status out)), s1)
          else (Inr (PhaseClose UserInitiated None), s1))"

definition eq_ignore_case :: "string \<Rightarrow> string \<Rightarrow> bool" where
  "eq_ignore_case a b \<longleftrightarrow> map lower_ascii a = map lower_ascii b"

definition enter_shell ::
  "('t, 'i, 's, 'k) flow_env \<Rightarrow> connect_ctx \<Rightarrow> client_session \<Rightarrow> string option \<Rightarrow> 't phase flow_op" where
  "enter_shell E ctx session alias s =
     (case open_shell E ctx session of
        (Inl e, session1) \<Rightarrow> (Inl e, s\<lparr>fl_alias := alias, fl_session := Some session1\<rparr>)
      | (Inr msgs, session1) \<Rightarrow>
          let windows = (case remote_metadata session1 of Some meta \<Rightarrow> eq_ignore_case (pm_os meta) ''windows'' | None \<Rightarrow> False) in
          (Inr (PhaseShell session1 (engine_new (fl_disk s) (root (ctx_state ctx)) windows)),
           s\<lparr>fl_alias := alias, fl_session := Some session1, fl_ui := fl_ui s @ msgs\<rparr>))"

definition phase_setup ::
  "('t, 'i, 's, 'k) flow_env \<Rightarrow> connect_ctx \<Rightarrow> client_session \<Rightarrow> 't \<Rightarrow> 't phase flow_op" where
  "phase_setup E ctx session t =
     (case ctx_exec ctx of
        Some cmd \<Rightarrow> run_exec E cmd session
      | None \<Rightarrow>
          let display_name =
            (case remote_metadata session of Some meta \<Rightarrow> default_alias (lowercase E) meta | None \<Rightarrow> short_name E t) in
          bindS (tell (UiSuccess (''Secure session established with '' @ display_name))) (\<lambda>_.
          bindS (auto_save_peer E (ctx_state ctx) t display_name) (enter_shell E ctx session)))"

text \<open>The loop of the session starts with an empty buffer; \<open>FlowRunning\<close> says that the inputs given have not ended it.\<close>

definition phase_shell :: "shell_world \<Rightarrow> input_engine \<Rightarrow> 't phase flow_op" where
  "phase_shell W engine =
     (case fst (drive_session (shell_side W) (shell_inputs W)
                  \<lparr>sh_cli = shell_start W, sh_engine = engine, sh_buffer = [], sh_shown = [], sh_stderr = []\<rparr>) of
        Inr _ \<Rightarrow> failS FlowRunning
      | Inl (Ended reason) \<Rightarrow> retS (PhaseClose reason None)
      | Inl (Failed err) \<Rightarrow> retS (PhaseClose SessionError (Some (cli_show_error (sh_env (shell_side W)) err)))
      | Inl Panicked \<Rightarrow> failS FlowPanic)"

definition phase_close :: "disconnect_reason \<Rightarrow> string option \<Rightarrow> unit flow_op" where
  "phase_close reason detail s =
     (let peer = (case fl_alias s of Some a \<Rightarrow> a | None \<Rightarrow> ''remote'') in
      tell (case reason of
              UserInitiated \<Rightarrow> UiInfo (''Disconnected from '' @ peer @ ''.'')
            | RemoteClosed \<Rightarrow> UiInfo (peer @ '' closed the connection.'')
            | ShellCrashed \<Rightarrow> UiError (peer @ '' shell exited unexpectedly.'') None
            | SessionError \<Rightarrow> UiError (''Session with '' @ peer @ '' terminated due to an error.'') detail) s)"

text \<open>One turn of the loop: the next phase, or \<open>None\<close> after the last one.\<close>

definition phase_step :: "('t, 'i, 's, 'k) flow_env \<Rightarrow> shell_world \<Rightarrow> connect_ctx \<Rightarrow> 't phase \<Rightarrow> 't phase option flow_op" where
  "phase_step E W ctx phase =
     (case phase of
        PhaseResolve target \<Rightarrow> bindS (phase_resolve E ctx target) (\<lambda>p. retS (Some p))
      | PhaseDial target \<Rightarrow> bindS (phase_dial E ctx target) (\<lambda>p. retS (Some p))
      | PhaseSetup session t \<Rightarrow> bindS (phase_setup E ctx session t) (\<lambda>p. retS (Some p))
      | PhaseShell session engine \<Rightarrow> bindS (phase_shell W engine) (\<lambda>p. retS (Some p))
      | PhaseClose reason detail \<Rightarrow> bindS (phase_close reason detail) (\<lambda>_. retS None))"

fun phase_rank :: "'t phase \<Rightarrow> nat" where
  "phase_rank (PhaseResolve _) = 4"
| "phase_rank (PhaseDial _) = 3"
| "phase_rank (PhaseSetup _ _) = 2"
| "phase_rank (PhaseShell _ _) = 1"
| "phase_rank (PhaseClose _ _) = 0"

lemma enter_shell_rank: "enter_shell E ctx session alias s = (Inr q, s') \<Longrightarrow> phase_rank q = 1"
  by (auto simp: enter_shell_def Let_def split: prod.splits sum.splits)

lemma run_exec_rank: "run_exec E cmd session s = (Inr q, s') \<Longrightarrow> phase_rank q = 0"
  by (auto simp: run_exec_def Let_def split: prod.splits sum.splits if_splits)

lemma phase_setup_rank: "phase_setup E ctx session t s = (Inr q, s') \<Longrightarrow> phase_rank q < 2"
  by (auto simp: phase_setup_def bindS_eq_iff Let_def dest!: run_exec_rank enter_shell_rank split: option.splits)

lemma phase_shell_rank: "phase_shell W engine s = (Inr q, s') \<Longrightarrow> phase_rank q = 0"
  by (auto simp: phase_shell_def split: sum.splits halt.splits)

lemma phase_step_descends:
  assumes "phase_step E W ctx p s = (Inr (Some q), s')"
  shows "phase_rank q < phase_rank p"
  using assms
  by (cases p)
     (auto simp: phase_step_def phase_resolve_def phase_dial_def bindS_eq_iff Let_def dest!: phase_setup_rank phase_shell_rank
       split: prod.splits)

function connect_loop :: "('t, 'i, 's, 'k) flow_env \<Rightarrow> shell_world \<Rightarrow> connect_ctx \<Rightarrow> 't phase \<Rightarrow> unit flow_op" where
  "connect_loop E W ctx p s =
     (case phase_step E W ctx p s of
        (Inl e, s1) \<Rightarrow> (Inl e, s1)
      | (Inr None, s1) \<Rightarrow> (Inr (), s1)
      | (Inr (Some q), s1) \<Rightarrow> connect_loop E W ctx q s1)"
  by pat_completeness auto
termination
  by (relation "measure (\<lambda>(E, W, ctx, p, s). phase_rank p)") (auto dest: phase_step_descends [OF sym])

declare connect_loop.simps [simp del]

record connect_args =
  arg_target :: "string option"
  arg_code :: "string option"
  arg_ticket :: "string option"
  arg_forward :: "string option"
  arg_secret :: "string option"
  arg_exec :: "string option"

definition or_else :: "'a option \<Rightarrow> 'a option \<Rightarrow> 'a option" where
  "or_else a b = (case a of None \<Rightarrow> b | Some _ \<Rightarrow> a)"

definition connect_options :: "string option \<Rightarrow> client_options" where
  "connect_options sec = \<lparr>host_policy = Tofu, secret = sec, credentials = None, has_prompter = False\<rparr>"

definition exec_internal ::
  "('t, 'i, 's, 'k) flow_env \<Rightarrow> shell_world \<Rightarrow> state_config \<Rightarrow> connect_args \<Rightarrow> unit flow_op" where
  "exec_internal E W st args s =
     (case load_config (config_json E) st (fl_disk s) of
        Inl e \<Rightarrow> (Inl (FlowStorage e), s)
      | Inr config \<Rightarrow>
          (case (case relay_url config of None \<Rightarrow> Inr () | Some url \<Rightarrow> map_sum id (\<lambda>_. ()) (parse_relay_mode (relay_url_of E) url)) of
             Inl url \<Rightarrow> (Inl (FlowMessage url), s)
           | Inr _ \<Rightarrow>
               connect_loop E W
                 \<lparr>ctx_state = st, ctx_options = connect_options (or_else (arg_secret args) (stealth_secret config)),
                  ctx_forward = arg_forward args, ctx_exec = arg_exec args\<rparr>
                 (PhaseResolve (or_else (arg_ticket args) (or_else (arg_code args) (arg_target args)))) (s\<lparr>fl_alias := None\<rparr>)))"

section \<open>Listings of the peers\<close>

definition stored_profile :: "'t peer_profile serde \<Rightarrow> disk \<Rightarrow> path \<Rightarrow> 't peer_profile \<Rightarrow> bool" where
  "stored_profile J d q p \<longleftrightarrow>
     path_is_file d q \<and> (case fs_read_to_string d q of Inl _ \<Rightarrow> False | Inr json \<Rightarrow> de J (as_bytes json) = Inr p)"

lemma stored_profile_local:
  "lookup d' q = lookup d q \<Longrightarrow> faults d' = faults d \<Longrightarrow> stored_profile J d' q p = stored_profile J d q p"
  by (simp add: stored_profile_def path_is_file_def fs_read_to_string_def fs_read_def)

lemma collect_peers_iff:
  "collect_peers J d dir fs = Inr l \<Longrightarrow>
   p \<in> set l \<longleftrightarrow> (\<exists>f \<in> set fs. name_extension f = Some ''json'' \<and> stored_profile J d (dir @ [Normal f]) p)"
proof (induction fs arbitrary: l)
  case (Cons f fs)
  obtain rest where rest: "collect_peers J d dir fs = Inr rest"
    using Cons.prems by (cases "collect_peers J d dir fs") (auto simp: and_then_def Let_def split: if_splits sum.splits)
  have "p \<in> set l \<longleftrightarrow> (name_extension f = Some ''json'' \<and> stored_profile J d (dir @ [Normal f]) p) \<or> p \<in> set rest"
    using Cons.prems rest
    by (auto simp: stored_profile_def and_then_def map_err_def Let_def split: if_splits sum.splits)
  then show ?case using Cons.IH [OF rest] by auto
qed simp

lemma listed_iff:
  assumes "list_peers J st d = (Inr ps, d1)"
  shows "p \<in> set ps \<longleftrightarrow> (\<exists>f. name_extension f = Some ''json'' \<and> stored_profile J d (peers_dir st @ [Normal f]) p)"
proof -
  obtain dir where dir: "ensure_peers_dir st d = (Inr dir, d1)"
    and l: "and_then (map_err (DirectoryRead dir) (fs_read_dir d1 dir)) (collect_peers J d1 dir) = Inr ps"
    using assms by (auto simp: list_peers_def bindS_eq_iff)
  have "dir = peers_dir st" using dir by (auto simp: ensure_peers_dir_def bindS_eq_iff Let_def join_proper)
  then have ps: "collect_peers J d1 (peers_dir st) (child_names d1 (peers_dir st)) = Inr ps"
    using l by (auto simp: and_then_eq_Inr_iff fs_read_dir_def split: if_splits)
  have "stored_profile J d1 (peers_dir st @ [Normal f]) p = stored_profile J d (peers_dir st @ [Normal f]) p" for f
    using ensure_peers_dir_facts [OF dir] by (intro stored_profile_local) simp_all
  moreover have "f \<in> set (child_names d1 (peers_dir st))" if "stored_profile J d1 (peers_dir st @ [Normal f]) p" for f
    using that unfolding child_names_iff
    by (cases "lookup d1 (peers_dir st @ [Normal f])") (simp_all add: stored_profile_def path_is_file_def)
  ultimately show ?thesis using collect_peers_iff [OF ps, of p] by blast
qed

lemma json_file_name: "n \<noteq> [] \<Longrightarrow> name_extension (n @ ''.json'') = Some ''json''"
  using rsplit_dotted [of n "''json''"] by (simp add: name_extension_def)

lemma loaded_is_listed:
  assumes "load_peer J st d n = Inr (Some p)" and "valid_peer n" and "reads_ok d" and "list_peers J st d = (Inr ps, d1)"
  shows "p \<in> set ps"
proof -
  have "stored_profile J d (peer_path st n) p"
    using assms(1,3)
    by (auto simp: load_peer_def stored_profile_def path_is_file_def fs_read_to_string_def fs_read_def and_then_eq_Inr_iff map_err_def reads_ok_def
        Let_def split: if_splits option.splits sum.splits node.splits)
  then show ?thesis
    using listed_iff [OF assms(4), of p] json_file_name [of n] valid_peer_chars [OF assms(2)] unfolding peer_path_eq [OF assms(2)] by blast
qed

section \<open>Saved peers are kept\<close>

lemma known_peers_ok:
  "list_peers (peers_json E) st (fl_disk s) = (Inr peers, d1) \<Longrightarrow> known_peers E st s = (Inr peers, s\<lparr>fl_disk := d1\<rparr>)"
  by (simp add: known_peers_def)

lemma list_peers_frame:
  assumes "list_peers J st d = (r, d1)"
  shows "faults d1 = faults d" and "valid_peer n \<Longrightarrow> load_peer J st d1 n = load_peer J st d n"
proof -
  obtain x where "ensure_peers_dir st d = (x, d1)"
    using assms by (auto simp: list_peers_def bindS_eq_iff)
  note facts = ensure_peers_dir_facts [OF this]
  then show "faults d1 = faults d" by blast
  then show "valid_peer n \<Longrightarrow> load_peer J st d1 n = load_peer J st d n"
    using facts(2) peer_path_deep by (intro load_peer_local) blast+
qed

lemma try_save_peer_keeps:
  assumes "try_save_peer E st m t s = (r, s')" and "valid_peer n" and "n \<noteq> m"
  shows "load_peer (peers_json E) st (fl_disk s') n = load_peer (peers_json E) st (fl_disk s) n"
proof -
  obtain x d where save: "save_peer (peers_json E) st (peer_profile_new m t) (fl_disk s) = (x, d)" by (rule prod.exhaust)
  then have "fl_disk s' = d" using assms(1) by (auto simp: try_save_peer_def)
  then show ?thesis
    using save_peer_facts(1,4) [OF save] assms(2,3) by (intro load_peer_local) simp_all
qed

lemma save_and_tell:
  assumes "bindS (try_save_peer E st m t) (\<lambda>ok. bindS (if \<not> ok then retS () else tell u) (\<lambda>_. retS v)) s = (r, s')"
  obtains ok s2 where "try_save_peer E st m t s = (Inr ok, s2)" "fl_disk s' = fl_disk s2"
proof -
  obtain x d where "save_peer (peers_json E) st (peer_profile_new m t) (fl_disk s) = (x, d)" by (rule prod.exhaust)
  then obtain ok s2 where save: "try_save_peer E st m t s = (Inr ok, s2)" by (simp add: try_save_peer_def)
  then have "fl_disk s' = fl_disk s2" using assms by (auto simp: bindS_def tell_def split: if_splits)
  with save show thesis by (rule that)
qed

lemma auto_save_peer_cases:
  assumes "auto_save_peer E st t display_name s = (r, s')" and "list_peers (peers_json E) st (fl_disk s) = (Inr peers, d1)"
  obtains "fl_disk s' = d1"
  | m ok s2 where "if display_name \<in> name ` set peers then asked_alias E = Some m else m = display_name"
      "try_save_peer E st m t (s\<lparr>fl_disk := d1\<rparr>) = (ok, s2)" "fl_disk s' = fl_disk s2"
proof -
  let ?final = "if display_name \<in> name ` set peers then asked_alias E else Some display_name"
  have ex: "list_ex (\<lambda>p. name p = display_name) peers \<longleftrightarrow> display_name \<in> name ` set peers" by (auto simp: list_ex_iff)
  show thesis
  proof (cases "list_ex (same_endpoint E t) peers \<or> ?final = None")
    case True
    then have "fl_disk s' = d1"
      using assms(1) known_peers_ok [OF assms(2)]
      by (elim disjE) (auto simp: auto_save_peer_def bindS_def [of "known_peers E st"] Let_def ex split: if_splits)
    then show thesis by (rule that(1))
  next
    case False
    then obtain m where m: "?final = Some m" by blast
    obtain u where "bindS (try_save_peer E st m t) (\<lambda>ok. bindS (if \<not> ok then retS () else tell u) (\<lambda>_. retS (Some m))) (s\<lparr>fl_disk := d1\<rparr>) = (r, s')"
      using assms(1) known_peers_ok [OF assms(2)] False m by (simp add: auto_save_peer_def bindS_def [of "known_peers E st"] Let_def ex)
    then obtain ok s2 where "try_save_peer E st m t (s\<lparr>fl_disk := d1\<rparr>) = (Inr ok, s2)" "fl_disk s' = fl_disk s2" by (rule save_and_tell)
    then show thesis using that(2) m by (auto split: if_splits)
  qed
qed

text \<open>
  C30. Connecting to a peer loses no saved peer.  When the peers can be listed and an alias that the user types is not the name of
  another one, saving the new peer leaves every profile that is stored under its own name as it was.
\<close>

theorem auto_save_keeps_peers:
  assumes "auto_save_peer E st t display_name s = (r, s')" and "list_peers (peers_json E) st (fl_disk s) = (Inr peers, d1)"
    and "reads_ok (fl_disk s)" and "valid_peer n" and "load_peer (peers_json E) st (fl_disk s) n = Inr (Some p)" and "name p = n"
    and "\<And>a. display_name \<in> name ` set peers \<Longrightarrow> asked_alias E = Some a \<Longrightarrow> a \<notin> name ` set peers"
  shows "load_peer (peers_json E) st (fl_disk s') n = Inr (Some p)"
proof -
  have listed: "n \<in> name ` set peers" using loaded_is_listed [OF assms(5,4,3,2)] assms(6) by blast
  have d1: "load_peer (peers_json E) st d1 n = Inr (Some p)" using list_peers_frame(2) [OF assms(2,4)] assms(5) by simp
  from assms(1,2) show ?thesis
  proof (cases rule: auto_save_peer_cases)
    case 1
    then show ?thesis using d1 by simp
  next
    case (2 m ok s2)
    then have "n \<noteq> m" using listed assms(7) by (auto split: if_splits)
    then show ?thesis using try_save_peer_keeps [OF 2(2) assms(4)] 2(3) d1 by simp
  qed
qed

section \<open>A failed pairing can be repeated\<close>

lemma race_error:
  fixes f :: "(disk, setup_error, 'a) op"
  assumes "race interrupt recover f s = (Inl e, s')" and "\<And>s. fst (recover s) = Inr ()"
  obtains s1 where "fl_ui s1 = fl_ui s" "recover s1 = (Inr (), s')"
proof -
  have step: "recover s1 = (Inr (), s')" if "(bindS recover (\<lambda>_. failS err) :: 'a flow_op) s1 = (Inl e, s')" for s1 err
    using that assms(2) [of s1] by (cases "recover s1") (auto simp: bindS_def split: sum.splits)
  show thesis
  proof (cases interrupt)
    case None
    then obtain err d where "(bindS recover (\<lambda>_. failS (FlowSetup err)) :: 'a flow_op) (s\<lparr>fl_disk := d\<rparr>) = (Inl e, s')"
      using assms(1) by (auto simp: race_def split: prod.splits sum.splits)
    then show thesis using that [of "s\<lparr>fl_disk := d\<rparr>"] step by simp
  next
    case (Some changed)
    let ?s = "if changed then s\<lparr>fl_disk := snd (f (fl_disk s))\<rparr> else s"
    have "recover ?s = (Inr (), s')" using assms(1) Some by (intro step) (simp add: race_def)
    then show thesis by (intro that [of ?s]) simp_all
  qed
qed

lemma race_ok: 
  assumes "race interrupt recover f s = (Inr x, s')"
  shows "fl_ui s' = fl_ui s"
proof -
  have "bindS recover (\<lambda>_. failS err) s1 \<noteq> (Inr x, s')" for err s1 by (auto simp: bindS_def split: prod.splits sum.splits)
  then show ?thesis using assms by (auto simp: race_def split: option.splits prod.splits sum.splits)
qed

lemma auto_save_temp_peer_total: "fst (auto_save_temp_peer E st t s) = Inr ()"
  by (auto simp: auto_save_temp_peer_def bindS_def known_peers_def try_save_peer_def tell_def split: prod.splits sum.splits)

lemma phase_dial_error:
  assumes "phase_dial E ctx target s = (Inl e, s')" and "fl_ui s' \<noteq> fl_ui s"
  obtains t s1 where "auto_save_temp_peer E (ctx_state ctx) t s1 = (Inr (), s')" "fl_ui s1 = fl_ui s"
proof -
  note found = that
  let ?opts = "(ctx_options ctx)\<lparr>has_prompter := True\<rparr>"
  let ?rec = "\<lambda>p t. if p then auto_save_temp_peer E (ctx_state ctx) t else retS ()"
  have total: "fst (?rec p t s) = Inr ()" for p t s by (simp add: auto_save_temp_peer_total)
  have saved: thesis if r: "?rec p t s1 = (Inr (), s')" and u: "fl_ui s1 = fl_ui s" for p t s1
  proof -
    have p using u r assms(2) by (cases p) auto
    then show thesis using found [of t s1] r u by simp
  qed
  from assms(1) consider
      "race (ctrl_c E 0) (retS ()) (find_ticket E (ctx_state ctx) target) s = (Inl e, s')"
    | t p s1 where "race (ctrl_c E 0) (retS ()) (find_ticket E (ctx_state ctx) target) s = (Inr (t, p), s1)"
        "race (ctrl_c E 1) (?rec p t) (reach_peer E ctx t p) s1 = (Inl e, s')"
    | t p s1 s2 where "race (ctrl_c E 0) (retS ()) (find_ticket E (ctx_state ctx) target) s = (Inr (t, p), s1)"
        "race (ctrl_c E 1) (?rec p t) (reach_peer E ctx t p) s1 = (Inr (), s2)"
        "race (ctrl_c E 2) (?rec p t) (join_peer E ctx ?opts t) s2 = (Inl e, s')"
    unfolding phase_dial_def Let_def by (auto simp: bindS_eq_iff split: prod.splits)
  then show thesis
  proof cases
    case 1
    then obtain s2 where "fl_ui s2 = fl_ui s" "(retS () :: unit flow_op) s2 = (Inr (), s')" by (rule race_error) simp
    then show thesis using assms(2) by simp
  next
    case 2
    obtain s2 where "fl_ui s2 = fl_ui s1" "?rec p t s2 = (Inr (), s')" using 2(2) total by (rule race_error)
    then show thesis using saved race_ok [OF 2(1)] by simp
  next
    case 3
    obtain s3 where "fl_ui s3 = fl_ui s2" "?rec p t s3 = (Inr (), s')" using 3(3) total by (rule race_error)
    then show thesis using saved race_ok [OF 3(1)] race_ok [OF 3(2)] by simp
  qed
qed

lemma auto_save_temp_peer_told:
  assumes "auto_save_temp_peer E st t s = (Inr (), s')" and "fl_ui s' \<noteq> fl_ui s"
  shows "last (fl_ui s') = UiInfo (''You can reconnect by running: irosh connect '' @ short_name E t)"
    and "\<exists>d0. save_peer (peers_json E) st (peer_profile_new (short_name E t) t) d0 = (Inr (), fl_disk s')"
proof -
  obtain peers s1 where k: "known_peers E st s = (Inr peers, s1)" "fl_ui s1 = fl_ui s"
    by (cases "list_peers (peers_json E) st (fl_disk s)"; cases "fst (list_peers (peers_json E) st (fl_disk s))") (auto simp: known_peers_def)
  obtain x d where save: "save_peer (peers_json E) st (peer_profile_new (short_name E t) t) (fl_disk s1) = (x, d)" by (rule prod.exhaust)
  have x: "x = Inr ()" and new: "\<not> list_ex (same_endpoint E t) peers"
    using assms k save by (cases x; auto simp: auto_save_temp_peer_def bindS_def try_save_peer_def split: if_splits)+
  have s': "fl_disk s' = d \<and> last (fl_ui s') = UiInfo (''You can reconnect by running: irosh connect '' @ short_name E t)"
    using assms(1) k save x new by (auto simp: auto_save_temp_peer_def bindS_def try_save_peer_def tell_def)
  show "last (fl_ui s') = UiInfo (''You can reconnect by running: irosh connect '' @ short_name E t)" using s' by blast
  show "\<exists>d0. save_peer (peers_json E) st (peer_profile_new (short_name E t) t) d0 = (Inr (), fl_disk s')" using s' save x by blast
qed

text \<open>None of the operations changes which reads fail.\<close>

definition keeps_reads :: "(disk, 'e, 'a) op \<Rightarrow> bool" where
  "keeps_reads f \<longleftrightarrow> (\<forall>d. reads_ok d \<longrightarrow> reads_ok (snd (f d)))"

lemma reads_ok_cong: "faults d' = faults d \<Longrightarrow> reads_ok d' = reads_ok d"
  by (simp add: reads_ok_def)

lemma identity_reads: "reads_ok d \<Longrightarrow> reads_ok (snd (load_or_generate_identity K st fresh d))"
  by (rule identity_reads_ok [OF prod.collapse [symmetric]])

lemma connect_wormhole_reads:
  assumes "reads_ok d" and "connect_wormhole F K st fresh env code d = (r, d', res)"
  shows "reads_ok d'"
  using identity_reads [OF assms(1), of K st fresh] assms(2) by (auto simp: connect_wormhole_def split: prod.splits sum.splits if_splits)

lemma find_ticket_reads: "keeps_reads (find_ticket E st target)"
  by (cases target)
     (auto simp: keeps_reads_def find_ticket_def split: prod.splits sum.splits dest: connect_wormhole_reads)

lemma reach_peer_reads: "keeps_reads (reach_peer E ctx t p)"
  unfolding keeps_reads_def
proof (intro allI impI)
  fix d assume "reads_ok d"
  then show "reads_ok (snd (reach_peer E ctx t p d))"
    using identity_reads [of d "endpoint_keys E" "ctx_state ctx" "fresh_keys E 1"]
    by (auto simp: reach_peer_def dial_p2p_def split: prod.splits sum.splits)
qed

lemma check_server_key_faults: "check_server_key ks key (h, d) = (r, h', d') \<Longrightarrow> faults d' = faults d"
  using servers.save_faults [of ks "ch_state h" "node_id h" key d]
  by (auto simp: check_server_key_def split: if_splits option.splits host_key_policy.splits prod.splits sum.splits)

lemma ssh_connect_faults: "faults (snd (ssh_connect ks opts env h d)) = faults d"
  using check_server_key_faults [of ks _ h d]
  by (auto simp: ssh_connect_def split: sum.splits ssh_failure.splits prod.splits bool.splits)

lemma join_peer_reads: "keeps_reads (join_peer E ctx opts t)"
  unfolding keeps_reads_def
proof (intro allI impI)
  fix d assume "reads_ok d"
  then show "reads_ok (snd (join_peer E ctx opts t d))"
    using identity_reads [of d "endpoint_keys E" "ctx_state ctx" "fresh_keys E 2"]
      reads_ok_cong [OF ssh_connect_faults [of "host_keys E" opts "ssh_server E t"]]
    by (auto simp: join_peer_def establish_session_def split: prod.splits sum.splits) (metis snd_conv)+
qed

lemma auto_save_temp_peer_reads: "reads_ok (fl_disk s) \<Longrightarrow> reads_ok (fl_disk (snd (auto_save_temp_peer E st t s)))"
proof -
  assume ok: "reads_ok (fl_disk s)"
  have l: "faults (snd (list_peers (peers_json E) st d)) = faults d" for d by (rule list_peers_frame(1) [OF prod.collapse [symmetric]])
  have v: "faults (snd (save_peer (peers_json E) st p d)) = faults d" for p d by (rule save_peer_facts(1) [OF prod.collapse [symmetric]])
  have "faults (fl_disk (snd (auto_save_temp_peer E st t s))) = faults (fl_disk s)"
    using l [of "fl_disk s"] v
    by (auto simp: auto_save_temp_peer_def bindS_def known_peers_def try_save_peer_def tell_def split: prod.splits sum.splits) (metis snd_conv)+
  then show ?thesis using ok reads_ok_cong by blast
qed

lemma race_reads:
  assumes "keeps_reads f" and "\<And>s. reads_ok (fl_disk s) \<Longrightarrow> reads_ok (fl_disk (snd (recover s)))" and "reads_ok (fl_disk s)"
  shows "reads_ok (fl_disk (snd (race interrupt recover f s)))"
proof -
  have fail: "snd (bindS recover (\<lambda>_. failS e) s1) = snd (recover s1)" for e s1 by (auto simp: bindS_def split: prod.split sum.split)
  have "reads_ok (snd (f (fl_disk s)))" using assms(1,3) by (simp add: keeps_reads_def)
  then show ?thesis using assms(2,3) by (auto simp: race_def fail split: option.split prod.split sum.split)
qed

lemma phase_dial_reads:
  assumes "reads_ok (fl_disk s)"
  shows "reads_ok (fl_disk (snd (phase_dial E ctx target s)))"
proof -
  have step: "reads_ok (fl_disk (snd (bindS m g s)))"
    if "reads_ok (fl_disk (snd (m s)))" "\<And>x s1. m s = (Inr x, s1) \<Longrightarrow> reads_ok (fl_disk s1) \<Longrightarrow> reads_ok (fl_disk (snd (g x s1)))"
    for m :: "'x flow_op" and g :: "'x \<Rightarrow> 'y flow_op" and s
    using that by (auto simp: bindS_def split: prod.splits sum.splits)
  have r: "reads_ok (fl_disk (snd ((if p then auto_save_temp_peer E (ctx_state ctx) t else retS ()) s)))" if "reads_ok (fl_disk s)" for p t s
    using auto_save_temp_peer_reads [OF that, of E] that by (cases p) simp_all
  show ?thesis
    unfolding phase_dial_def Let_def case_prod_beta
    by (intro step race_reads find_ticket_reads reach_peer_reads join_peer_reads r) (simp_all add: assms)
qed

text \<open>Every profile is in the file of its name, as saving leaves it.\<close>

definition named_files :: "'t peer_profile serde \<Rightarrow> state_config \<Rightarrow> disk \<Rightarrow> bool" where
  "named_files J st d \<longleftrightarrow>
     (\<forall>f p. name_extension f = Some ''json'' \<longrightarrow> stored_profile J d (peers_dir st @ [Normal f]) p \<longrightarrow> f = name p @ ''.json'')"

lemma saved_peer_is_found:
  assumes "save_peer J st p d0 = (Inr u, d)" and "profile_storable J p" and "reads_ok d" and "named_files J st d"
    and "list_peers J st d = (Inr ps, d1)"
  shows "find (\<lambda>q. name q = name p) ps = Some p"
proof -
  have valid: "valid_peer (name p)" using save_peer_facts(3) [OF assms(1) refl] by blast
  have "reads_ok d0" using assms(3) save_peer_facts(1) [OF assms(1)] by (simp add: reads_ok_def)
  then have load: "load_peer J st d (name p) = Inr (Some p)" using saved_peer_loads assms(1,2) by blast
  have same: "q = p" if q: "q \<in> set ps" "name q = name p" for q
  proof -
    obtain f where f: "name_extension f = Some ''json''" "stored_profile J d (peers_dir st @ [Normal f]) q"
      using listed_iff [OF assms(5)] q(1) by blast
    then have "f = name p @ ''.json''" using assms(4) q(2) unfolding named_files_def by metis
    then have "stored_profile J d (peer_path st (name p)) q" using f(2) peer_path_eq [OF valid] by simp
    then show "q = p" using load
      by (auto simp: load_peer_def stored_profile_def and_then_eq_Inr_iff map_err_def Let_def split: if_splits sum.splits)
  qed
  have "p \<in> set ps" by (rule loaded_is_listed [OF load valid assms(3,5)])
  then obtain q where "find (\<lambda>q. name q = name p) ps = Some q" by (metis (mono_tags, lifting) find_None_iff not_Some_eq)
  moreover from this have "q \<in> set ps" "name q = name p" by (auto simp: find_Some_iff)
  ultimately show ?thesis using same by simp
qed


section \<open>Commands without a terminal\<close>


section \<open>Witnesses\<close>

definition mark :: "bool option \<Rightarrow> char" where
  "mark t = (case t of None \<Rightarrow> CHR ''0'' | Some False \<Rightarrow> CHR ''1'' | Some True \<Rightarrow> CHR ''2'')"

definition marked :: "char \<Rightarrow> bool option" where
  "marked c = (if c = CHR ''0'' then None else Some (c = CHR ''2''))"

definition flow_tickets :: "bool option ticket_format" where
  "flow_tickets = \<lparr>parse_endpoint_ticket = (\<lambda>s. if take 8 s = ''endpoint'' \<and> length s = 9 then Some (marked (s ! 8)) else None),
     show_ticket = (\<lambda>t. ''endpoint'' @ [mark t])\<rparr>"

definition flow_profiles :: "bool option peer_profile serde" where
  "flow_profiles = \<lparr>ser = (\<lambda>p. Inr (as_bytes (mark (ticket p) # name p))),
     de = (\<lambda>b. case str_of_bytes b of [] \<Rightarrow> Inl (JsonError ''empty'') | c # n \<Rightarrow> Inr \<lparr>name = n, ticket = marked c\<rparr>)\<rparr>"

definition sample_flow_env :: "(bool option, u8, u8, string) flow_env" where
  "sample_flow_env = \<lparr>tickets = flow_tickets, peers_json = flow_profiles,
     config_json = \<lparr>ser = (\<lambda>_. Inr []), de = (\<lambda>_. Inr app_config_default)\<rparr>, relay_url_of = Some,
     endpoint_keys = \<lparr>key_bytes = (\<lambda>k. [k]), key_of_str = (\<lambda>_. Inr 7), ssh_of_seed = hd\<rparr>, host_keys = sample_keys, sha256 = (\<lambda>_. []), fresh_keys = (\<lambda>_. 7),
     endpoint_id = (\<lambda>t. replicate 8 (mark t)), lowercase = map lower_ascii,
     rendezvous = \<lparr>endpoint_binds = True, pkarr_builds = True, pkarr_polls = (\<lambda>_. Some [broadcast_record flow_tickets (Some True)]), found_in_time = True\<rparr>,
     dialing = (\<lambda>_. sample_dials\<lparr>dials := (\<lambda>_ _. DialTimeout)\<rparr>), ssh_server = (\<lambda>_. sample_ssh), network_ok = (\<lambda>_. True),
     asked_target = None, asked_alias = Some ''b'', select_peer = (\<lambda>_. None), ctrl_c = (\<lambda>_. None),
     interactive = False, raw_mode = False, term_var = None, bound_addr = id, show_session_error = (\<lambda>_. ''error''), delivered = [MsgData [0x41], MsgExitStatus 3, MsgClose]\<rparr>"

definition sample_world :: shell_world where
  "sample_world = \<lparr>shell_side = \<lparr>sh_json = completion_json, sh_env = completion_cli_env, split_words = (\<lambda>s. Some [s]), quote_word = id,
     send_ok = (\<lambda>_. True), transfer_events = 0, query_events = 0, terminal_rows = 24\<rparr>, shell_inputs = [], shell_start = completion_cli []\<rparr>"

definition flow_start :: "disk \<Rightarrow> flow" where
  "flow_start d = \<lparr>fl_disk = d, fl_ui = [], fl_alias = None, fl_stdout = [], fl_stderr = [], fl_session = None\<rparr>"

definition sample_home :: "(path \<times> node) list \<Rightarrow> disk" where
  "sample_home files = sample_disk\<lparr>nodes := files @
     [(root sample_state @ [Normal ''peers''], Dir 0x1C0), (root sample_state @ [Normal ''keys''], Dir 0x1C0),
      (secret_path sample_state, File ''07'' 0x180)] @ nodes sample_disk\<rparr>"

definition two_peers :: disk where
  "two_peers = sample_home [(peer_path sample_state ''a'', File ''0a'' 0x180), (peer_path sample_state ''b'', File ''1b'' 0x180)]"

lemma two_peers_stored: "load_peer flow_profiles sample_state two_peers ''b'' = Inr (Some (peer_profile_new ''b'' (Some False)))"
  by code_simp

lemma two_peers_listed: "fst (list_peers flow_profiles sample_state two_peers) = Inr [peer_profile_new ''a'' None, peer_profile_new ''b'' (Some False)]"
  by code_simp

lemma overwritten_by_alias:
  "load_peer flow_profiles sample_state
     (fl_disk (snd (auto_save_peer sample_flow_env sample_state (Some True) ''a'' (flow_start two_peers)))) ''b''
   = Inr (Some (peer_profile_new ''b'' (Some True)))"
  by code_simp

lemma overwritten_unseen:
  "load_peer flow_profiles sample_state
     (fl_disk (snd (auto_save_peer sample_flow_env sample_state (Some True) ''b''
        (flow_start (two_peers\<lparr>faults := (\<lambda>c. c = CallRead (peer_path sample_state ''a''))\<rparr>))))) ''b''
   = Inr (Some (peer_profile_new ''b'' (Some True)))"
  by code_simp

text \<open>
  An alias can replace a saved peer.  The peer announces a name that is taken, the user is asked for another and types the name of a third
  peer: its ticket is overwritten without a question.  And when one profile cannot be read, no peer counts as known, so that a
  peer of the announced name is overwritten without the user being asked at all.
\<close>

theorem auto_save_can_overwrite:
  "load_peer flow_profiles sample_state two_peers ''b'' = Inr (Some (peer_profile_new ''b'' (Some False)))
   \<and> load_peer flow_profiles sample_state
       (fl_disk (snd (auto_save_peer sample_flow_env sample_state (Some True) ''a'' (flow_start two_peers)))) ''b''
     = Inr (Some (peer_profile_new ''b'' (Some True)))
   \<and> load_peer flow_profiles sample_state
       (fl_disk (snd (auto_save_peer sample_flow_env sample_state (Some True) ''b''
          (flow_start (two_peers\<lparr>faults := (\<lambda>c. c = CallRead (peer_path sample_state ''a''))\<rparr>))))) ''b''
     = Inr (Some (peer_profile_new ''b'' (Some True)))"
  using two_peers_stored overwritten_by_alias overwritten_unseen by blast

theorem auto_save_keeps_peers_witness:
  "\<exists>r s'. auto_save_peer sample_flow_env sample_state (Some True) ''c'' (flow_start two_peers) = (r, s')
     \<and> load_peer flow_profiles sample_state (fl_disk s') ''b'' = Inr (Some (peer_profile_new ''b'' (Some False)))"
proof -
  obtain r s' where run: "auto_save_peer sample_flow_env sample_state (Some True) ''c'' (flow_start two_peers) = (r, s')" by (rule prod.exhaust)
  have J: "peers_json sample_flow_env = flow_profiles" "fl_disk (flow_start two_peers) = two_peers"
    by (simp_all add: sample_flow_env_def flow_start_def)
  obtain d1 where l: "list_peers flow_profiles sample_state two_peers = (Inr [peer_profile_new ''a'' None, peer_profile_new ''b'' (Some False)], d1)"
    using two_peers_listed by (metis prod.collapse)
  have "reads_ok two_peers" by (simp add: reads_ok_def two_peers_def sample_home_def)
  moreover have "valid_peer ''b''" by code_simp
  ultimately have "load_peer flow_profiles sample_state (fl_disk s') ''b'' = Inr (Some (peer_profile_new ''b'' (Some False)))"
    using auto_save_keeps_peers [OF run, unfolded J, OF l _ _ two_peers_stored] by simp
  then show ?thesis using run by blast
qed


lemma sample_short_name: "short_name sample_flow_env t = ''peer-'' @ replicate 8 (mark t)"
  by (simp add: short_name_def sample_flow_env_def)

lemma three_tickets: "(t :: bool option) = None \<or> t = Some False \<or> t = Some True"
  by (cases t) auto

lemma flow_profile_storable: "profile_storable flow_profiles (peer_profile_new (short_name sample_flow_env t) t)"
proof -
  have "profile_storable flow_profiles (peer_profile_new ''peer-00000000'' None)"
    "profile_storable flow_profiles (peer_profile_new ''peer-11111111'' (Some False))"
    "profile_storable flow_profiles (peer_profile_new ''peer-22222222'' (Some True))"
    by code_simp+
  then show ?thesis using three_tickets [of t] by (auto simp: sample_short_name mark_def numeral_eq_Suc)
qed

definition failed_run :: "(flow_error + bool option phase) \<times> flow" where
  "failed_run = phase_dial sample_flow_env
     \<lparr>ctx_state = sample_state, ctx_options = connect_options None, ctx_forward = None, ctx_exec = None\<rparr> (TargetWormhole ''x'')
     (flow_start (sample_home []))"

definition recovered_run :: "(flow_error + bool option phase) \<times> flow \<Rightarrow> bool" where
  "recovered_run w \<longleftrightarrow>
     (case w of (r, s) \<Rightarrow>
       isl r \<and> fl_ui s \<noteq> [] \<and> child_names (fl_disk s) (peers_dir sample_state) = [''peer-22222222.json'']
       \<and> fst (list_peers flow_profiles sample_state (fl_disk s)) = Inr [peer_profile_new ''peer-22222222'' (Some True)])"

lemma failed_run_recovers: "recovered_run failed_run"
  by code_simp

lemma failed_run_facts:
  "isl (fst failed_run)" "fl_ui (snd failed_run) \<noteq> []"
  "child_names (fl_disk (snd failed_run)) (peers_dir sample_state) = [''peer-22222222.json'']"
  "fst (list_peers flow_profiles sample_state (fl_disk (snd failed_run))) = Inr [peer_profile_new ''peer-22222222'' (Some True)]"
  using failed_run_recovers by (simp_all add: recovered_run_def case_prod_beta)

lemma failed_run_named: "named_files flow_profiles sample_state (fl_disk (snd failed_run))"
  unfolding named_files_def
proof (intro allI impI)
  fix f p assume json: "name_extension f = Some ''json''" and stored: "stored_profile flow_profiles (fl_disk (snd failed_run)) (peers_dir sample_state @ [Normal f]) p"
  obtain d1 where "list_peers flow_profiles sample_state (fl_disk (snd failed_run)) = (Inr [peer_profile_new ''peer-22222222'' (Some True)], d1)"
    using failed_run_facts(4) by (metis prod.collapse)
  then have "name p = ''peer-22222222''" using listed_iff [of flow_profiles sample_state "fl_disk (snd failed_run)" _ d1 p] json stored by auto
  moreover have "lookup (fl_disk (snd failed_run)) (peers_dir sample_state @ [Normal f]) \<noteq> None"
    using stored by (cases "lookup (fl_disk (snd failed_run)) (peers_dir sample_state @ [Normal f])") (simp_all add: stored_profile_def path_is_file_def)
  then have "f = ''peer-22222222.json''" using failed_run_facts(3) child_names_iff [of f "fl_disk (snd failed_run)" "peers_dir sample_state"] by simp
  ultimately show "f = name p @ ''.json''" by simp
qed


end
