(* ===== verification/Spec2Isabelle.thy ===== *)
theory Spec2Isabelle
  imports Irosh_Prelude Frame_Interface Transfer_Codec Metadata_Codec Remote_Path Storage_FS Store_Interface
    Trust_Store Peer_Store State_Store Auth_Interface Auth_Backends Unified_Auth Auth_Sessions Host_Key
    Server_Context Server_Upload Upload_Safety Upload_Tree
    File_Stream Server_Download Server_Dispatch Client_Transfer Client_Download Upload_Replies Upload_End_To_End
    Download_Safety Download_End_To_End
    Pty_Session Utf8_Lossy Server_Handler Handler_Lifecycle Side_Streams Server_Loop
    Input_History Line_Editor Local_Command Input_Engine Input_Safety
    Client_Session Transfer_Commands Line_Completion Connect_Session Connect_Safety Client_Connect Connect_Flow
begin

text \<open>
  A verification library for irosh, peer-to-peer SSH sessions over Iroh.

  \<^bold>\<open>The program.\<close>  A daemon (\<^verbatim>\<open>src/server\<close>) accepts connections of an Iroh endpoint.  On each it runs an SSH session and, beside it,
  side streams that carry file transfers and metadata; it authenticates clients by key or password, and opens a wormhole with a short
  code to pair with a new client.  A client (\<^verbatim>\<open>src/client\<close>) resolves a target, dials the peer, checks the host key, authenticates and
  drives the session and the transfers.  Both keep their state in one directory (\<^verbatim>\<open>src/storage\<close>).  The command line program
  (\<^verbatim>\<open>src/cli\<close>) adds the interactive session with its local prompt.  Paths in this development are those of the repository below
  \<^verbatim>\<open>src\<close>.

  \<^bold>\<open>Foundations.\<close>  \<open>Irosh_Prelude\<close>: machine integers, results, the state operations \<open>('s, 'e, 'a) op\<close> with \<open>bindS\<close>, UTF-8, trimming.
  \<open>Std_Path\<close>: Rust paths as lists of components.  \<open>Storage_FS\<close>: a disk in which every call can fail by choice of the environment,
  and \<^verbatim>\<open>storage/utils.rs\<close>; an atomic write replaces the file completely or leaves it.  Four interfaces are locales, each interpreted on
  the model's own operations: \<open>frame_codec\<close> (\<open>Frame_Interface\<close>), \<open>record_store\<close> (\<open>Store_Interface\<close>), \<open>authenticator\<close> and
  \<open>rate_limiter\<close> (\<open>Auth_Interface\<close>).

  \<^bold>\<open>Wire formats.\<close>  \<open>Transfer_Codec\<close> (\<^verbatim>\<open>transport/transfer\<close>) and \<open>Metadata_Codec\<close> (\<^verbatim>\<open>transport/metadata\<close>): every reader and writer;
  a stream of frames is read back, and a frame is accepted exactly when a writer can produce it.  \<open>Remote_Path\<close>: the two sanitizers for
  paths from the network; an accepted path cannot leave the directory it is joined to.

  \<^bold>\<open>State directory.\<close>  \<open>Trust_Store\<close>, \<open>Peer_Store\<close>, \<open>State_Store\<close> (\<^verbatim>\<open>storage/trust.rs\<close>, \<^verbatim>\<open>peers.rs\<close>, \<^verbatim>\<open>keys.rs\<close>, \<^verbatim>\<open>shadow.rs\<close>,
  \<^verbatim>\<open>config.rs\<close>): the stores refine maps under every pattern of write faults, a rename never loses a peer, a rotation never loses the identity.

  \<^bold>\<open>Authentication.\<close>  \<open>Auth_Backends\<close>, \<open>Unified_Auth\<close>, \<open>Auth_Sessions\<close> (\<^verbatim>\<open>auth\<close>): which key or password is accepted, that guesses are
  bounded, and in a step relation over many sessions that pairing adds only a key of its own session.  \<open>Host_Key\<close>
  (\<^verbatim>\<open>client/handler.rs\<close>): pinned server keys.

  \<^bold>\<open>Transfers.\<close>  Server: \<open>Server_Context\<close>, \<open>Server_Upload\<close>, \<open>Server_Download\<close>, \<open>Server_Dispatch\<close>, \<open>File_Stream\<close>
  (\<^verbatim>\<open>server/transfer\<close>, \<^verbatim>\<open>metrics.rs\<close>).  Client: \<open>Client_Transfer\<close>, \<open>Client_Download\<close> (\<^verbatim>\<open>client/transfer\<close>).  \<open>Upload_Safety\<close>,
  \<open>Upload_Tree\<close>, \<open>Upload_Replies\<close> and \<open>Download_Safety\<close> treat one side against an arbitrary peer: targets appear complete or not at
  all, trees stay below their destination, part files are removed.  \<open>Upload_End_To_End\<close> and \<open>Download_End_To_End\<close> join both sides:
  a reported success means equal contents, and without faults both succeed.

  \<^bold>\<open>Server.\<close>  \<open>Pty_Session\<close>, \<open>Server_Handler\<close> and \<open>Handler_Lifecycle\<close> (\<^verbatim>\<open>session/pty.rs\<close>, \<^verbatim>\<open>server/handler\<close>): channels, terminals and
  child processes under every sequence of events; after a session no channel and no child is left.  \<open>Side_Streams\<close>
  (\<^verbatim>\<open>server/side_streams.rs\<close>, \<^verbatim>\<open>protocol.rs\<close>): streams are served only after authentication while the session lives, and two ways in
  which the gate opens without it.  \<open>Server_Loop\<close> (\<^verbatim>\<open>server/mod.rs\<close>, \<^verbatim>\<open>session_tracker.rs\<close>, \<^verbatim>\<open>ipc.rs\<close>): the daemon as a machine over
  messages, timers and sessions; at most one wormhole is broadcast.

  \<^bold>\<open>Client.\<close>  \<open>Client_Session\<close> (\<^verbatim>\<open>client/session.rs\<close>, \<^verbatim>\<open>session_event.rs\<close>, \<^verbatim>\<open>session/state.rs\<close>): every operation of a session; an ended
  session makes no call, a disconnect releases everything unless the SSH message fails.  \<open>Client_Connect\<close> (\<^verbatim>\<open>client/connect.rs\<close>,
  \<^verbatim>\<open>transport/ticket.rs\<close>, \<^verbatim>\<open>wormhole.rs\<close>, \<^verbatim>\<open>iroh.rs\<close>): targets, rendezvous, dialing, handshake; a session is established only with a
  trusted server, and which resources each failure leaves open.

  \<^bold>\<open>Interactive session.\<close>  \<open>Input_History\<close>, \<open>Line_Editor\<close>, \<open>Local_Command\<close>, \<open>Utf8_Lossy\<close>, \<open>Input_Engine\<close> and \<open>Input_Safety\<close>
  (\<^verbatim>\<open>cli/src/commands/connect/history.rs\<close>, \<^verbatim>\<open>prompt.rs\<close>, \<^verbatim>\<open>input\<close>): the engine never panics, prompt input stays local, the editor
  refines two stacks.  \<open>Transfer_Commands\<close> and \<open>Line_Completion\<close> (\<^verbatim>\<open>transfer.rs\<close>, \<^verbatim>\<open>completion.rs\<close>): path resolution and tab
  completion; a completion edits one word.  \<open>Connect_Session\<close> and \<open>Connect_Safety\<close> (\<^verbatim>\<open>prompt.rs\<close>, \<^verbatim>\<open>session.rs\<close>): the event loop; no
  remote output is lost.  \<open>Connect_Flow\<close> (\<^verbatim>\<open>mod.rs\<close>, \<^verbatim>\<open>tunnels.rs\<close>): the phases of \<^verbatim>\<open>irosh connect\<close> from the target to the summary; no
  saved peer is lost, a failed pairing can be repeated, an exit status is passed on.

  \<^bold>\<open>How it is modelled.\<close>  Structures are records, enumerations datatypes, results sums, panics the value \<open>None\<close> or an error of their own.
  Code outside the repository is an argument: JSON and key formats, tickets, SHA-256, the SSH library, Iroh, Pkarr, word splitting and
  quoting, random numbers, the clock.  A property that relies on such an argument names what it needs as a hypothesis and has a
  witness.  Waiting on several sources is a list of inputs in any order; a system call or network call fails when an oracle says so.

  \<^bold>\<open>Bounds.\<close>  The loops over the entries of a tree take as fuel the number of unread bytes; each round reads at least one, and more fuel
  changes nothing (\<open>tree_loop_fuel\<close>, \<open>fetch_loop_fuel\<close>).  Three dial attempts, three typed passwords, sixty polls and a million candidate
  names are constants of the code.  The loop over actions terminates because a query that yields more input has consumed an event of
  the terminal, the loop over phases because a phase is only followed by a later one.

  \<^bold>\<open>Not modelled.\<close>  Windows branches, and the helper process that acts inside an interactive shell on Linux.  Content-addressed
  transfers (\<^verbatim>\<open>server/transfer/files/blob.rs\<close>, \<^verbatim>\<open>client/transfer/files/protocol.rs\<close>), which are calls of iroh-blobs; the interactive
  commands have their result as a parameter.  Service files, sockets and process control (\<^verbatim>\<open>sys\<close>).  The parsing of the command line, the
  drawing of spinners and progress bars, and the subcommands other than \<^verbatim>\<open>connect\<close>.  Poisoned mutexes, failed blocking tasks, and
  interleavings inside one call of an operation.
\<close>

end
